theory Spec2Isabelle
  imports Complex_Main "HOL-Library.Word" "HOL-Library.Log_Nat" "HOL-Library.AList"
begin

section \<open>Machine arithmetic\<close>

text \<open>
  The engine computes its clocks in C++ \<open>double\<close> (IEEE 754 binary64) and its layer
  geometry in \<open>float\<close> (binary32). A finite floating-point value is a rational number, and
  every arithmetic operation returns the exact result rounded to the nearest value with a
  \<open>p\<close>-bit significand, ties to even (\<open>p = 53\<close> for \<open>double\<close>, \<open>p = 24\<close> for
  \<open>float\<close>). The exponent range is not bounded here: overflow to infinity, subnormal
  numbers and NaN are outside the model, and every division whose divisor can be zero is
  guarded where it occurs.
\<close>

definition round_even :: "rat \<Rightarrow> int" where
  "round_even y =
     (let f = \<lfloor>y\<rfloor>; d = y - of_int f
      in if d < 1 / 2 then f else if 1 / 2 < d then f + 1 else if even f then f else f + 1)"

definition ilog2 :: "rat \<Rightarrow> int" where
  \<comment> \<open>the integer \<open>e\<close> with \<open>2^e \<le> x < 2^(e+1)\<close>, for \<open>x > 0\<close>\<close>
  "ilog2 x = (if 1 \<le> x then bitlen \<lfloor>x\<rfloor> - 1 else - bitlen (\<lceil>1 / x\<rceil> - 1))"

definition fl :: "nat \<Rightarrow> rat \<Rightarrow> rat" where
  "fl p x =
     (if x = 0 then 0
      else let u = 2 powi (ilog2 \<bar>x\<bar> - int p + 1) in of_int (round_even (x / u)) * u)"

type_synonym double = rat
type_synonym float = rat

definition dadd :: "double \<Rightarrow> double \<Rightarrow> double" where "dadd x y = fl 53 (x + y)"
definition dsub :: "double \<Rightarrow> double \<Rightarrow> double" where "dsub x y = fl 53 (x - y)"
definition dmul :: "double \<Rightarrow> double \<Rightarrow> double" where "dmul x y = fl 53 (x * y)"
definition ddiv :: "double \<Rightarrow> double \<Rightarrow> double" where "ddiv x y = fl 53 (x / y)"
definition double_of_int :: "int \<Rightarrow> double" where "double_of_int i = fl 53 (of_int i)"

definition fmul :: "float \<Rightarrow> float \<Rightarrow> float" where "fmul x y = fl 24 (x * y)"

text \<open>
  Integers. An \<open>int\<close> is a 32-bit and an \<open>int64_t\<close> (\<open>LONGLONG\<close>) a 64-bit
  two's-complement number; both are carried as integers in their range. \<open>wrap32\<close> brings
  the result of an \<open>int\<close> operation back into range, the way the compiled code wraps, and
  is also the cast from \<open>int64_t\<close> to \<open>int\<close>. A cast from \<open>double\<close> truncates
  towards zero; where the truncated value is out of range, which C++ leaves undefined, the
  x86-64 conversion instruction returns the smallest value of the type, and so do
  \<open>int_of_double\<close> and \<open>int64_of_double\<close>.
\<close>

definition wrap32 :: "int \<Rightarrow> int" where
  "wrap32 i = sint (word_of_int i :: 32 word)"

definition trunc_double :: "double \<Rightarrow> int" where
  "trunc_double x = (if 0 \<le> x then \<lfloor>x\<rfloor> else \<lceil>x\<rceil>)"

definition int_of_double :: "double \<Rightarrow> int" where
  \<comment> \<open>the cast \<open>(int)x\<close>\<close>
  "int_of_double x =
     (let t = trunc_double x in if - (2 ^ 31) \<le> t \<and> t < 2 ^ 31 then t else - (2 ^ 31))"

definition int64_of_double :: "double \<Rightarrow> int" where
  \<comment> \<open>the casts \<open>(int64_t)x\<close> and \<open>static_cast<LONGLONG>(x)\<close>\<close>
  "int64_of_double x =
     (let t = trunc_double x in if - (2 ^ 63) \<le> t \<and> t < 2 ^ 63 then t else - (2 ^ 63))"


section \<open>Shared types (SharedTypes.h)\<close>

definition DARO_MAX_LAYERS :: int where "DARO_MAX_LAYERS = 64"
definition DARO_MAX_PATH :: nat where "DARO_MAX_PATH = 260"
definition DARO_MAX_TEXT :: nat where "DARO_MAX_TEXT = 1024"
definition DARO_MAX_FONTNAME :: nat where "DARO_MAX_FONTNAME = 64"

definition DARO_TYPE_RECTANGLE :: int where "DARO_TYPE_RECTANGLE = 0"
definition DARO_TYPE_CIRCLE :: int where "DARO_TYPE_CIRCLE = 1"
definition DARO_TYPE_TEXT :: int where "DARO_TYPE_TEXT = 2"
definition DARO_TYPE_IMAGE :: int where "DARO_TYPE_IMAGE = 3"
definition DARO_TYPE_VIDEO :: int where "DARO_TYPE_VIDEO = 4"
definition DARO_TYPE_MASK :: int where "DARO_TYPE_MASK = 5"
definition DARO_TYPE_GROUP :: int where "DARO_TYPE_GROUP = 6"

text \<open>
  \<open>struct DaroLayer\<close>, field by field. The C \<open>int\<close> fields are only copied and compared,
  so they are integers; the \<open>float\<close> fields hold finite binary32 values; the three
  fixed-size arrays are lists of code units, bytes and ids.
\<close>

record DaroLayer =
  id :: int
  active :: int
  layerType :: int
  posX :: float
  posY :: float
  sizeX :: float
  sizeY :: float
  rotX :: float
  rotY :: float
  rotZ :: float
  anchorX :: float
  anchorY :: float
  opacity :: float
  colorR :: float
  colorG :: float
  colorB :: float
  colorA :: float
  sourceType :: int
  textureId :: int
  spoutReceiverId :: int
  texX :: float
  texY :: float
  texW :: float
  texH :: float
  texRot :: float
  textureLocked :: int
  textContent :: "16 word list"
  fontFamily :: "16 word list"
  fontSize :: float
  fontBold :: int
  fontItalic :: int
  textAlignment :: int
  lineHeight :: float
  letterSpacing :: float
  textAntialiasMode :: int
  texturePath :: "8 word list"
  maskMode :: int
  maskedLayerCount :: int
  maskedLayerIds :: "int list"

definition zero_layer :: DaroLayer where
  \<comment> \<open>a layer slot after \<open>memset(g_Layers, 0, sizeof(g_Layers))\<close>\<close>
  "zero_layer =
     \<lparr>id = 0, active = 0, layerType = 0, posX = 0, posY = 0, sizeX = 0, sizeY = 0,
      rotX = 0, rotY = 0, rotZ = 0, anchorX = 0, anchorY = 0, opacity = 0,
      colorR = 0, colorG = 0, colorB = 0, colorA = 0,
      sourceType = 0, textureId = 0, spoutReceiverId = 0,
      texX = 0, texY = 0, texW = 0, texH = 0, texRot = 0, textureLocked = 0,
      textContent = replicate DARO_MAX_TEXT 0, fontFamily = replicate DARO_MAX_FONTNAME 0,
      fontSize = 0, fontBold = 0, fontItalic = 0, textAlignment = 0,
      lineHeight = 0, letterSpacing = 0, textAntialiasMode = 0,
      texturePath = replicate DARO_MAX_PATH 0,
      maskMode = 0, maskedLayerCount = 0, maskedLayerIds = replicate (nat DARO_MAX_LAYERS) 0\<rparr>"

section \<open>The layer table (DaroEngine.cpp)\<close>

text \<open>
  The file-scope table \<open>g_Layers[DARO_MAX_LAYERS]\<close> and \<open>g_LayerCount\<close>. A pointer
  argument is an option: \<open>None\<close> is the null pointer. \<open>Daro_GetLayer\<close> takes the caller's
  buffer and returns it as the call leaves it.
\<close>

record layer_table =
  g_Layers :: "DaroLayer list"
  g_LayerCount :: int

definition Daro_ClearLayers :: "layer_table \<Rightarrow> layer_table" where
  "Daro_ClearLayers t = t\<lparr>g_Layers := replicate (nat DARO_MAX_LAYERS) zero_layer, g_LayerCount := 0\<rparr>"

definition Daro_SetLayerCount :: "int \<Rightarrow> layer_table \<Rightarrow> layer_table" where
  "Daro_SetLayerCount count t =
     (let count = (if count < 0 then 0 else count)
      in t\<lparr>g_LayerCount := min count DARO_MAX_LAYERS\<rparr>)"

definition Daro_UpdateLayer :: "int \<Rightarrow> DaroLayer option \<Rightarrow> layer_table \<Rightarrow> layer_table" where
  "Daro_UpdateLayer index layer t =
     (if index < 0 \<or> index \<ge> DARO_MAX_LAYERS \<or> layer = None then t
      else t\<lparr>g_Layers := (g_Layers t)[nat index := the layer]\<rparr>)"

definition Daro_GetLayer :: "int \<Rightarrow> DaroLayer option \<Rightarrow> layer_table \<Rightarrow> DaroLayer option" where
  "Daro_GetLayer index layer t =
     (if index < 0 \<or> index \<ge> DARO_MAX_LAYERS \<or> layer = None then layer
      else Some (g_Layers t ! nat index))"

definition update_all :: "(int \<times> DaroLayer option) list \<Rightarrow> layer_table \<Rightarrow> layer_table" where
  \<comment> \<open>a sequence of \<open>Daro_UpdateLayer\<close> calls, oldest first\<close>
  "update_all calls t = foldl (\<lambda>s (j, l). Daro_UpdateLayer j l s) t calls"

definition last_update :: "int \<Rightarrow> (int \<times> DaroLayer option) list \<Rightarrow> DaroLayer option" where
  \<comment> \<open>the record passed by the most recent call for index \<open>i\<close> that passed one\<close>
  "last_update i calls =
     (case filter (\<lambda>(j, l). j = i \<and> l \<noteq> None) calls of
        [] \<Rightarrow> None
      | c # cs \<Rightarrow> snd (last (c # cs)))"

definition sample_layer :: "int \<Rightarrow> DaroLayer" where
  \<comment> \<open>a concrete active layer with the given id, for the closed instances below\<close>
  "sample_layer n = zero_layer\<lparr>id := n, active := 1\<rparr>"

section \<open>Render dispatch (Renderer.cpp) and the mask lookup (Daro_Render)\<close>

text \<open>
  The renderer's leaf routines draw through Direct3D and Direct2D. The control flow of
  \<open>RenderWithMasks\<close> and \<open>RenderLayer\<close> depends on the layers, the mask lookup and the
  show-bounds flag only, so a frame is the sequence of leaf calls it makes, in order. The
  depth-stencil state is recorded as the state in force after each (cached) change.
\<close>

datatype draw_call =
    Rectangle DaroLayer                   \<comment> \<open>\<open>RenderRectangle(layer)\<close>: a textured quad\<close>
  | Circle DaroLayer                      \<comment> \<open>\<open>RenderCircle(layer)\<close>\<close>
  | Text DaroLayer "DaroLayer option"     \<comment> \<open>\<open>RenderText(layer, mask)\<close>\<close>
  | BoundingBox DaroLayer                 \<comment> \<open>\<open>RenderBoundingBox(layer)\<close>\<close>
  | ClearStencil                          \<comment> \<open>\<open>ClearDepthStencilView(\<dots>, D3D11_CLEAR_STENCIL, 0, 0)\<close>\<close>
  | MaskToStencil DaroLayer               \<comment> \<open>\<open>RenderMaskToStencil(mask)\<close>\<close>
  | StencilTest bool                      \<comment> \<open>test state: \<open>True\<close> inner, \<open>False\<close> outer\<close>
  | StencilOff                            \<comment> \<open>the disabled depth-stencil state\<close>

definition RenderLayer :: "DaroLayer \<Rightarrow> draw_call list" where
  "RenderLayer layer =
     (if active layer = 0 then []
      else if layerType layer = DARO_TYPE_TEXT then [Text layer None]
      else if layerType layer = DARO_TYPE_CIRCLE then [Circle layer]
      else if layerType layer = DARO_TYPE_MASK \<or> layerType layer = DARO_TYPE_GROUP then []
      else [Rectangle layer])"

type_synonym mask_lookup = "int \<Rightarrow> int list"
  \<comment> \<open>\<open>unordered_map<int, vector<int>>\<close>; a missing key and an empty vector are read alike\<close>

definition render_one :: "DaroLayer list \<Rightarrow> int \<Rightarrow> mask_lookup \<Rightarrow> bool \<Rightarrow> DaroLayer \<Rightarrow> draw_call list" where
  \<comment> \<open>one iteration of the loop of \<open>RenderWithMasks\<close>\<close>
  "render_one layers layerCount layerToMasks m_ShowBounds layer =
     (if active layer = 0 then []
      else if layerType layer = DARO_TYPE_MASK then
        Rectangle layer # (if m_ShowBounds then [BoundingBox layer] else [])
      else if layerType layer = DARO_TYPE_GROUP then []
      else
        (case layerToMasks (id layer) of
           maskIndex # _ \<Rightarrow>
             if maskIndex < 0 \<or> maskIndex \<ge> layerCount then []
             else
               (let mask_layer = layers ! nat maskIndex
                in (if layerType layer = DARO_TYPE_TEXT then [Text layer (Some mask_layer)]
                    else [ClearStencil, MaskToStencil mask_layer,
                          StencilTest (maskMode mask_layer = 0)]
                         @ RenderLayer layer @ [StencilOff])
                   @ (if m_ShowBounds then [BoundingBox layer] else []))
         | [] \<Rightarrow> RenderLayer layer @ (if m_ShowBounds then [BoundingBox layer] else [])))"

definition RenderWithMasks :: "DaroLayer list \<Rightarrow> int \<Rightarrow> mask_lookup \<Rightarrow> bool \<Rightarrow> draw_call list" where
  "RenderWithMasks layers layerCount layerToMasks m_ShowBounds =
     StencilOff #
     concat (map (render_one layers layerCount layerToMasks m_ShowBounds)
                 (take (nat layerCount) layers))"

definition mask_targets :: "DaroLayer \<Rightarrow> int list" where
  \<comment> \<open>the entries \<open>maskedLayerIds[0 .. safeCount)\<close>\<close>
  "mask_targets l = take (nat (min (maskedLayerCount l) DARO_MAX_LAYERS)) (maskedLayerIds l)"

fun add_targets :: "mask_lookup \<Rightarrow> int \<Rightarrow> int list \<Rightarrow> mask_lookup" where
  "add_targets m i [] = m"
| "add_targets m i (maskedId # ids) =
     add_targets (if maskedId \<ge> 0 then m(maskedId := m maskedId @ [i]) else m) i ids"

fun scan_masks :: "mask_lookup \<Rightarrow> int \<Rightarrow> DaroLayer list \<Rightarrow> mask_lookup" where
  \<comment> \<open>the scan \<open>for (i = 0; i < localLayerCount; i++)\<close>, from index \<open>i\<close> on\<close>
  "scan_masks m i [] = m"
| "scan_masks m i (l # ls) =
     scan_masks
       (if layerType l = DARO_TYPE_MASK \<and> maskedLayerCount l > 0
        then add_targets m i (mask_targets l) else m)
       (i + 1) ls"

definition Daro_Render :: "layer_table \<Rightarrow> bool \<Rightarrow> draw_call list" where
  \<comment> \<open>the snapshot, the mask lookup and the dispatch of one frame\<close>
  "Daro_Render t m_ShowBounds =
     (let localLayerCount = g_LayerCount t;
          localLayers = take (nat localLayerCount) (g_Layers t);
          layerToMasks = scan_masks (\<lambda>_. []) 0 localLayers
      in RenderWithMasks localLayers localLayerCount layerToMasks m_ShowBounds)"

text \<open>
  The mask lookup as the data model describes it: the masks that list a target id, in scan
  order, and the dispatch of one layer through the first of them.
\<close>

definition lists_target :: "DaroLayer \<Rightarrow> int \<Rightarrow> bool" where
  "lists_target m tid \<longleftrightarrow>
     layerType m = DARO_TYPE_MASK \<and> maskedLayerCount m > 0 \<and> tid \<in> set (mask_targets m)"

definition masks_of :: "DaroLayer list \<Rightarrow> int \<Rightarrow> nat list" where
  "masks_of ls tid = filter (\<lambda>i. lists_target (ls ! i) tid) [0..<length ls]"

definition masked_path :: "DaroLayer \<Rightarrow> DaroLayer \<Rightarrow> draw_call list" where
  "masked_path layer mask_layer =
     (if layerType layer = DARO_TYPE_TEXT then [Text layer (Some mask_layer)]
      else [ClearStencil, MaskToStencil mask_layer, StencilTest (maskMode mask_layer = 0)]
           @ RenderLayer layer @ [StencilOff])"

definition bounds_overlay :: "bool \<Rightarrow> DaroLayer \<Rightarrow> draw_call list" where
  "bounds_overlay m_ShowBounds layer = (if m_ShowBounds then [BoundingBox layer] else [])"

definition dispatch :: "DaroLayer list \<Rightarrow> bool \<Rightarrow> DaroLayer \<Rightarrow> draw_call list" where
  "dispatch ls m_ShowBounds layer =
     (if active layer = 0 \<or> layerType layer = DARO_TYPE_GROUP then []
      else if layerType layer = DARO_TYPE_MASK then Rectangle layer # bounds_overlay m_ShowBounds layer
      else if 0 \<le> id layer \<and> masks_of ls (id layer) \<noteq> []
        then masked_path layer (ls ! hd (masks_of ls (id layer))) @ bounds_overlay m_ShowBounds layer
      else RenderLayer layer @ bounds_overlay m_ShowBounds layer)"

fun drawn :: "draw_call \<Rightarrow> DaroLayer list" where
  \<comment> \<open>the layers a call draws from\<close>
  "drawn (Rectangle l) = [l]"
| "drawn (Circle l) = [l]"
| "drawn (Text l None) = [l]"
| "drawn (Text l (Some m)) = [l, m]"
| "drawn (BoundingBox l) = [l]"
| "drawn (MaskToStencil m) = [m]"
| "drawn ClearStencil = []"
| "drawn (StencilTest _) = []"
| "drawn StencilOff = []"

definition snapshot :: "layer_table \<Rightarrow> DaroLayer list" where
  \<comment> \<open>the layers \<open>Daro_Render\<close> copies: the first \<open>g_LayerCount\<close> slots\<close>
  "snapshot t = take (nat (g_LayerCount t)) (g_Layers t)"

definition sample_typed :: "int \<Rightarrow> int \<Rightarrow> DaroLayer" where
  \<comment> \<open>a concrete active, opaque white layer of the given type and id\<close>
  "sample_typed tp n =
     zero_layer\<lparr>id := n, active := 1, layerType := tp, sizeX := 100, sizeY := 100,
                opacity := 1, colorR := 1, colorG := 1, colorB := 1, colorA := 1\<rparr>"

definition sample_mask :: "int \<Rightarrow> int list \<Rightarrow> DaroLayer" where
  \<comment> \<open>a concrete active mask listing the given target ids\<close>
  "sample_mask n targets =
     (sample_typed DARO_TYPE_MASK n)
       \<lparr>maskedLayerCount := int (length targets),
        maskedLayerIds := targets @ replicate (64 - length targets) 0\<rparr>"

definition sample_table :: "DaroLayer list \<Rightarrow> layer_table" where
  "sample_table ls =
     \<lparr>g_Layers = ls @ replicate (64 - length ls) zero_layer, g_LayerCount = int (length ls)\<rparr>"

section \<open>Circle rendering (Renderer.cpp)\<close>

text \<open>
  \<open>RenderCircle\<close> draws through the Direct2D render target with a cached brush. The
  state below is the part of the renderer the routine reads and writes; the environment
  says whether the brush can be created, what \<open>EndDraw\<close> reports and whether the target
  can be recreated. The routine returns the fill it issued, if any.
\<close>

type_synonym color = "float \<times> float \<times> float \<times> float"
  \<comment> \<open>\<open>D2D1_COLOR_F\<close>: r, g, b, a\<close>

datatype antialias = PER_PRIMITIVE | ALIASED

datatype d2d_draw =
  FillEllipse "float \<times> float" float float color antialias
  \<comment> \<open>centre, radiusX, radiusY, the brush's colour, the antialias mode in force\<close>

datatype end_draw = EndDraw_OK | EndDraw_RECREATE_TARGET | EndDraw_FAILED

record d2d_state =
  m_D2DRenderTarget :: bool
  m_CachedTextBrush :: "color option"
  m_CachedShapeBrush :: "color option"
  m_LastTextColor :: color
  m_LastShapeColor :: color
  target_antialias :: antialias

record d2d_env =
  create_brush_ok :: bool
  end_draw_result :: end_draw
  recreate_ok :: bool

definition RecreateD2DTarget :: "d2d_env \<Rightarrow> d2d_state \<Rightarrow> d2d_state" where
  "RecreateD2DTarget env st =
     (let st1 = st\<lparr>m_CachedTextBrush := None, m_CachedShapeBrush := None,
                   m_D2DRenderTarget := False,
                   m_LastTextColor := (-1, -1, -1, -1), m_LastShapeColor := (-1, -1, -1, -1)\<rparr>
      in if recreate_ok env
         then st1\<lparr>m_D2DRenderTarget := True, target_antialias := PER_PRIMITIVE\<rparr>
         else st1)"

definition RenderCircle :: "DaroLayer \<Rightarrow> d2d_env \<Rightarrow> d2d_state \<Rightarrow> d2d_draw list \<times> d2d_state" where
  "RenderCircle layer env st =
     (if \<not> m_D2DRenderTarget st then ([], st)
      else
        let color = (colorR layer, colorG layer, colorB layer, fmul (colorA layer) (opacity layer))
        in if m_CachedShapeBrush st = None \<and> \<not> create_brush_ok env then ([], st)
           else
             let st1 = (if m_CachedShapeBrush st = None
                        then st\<lparr>m_CachedShapeBrush := Some color, m_LastShapeColor := color\<rparr>
                        else if color \<noteq> m_LastShapeColor st
                        then st\<lparr>m_CachedShapeBrush := Some color, m_LastShapeColor := color\<rparr>
                        else st);
                 radius = fmul (min (sizeX layer) (sizeY layer)) (1 / 2);
                 st2 = st1\<lparr>target_antialias := PER_PRIMITIVE\<rparr>;
                 fill = (case m_CachedShapeBrush st2 of
                           None \<Rightarrow> []
                         | Some brush \<Rightarrow>
                             [FillEllipse (posX layer, posY layer) radius radius brush
                                (target_antialias st2)])
             in (fill, if end_draw_result env = EndDraw_RECREATE_TARGET
                       then RecreateD2DTarget env st2 else st2))"

definition brush_cached :: "d2d_state \<Rightarrow> bool" where
  \<comment> \<open>the cache's invariant: the shape brush, when it exists, has the colour last recorded\<close>
  "brush_cached st \<longleftrightarrow>
     m_CachedShapeBrush st = None \<or> m_CachedShapeBrush st = Some (m_LastShapeColor st)"

definition d2d_initial :: d2d_state where
  \<comment> \<open>the renderer after \<open>InitDirect2D\<close>: a target, no brush yet\<close>
  "d2d_initial =
     \<lparr>m_D2DRenderTarget = True, m_CachedTextBrush = None, m_CachedShapeBrush = None,
      m_LastTextColor = (-1, -1, -1, -1), m_LastShapeColor = (-1, -1, -1, -1),
      target_antialias = PER_PRIMITIVE\<rparr>"

section \<open>Frame statistics (Daro_EndFrame)\<close>

text \<open>
  The timing globals of DaroEngine.cpp. \<open>Daro_EndFrame\<close> reads the performance counter:
  the reading is the argument \<open>now\<close>. The result is \<open>None\<close> when the performance frequency
  is zero, which the system never reports: the elapsed time would not be finite. A target
  rate of zero makes the target interval \<open>1.0 / 0\<close> infinite, so no elapsed time exceeds
  it and no frame is counted as dropped.
\<close>

record frame_stats =
  g_Initialized :: bool
  g_TargetFps :: double
  g_PerfFreq :: int
  g_LastFrameTime :: int
  g_FPS :: double
  g_FrameTime :: double
  g_DroppedFrames :: "32 word"
  g_FrameNumber :: "64 word"

definition frame_elapsed :: "int \<Rightarrow> frame_stats \<Rightarrow> double" where
  "frame_elapsed now st =
     ddiv (double_of_int (now - g_LastFrameTime st)) (double_of_int (g_PerfFreq st))"

definition targetFrameTime :: "frame_stats \<Rightarrow> double" where
  "targetFrameTime st = ddiv 1 (g_TargetFps st)"

definition Daro_EndFrame :: "int \<Rightarrow> frame_stats \<Rightarrow> frame_stats option" where
  "Daro_EndFrame now st =
     (if \<not> g_Initialized st then Some st
      else if g_PerfFreq st = 0 then None
      else
        let elapsed = frame_elapsed now st;
            st1 = st\<lparr>g_FrameTime := dmul elapsed 1000,
                     g_FPS := (if elapsed > fl 53 (1 / 1000000) then ddiv 1 elapsed else 0)\<rparr>;
            st2 = (if g_TargetFps st \<noteq> 0 \<and> elapsed > dmul (targetFrameTime st) (3 / 2)
                   then let droppedCount = wrap32 (int_of_double (ddiv elapsed (targetFrameTime st)) - 1)
                        in if droppedCount > 0
                           then st1\<lparr>g_DroppedFrames := g_DroppedFrames st1 + word_of_int droppedCount\<rparr>
                           else st1
                   else st1)
        in Some (st2\<lparr>g_LastFrameTime := now, g_FrameNumber := g_FrameNumber st2 + 1\<rparr>))"

section \<open>The fallback decoder (FFmpegDecoder.cpp)\<close>

text \<open>
  What the libav libraries do is the environment. A file is the list of packet outcomes
  that \<open>av_read_frame\<close> and the codec produce from a position on, \<open>AVERROR_EOF\<close> after
  the last one, and a table of the positions \<open>av_seek_frame\<close> can reach: a timestamp (in
  \<open>AV_TIME_BASE\<close> units) that the table does not list fails. A picture is identified by
  a number. The members of \<open>FFmpegDecoder\<close> carry the prefix \<open>ff_\<close> here, since
  \<open>VideoPlayer\<close> has members of the same names.
\<close>

type_synonym picture = nat

datatype packet =
    ReadError       \<comment> \<open>\<open>av_read_frame\<close> fails, not at the end of the file\<close>
  | OtherStream     \<comment> \<open>a packet of another stream\<close>
  | SendFailed      \<comment> \<open>\<open>avcodec_send_packet\<close> fails\<close>
  | NeedMore        \<comment> \<open>\<open>avcodec_receive_frame\<close> returns \<open>EAGAIN\<close>\<close>
  | ReceiveError    \<comment> \<open>\<open>avcodec_receive_frame\<close> fails\<close>
  | Picture picture \<comment> \<open>a frame is decoded and converted\<close>

record FFmpegDecoder =
  ff_Width :: int
  ff_Height :: int
  ff_Duration :: double
  ff_FrameRate :: double
  ff_TotalFrames :: int
  ff_HasAlpha :: bool
  ff_EndOfStream :: bool
  ff_Opened :: bool
  ff_OutputBuffer :: "picture option"
  ff_packets :: "packet list"
  ff_seek_table :: "(int \<times> packet list) list"

record ff_probe =
  av_open_input_ok :: bool
  av_stream_info_ok :: bool
  av_video_stream :: bool
  av_width :: int
  av_height :: int
  av_r_frame_rate :: "int \<times> int"
  av_avg_frame_rate :: "int \<times> int"
  av_duration :: int
  av_stream_duration :: int
  av_time_base :: "int \<times> int"
  av_nb_frames :: int
  av_codec_ok :: bool
  av_has_alpha :: bool
  av_buffers_ok :: bool
  av_packets :: "packet list"
  av_seek_table :: "(int \<times> packet list) list"

definition AV_TIME_BASE :: int where "AV_TIME_BASE = 1000000"

definition closed_decoder :: FFmpegDecoder where
  \<comment> \<open>a decoder after its constructor or \<open>Close()\<close>\<close>
  "closed_decoder =
     \<lparr>ff_Width = 0, ff_Height = 0, ff_Duration = 0, ff_FrameRate = 0, ff_TotalFrames = 0,
      ff_HasAlpha = False, ff_EndOfStream = False, ff_Opened = False, ff_OutputBuffer = None,
      ff_packets = [], ff_seek_table = []\<rparr>"

definition ff_rate :: "ff_probe \<Rightarrow> double" where
  "ff_rate f =
     (if fst (av_r_frame_rate f) > 0 \<and> snd (av_r_frame_rate f) > 0
        then ddiv (double_of_int (fst (av_r_frame_rate f))) (double_of_int (snd (av_r_frame_rate f)))
      else if fst (av_avg_frame_rate f) > 0 \<and> snd (av_avg_frame_rate f) > 0
        then ddiv (double_of_int (fst (av_avg_frame_rate f))) (double_of_int (snd (av_avg_frame_rate f)))
      else 25)"

definition ff_duration :: "ff_probe \<Rightarrow> double" where
  "ff_duration f =
     (if av_duration f > 0 then ddiv (double_of_int (av_duration f)) (double_of_int AV_TIME_BASE)
      else if av_stream_duration f > 0 \<and> snd (av_time_base f) > 0
        then ddiv (dmul (double_of_int (av_stream_duration f)) (double_of_int (fst (av_time_base f))))
                  (double_of_int (snd (av_time_base f)))
      else 0)"

definition ff_total_frames :: "ff_probe \<Rightarrow> int" where
  "ff_total_frames f =
     (if av_nb_frames f > 0 then wrap32 (av_nb_frames f)
      else if ff_duration f > 0 \<and> ff_rate f > 0 then int_of_double (dmul (ff_duration f) (ff_rate f))
      else 0)"

definition FFmpeg_Open :: "ff_probe \<Rightarrow> bool \<times> FFmpegDecoder" where
  \<comment> \<open>\<open>av_codec_ok\<close> stands for the three codec-context steps, \<open>av_buffers_ok\<close> for the
      frame, packet, converter and buffer allocations; each failure closes the decoder\<close>
  "FFmpeg_Open f =
     (if \<not> av_open_input_ok f then (False, closed_decoder)
      else if \<not> av_stream_info_ok f then (False, closed_decoder)
      else if \<not> av_video_stream f then (False, closed_decoder)
      else if av_width f \<le> 0 \<or> av_height f \<le> 0 \<or> av_width f > 8192 \<or> av_height f > 8192
        then (False, closed_decoder)
      else if \<not> av_codec_ok f then (False, closed_decoder)
      else if \<not> av_buffers_ok f then (False, closed_decoder)
      else (True,
            \<lparr>ff_Width = av_width f, ff_Height = av_height f, ff_Duration = ff_duration f,
             ff_FrameRate = ff_rate f, ff_TotalFrames = ff_total_frames f,
             ff_HasAlpha = av_has_alpha f, ff_EndOfStream = False, ff_Opened = True,
             ff_OutputBuffer = None, ff_packets = av_packets f,
             ff_seek_table = av_seek_table f\<rparr>))"

fun read_packets :: "FFmpegDecoder \<Rightarrow> packet list \<Rightarrow> bool \<times> FFmpegDecoder" where
  \<comment> \<open>the loop \<open>while (true)\<close> of \<open>DecodeNextFrame\<close>, over the packets still unread\<close>
  "read_packets d [] = (False, d\<lparr>ff_EndOfStream := True, ff_packets := []\<rparr>)"
| "read_packets d (ReadError # ps) = (False, d\<lparr>ff_packets := ps\<rparr>)"
| "read_packets d (OtherStream # ps) = read_packets d ps"
| "read_packets d (SendFailed # ps) = read_packets d ps"
| "read_packets d (NeedMore # ps) = read_packets d ps"
| "read_packets d (ReceiveError # ps) = (False, d\<lparr>ff_packets := ps\<rparr>)"
| "read_packets d (Picture f # ps) = (True, d\<lparr>ff_packets := ps, ff_OutputBuffer := Some f\<rparr>)"

definition FFmpeg_DecodeNextFrame :: "FFmpegDecoder \<Rightarrow> bool \<times> FFmpegDecoder" where
  "FFmpeg_DecodeNextFrame d =
     (if \<not> ff_Opened d \<or> ff_EndOfStream d then (False, d) else read_packets d (ff_packets d))"

definition FFmpeg_SeekToTime :: "double \<Rightarrow> FFmpegDecoder \<Rightarrow> bool \<times> FFmpegDecoder" where
  "FFmpeg_SeekToTime seconds d =
     (if \<not> ff_Opened d then (False, d)
      else case map_of (ff_seek_table d) (int64_of_double (dmul seconds (double_of_int AV_TIME_BASE))) of
             None \<Rightarrow> (False, d)
           | Some ps \<Rightarrow> (True, d\<lparr>ff_packets := ps, ff_EndOfStream := False\<rparr>))"

definition FFmpeg_SeekToFrame :: "int \<Rightarrow> FFmpegDecoder \<Rightarrow> bool \<times> FFmpegDecoder" where
  "FFmpeg_SeekToFrame frame d =
     (if \<not> ff_Opened d then (False, d)
      else FFmpeg_SeekToTime
             (if ff_FrameRate d > 0 then ddiv (double_of_int frame) (ff_FrameRate d) else 0) d)"

section \<open>The video player (VideoPlayer.cpp)\<close>

text \<open>
  The primary backend is the Media Foundation source reader. Its behaviour is the
  environment too: the outcomes \<open>ReadSample\<close> has yet to return, the end-of-stream flag
  after the last one, and a table of the positions (in 100 ns units)
  \<open>SetCurrentPosition\<close> can reach. A device, a context, a texture or a view is present or
  not; the texture's pixels are the last picture copied into it and whether its alpha was
  forced opaque. Mapping the texture and locking a sample's buffer are taken to succeed,
  and a sample to hold a whole frame. Each function that reads the performance counter
  takes the reading as the argument \<open>now\<close>.
\<close>

datatype mf_sample =
    ReadFailed          \<comment> \<open>\<open>ReadSample\<close> fails\<close>
  | NoSample            \<comment> \<open>no error, no end of stream, no sample\<close>
  | Sample int picture  \<comment> \<open>a sample with its timestamp\<close>

record mf_reader =
  mf_samples :: "mf_sample list"
  mf_seek_table :: "(int \<times> mf_sample list) list"

record VideoPlayer =
  m_Device :: bool
  m_Context :: bool
  m_Reader :: "mf_reader option"
  m_Texture :: bool
  m_SRV :: bool
  texture_pixels :: "(picture \<times> bool) option"
  m_FilePath :: string
  m_Width :: int
  m_Height :: int
  m_Duration :: double
  m_FrameRate :: double
  m_TotalFrames :: int
  m_CurrentFrame :: int
  m_CurrentTime :: double
  m_Loaded :: bool
  m_Playing :: bool
  m_Loop :: bool
  m_EndOfStream :: bool
  m_FrameCopied :: bool
  m_NeedsAlphaFix :: bool
  m_VideoAlpha :: bool
  m_UsingFFmpeg :: bool
  m_FFmpegDecoder :: "FFmpegDecoder option"
  m_LastFrameTime :: int
  m_Frequency :: int
  m_FrameDuration :: double
  m_AccumulatedTime :: double

definition new_player :: "int \<Rightarrow> int \<Rightarrow> VideoPlayer" where
  \<comment> \<open>the constructor: the member initialisers, the frequency and a first counter reading\<close>
  "new_player frequency now =
     \<lparr>m_Device = False, m_Context = False, m_Reader = None, m_Texture = False, m_SRV = False,
      texture_pixels = None, m_FilePath = [], m_Width = 0, m_Height = 0, m_Duration = 0,
      m_FrameRate = 0, m_TotalFrames = 0, m_CurrentFrame = 0, m_CurrentTime = 0,
      m_Loaded = False, m_Playing = False, m_Loop = False, m_EndOfStream = False,
      m_FrameCopied = False, m_NeedsAlphaFix = False, m_VideoAlpha = False,
      m_UsingFFmpeg = False, m_FFmpegDecoder = None, m_LastFrameTime = now,
      m_Frequency = frequency, m_FrameDuration = 0, m_AccumulatedTime = 0\<rparr>"

definition VideoPlayer_Initialize :: "bool \<Rightarrow> bool \<Rightarrow> VideoPlayer \<Rightarrow> bool \<times> VideoPlayer" where
  "VideoPlayer_Initialize device context p =
     (if \<not> device \<or> \<not> context then (False, p)
      else (True, p\<lparr>m_Device := True, m_Context := True\<rparr>))"

definition UnloadVideoInternal :: "VideoPlayer \<Rightarrow> VideoPlayer" where
  "UnloadVideoInternal p =
     p\<lparr>m_Playing := False, m_Loaded := False, m_EndOfStream := False, m_FrameCopied := False,
       m_NeedsAlphaFix := False, m_UsingFFmpeg := False, m_CurrentFrame := 0, m_CurrentTime := 0,
       m_FFmpegDecoder := None, m_SRV := False, m_Texture := False, texture_pixels := None,
       m_Reader := None, m_Width := 0, m_Height := 0, m_Duration := 0, m_TotalFrames := 0\<rparr>"

definition CreateTexture :: "bool \<Rightarrow> bool \<Rightarrow> VideoPlayer \<Rightarrow> bool \<times> VideoPlayer" where
  \<comment> \<open>\<open>texture_ok\<close>, \<open>view_ok\<close>: whether the device creates the texture and its view\<close>
  "CreateTexture texture_ok view_ok p =
     (if \<not> m_Device p \<or> m_Width p \<le> 0 \<or> m_Height p \<le> 0 then (False, p)
      else if \<not> texture_ok then (False, p\<lparr>m_Texture := False\<rparr>)
      else (view_ok, p\<lparr>m_Texture := True, texture_pixels := None, m_SRV := view_ok\<rparr>))"

definition copy_to_texture :: "picture \<Rightarrow> VideoPlayer \<Rightarrow> VideoPlayer" where
  \<comment> \<open>the row copy shared by \<open>CopyFrameToTexture\<close> and \<open>CopyBufferToTexture\<close>\<close>
  "copy_to_texture pic p =
     (if \<not> m_Texture p \<or> \<not> m_Context p then p
      else p\<lparr>texture_pixels := Some (pic, m_NeedsAlphaFix p \<or> \<not> m_VideoAlpha p),
             m_FrameCopied := True\<rparr>)"

definition DecodeNextFrame :: "VideoPlayer \<Rightarrow> bool \<times> VideoPlayer" where
  "DecodeNextFrame p =
     (case m_Reader p of
        None \<Rightarrow> (False, p)
      | Some r \<Rightarrow>
          (case mf_samples r of
             [] \<Rightarrow> (False, p\<lparr>m_EndOfStream := True\<rparr>)
           | ReadFailed # rest \<Rightarrow> (False, p\<lparr>m_Reader := Some (r\<lparr>mf_samples := rest\<rparr>)\<rparr>)
           | NoSample # rest \<Rightarrow> (False, p\<lparr>m_Reader := Some (r\<lparr>mf_samples := rest\<rparr>)\<rparr>)
           | Sample timestamp pic # rest \<Rightarrow>
               (let p1 = copy_to_texture pic (p\<lparr>m_Reader := Some (r\<lparr>mf_samples := rest\<rparr>)\<rparr>);
                    t = ddiv (double_of_int timestamp) 10000000
                in (True, p1\<lparr>m_CurrentTime := t,
                              m_CurrentFrame := int_of_double (dmul t (m_FrameRate p1))\<rparr>))))"

definition decode_and_copy :: "VideoPlayer \<Rightarrow> bool \<times> VideoPlayer" where
  \<comment> \<open>\<open>if (m_FFmpegDecoder->DecodeNextFrame()) CopyBufferToTexture(\<dots>)\<close>, decoder present\<close>
  "decode_and_copy p =
     (case m_FFmpegDecoder p of
        None \<Rightarrow> (False, p)
      | Some d \<Rightarrow>
          (case FFmpeg_DecodeNextFrame d of
             (ok, d') \<Rightarrow>
               (let p1 = p\<lparr>m_FFmpegDecoder := Some d'\<rparr>
                in (ok, if ok then (case ff_OutputBuffer d' of
                                      None \<Rightarrow> p1 | Some pic \<Rightarrow> copy_to_texture pic p1)
                        else p1))))"

definition clamp_frame :: "int \<Rightarrow> VideoPlayer \<Rightarrow> int" where
  \<comment> \<open>\<open>(std::max)(0, (std::min)(frame, m_TotalFrames > 0 ? m_TotalFrames - 1 : 0))\<close>\<close>
  "clamp_frame frame p = max 0 (min frame (if m_TotalFrames p > 0 then m_TotalFrames p - 1 else 0))"

definition frame_time :: "int \<Rightarrow> VideoPlayer \<Rightarrow> double" where
  \<comment> \<open>\<open>(m_FrameRate > 0) ? frame / m_FrameRate : 0.0\<close>\<close>
  "frame_time frame p = (if m_FrameRate p > 0 then ddiv (double_of_int frame) (m_FrameRate p) else 0)"

definition SeekToFrameInternal :: "int \<Rightarrow> VideoPlayer \<Rightarrow> VideoPlayer" where
  "SeekToFrameInternal frame p =
     (if \<not> m_Loaded p then p
      else
        let frame = clamp_frame frame p;
            targetTime = frame_time frame p
        in if m_UsingFFmpeg p then
             (let p1 = (case m_FFmpegDecoder p of
                          None \<Rightarrow> p
                        | Some d \<Rightarrow>
                            snd (decode_and_copy
                                   (p\<lparr>m_FFmpegDecoder := Some (snd (FFmpeg_SeekToFrame frame d))\<rparr>)))
              in p1\<lparr>m_CurrentFrame := frame, m_CurrentTime := targetTime, m_EndOfStream := False\<rparr>)
           else
             (case m_Reader p of
                None \<Rightarrow> p
              | Some r \<Rightarrow>
                  (case map_of (mf_seek_table r) (int64_of_double (dmul targetTime 10000000)) of
                     None \<Rightarrow> p
                   | Some rest \<Rightarrow>
                       snd (DecodeNextFrame
                              (p\<lparr>m_Reader := Some (r\<lparr>mf_samples := rest\<rparr>),
                                 m_CurrentFrame := frame, m_CurrentTime := targetTime,
                                 m_EndOfStream := False\<rparr>)))))"

definition SeekToFrame :: "int \<Rightarrow> VideoPlayer \<Rightarrow> VideoPlayer" where
  "SeekToFrame frame p = (if \<not> m_Loaded p then p else SeekToFrameInternal frame p)"

definition SeekToTime :: "double \<Rightarrow> VideoPlayer \<Rightarrow> VideoPlayer" where
  "SeekToTime seconds p =
     (if m_FrameRate p > 0 then SeekToFrame (int_of_double (dmul seconds (m_FrameRate p))) p else p)"

definition Play :: "int \<Rightarrow> VideoPlayer \<Rightarrow> VideoPlayer" where
  "Play now p =
     (if \<not> m_Loaded p then p
      else p\<lparr>m_Playing := True, m_AccumulatedTime := 0, m_LastFrameTime := now\<rparr>)"

definition Pause :: "VideoPlayer \<Rightarrow> VideoPlayer" where
  "Pause p = p\<lparr>m_Playing := False\<rparr>"

definition Stop :: "VideoPlayer \<Rightarrow> VideoPlayer" where
  "Stop p =
     (let p0 = p\<lparr>m_Playing := False\<rparr>
      in if \<not> m_Loaded p0 then p0
         else if m_UsingFFmpeg p0 then
           (let p1 = (case m_FFmpegDecoder p0 of
                        None \<Rightarrow> p0
                      | Some d \<Rightarrow>
                          snd (decode_and_copy
                                 (p0\<lparr>m_FFmpegDecoder := Some (snd (FFmpeg_SeekToTime 0 d))\<rparr>)))
            in p1\<lparr>m_CurrentFrame := 0, m_CurrentTime := 0, m_EndOfStream := False\<rparr>)
         else
           (case m_Reader p0 of
              None \<Rightarrow> p0
            | Some r \<Rightarrow>
                (case map_of (mf_seek_table r) 0 of
                   None \<Rightarrow> p0
                 | Some rest \<Rightarrow>
                     snd (DecodeNextFrame
                            (p0\<lparr>m_Reader := Some (r\<lparr>mf_samples := rest\<rparr>),
                                m_CurrentFrame := 0, m_CurrentTime := 0,
                                m_EndOfStream := False\<rparr>)))))"

definition SetLoop :: "bool \<Rightarrow> VideoPlayer \<Rightarrow> VideoPlayer" where
  "SetLoop loop p = p\<lparr>m_Loop := loop\<rparr>"

definition SetVideoAlpha :: "bool \<Rightarrow> VideoPlayer \<Rightarrow> VideoPlayer" where
  "SetVideoAlpha alpha p = p\<lparr>m_VideoAlpha := alpha\<rparr>"

text \<open>
  \<open>UpdateFrame\<close>. The two \<open>while\<close> loops run until the clock drops below one frame
  duration or the stream ends; a loop that does not end has no result, which is \<open>None\<close>.
  So is a performance frequency of zero, which the system never reports: the elapsed time
  would not be finite. Inside the fallback loop the decoder is dereferenced; it is present
  there, since the loop is entered only when it is and nothing in the loop removes it.
\<close>

definition on_end_of_stream :: "VideoPlayer \<Rightarrow> VideoPlayer" where
  \<comment> \<open>\<open>if (m_Loop) { SeekToFrameInternal(0); m_Playing = true; m_EndOfStream = false; }
      else { m_Playing = false; }\<close>\<close>
  "on_end_of_stream p =
     (if m_Loop p then (SeekToFrameInternal 0 p)\<lparr>m_Playing := True, m_EndOfStream := False\<rparr>
      else p\<lparr>m_Playing := False\<rparr>)"

definition frame_decoded :: "VideoPlayer \<Rightarrow> VideoPlayer" where
  \<comment> \<open>\<open>m_CurrentFrame++; m_CurrentTime = (m_FrameRate > 0) ? m_CurrentFrame / m_FrameRate : 0.0;\<close>\<close>
  "frame_decoded p =
     (let frame = wrap32 (m_CurrentFrame p + 1)
      in p\<lparr>m_CurrentFrame := frame,
            m_CurrentTime := (if m_FrameRate p > 0
                              then ddiv (double_of_int frame) (m_FrameRate p) else 0)\<rparr>)"

partial_function (option) ffmpeg_loop :: "VideoPlayer \<Rightarrow> bool \<Rightarrow> (bool \<times> VideoPlayer) option" where
  "ffmpeg_loop p decoded =
     (if m_AccumulatedTime p \<ge> m_FrameDuration p \<and> \<not> m_EndOfStream p then
        (case m_FFmpegDecoder p of
           None \<Rightarrow> None
         | Some d \<Rightarrow>
             (case decode_and_copy
                     (p\<lparr>m_AccumulatedTime := dsub (m_AccumulatedTime p) (m_FrameDuration p)\<rparr>) of
                (ok, p1) \<Rightarrow>
                  if ok then ffmpeg_loop (frame_decoded p1) True
                  else if (case m_FFmpegDecoder p1 of None \<Rightarrow> False | Some d' \<Rightarrow> ff_EndOfStream d')
                    then Some (decoded, on_end_of_stream (p1\<lparr>m_EndOfStream := True\<rparr>))
                  else ffmpeg_loop p1 decoded))
      else Some (decoded, p))"

partial_function (option) mf_loop :: "VideoPlayer \<Rightarrow> bool \<Rightarrow> (bool \<times> VideoPlayer) option" where
  "mf_loop p decoded =
     (if m_AccumulatedTime p \<ge> m_FrameDuration p \<and> \<not> m_EndOfStream p then
        (case DecodeNextFrame
                (p\<lparr>m_AccumulatedTime := dsub (m_AccumulatedTime p) (m_FrameDuration p)\<rparr>) of
           (ok, p1) \<Rightarrow>
             if m_EndOfStream p1 then Some (ok, on_end_of_stream p1)
             else mf_loop p1 ok)
      else Some (decoded, p))"

declare ffmpeg_loop.simps [code]
declare mf_loop.simps [code]

definition player_elapsed :: "int \<Rightarrow> VideoPlayer \<Rightarrow> double" where
  "player_elapsed now p =
     ddiv (double_of_int (now - m_LastFrameTime p)) (double_of_int (m_Frequency p))"

definition UpdateFrame :: "int \<Rightarrow> VideoPlayer \<Rightarrow> (bool \<times> VideoPlayer) option" where
  "UpdateFrame now p =
     (if \<not> m_Loaded p \<or> \<not> m_Playing p then Some (False, p)
      else if m_Frequency p = 0 then None
      else
        let p1 = p\<lparr>m_LastFrameTime := now,
                   m_AccumulatedTime := dadd (m_AccumulatedTime p) (player_elapsed now p)\<rparr>
        in if m_AccumulatedTime p1 < m_FrameDuration p1 then Some (False, p1)
           else if m_UsingFFmpeg p1 \<and> m_FFmpegDecoder p1 \<noteq> None then ffmpeg_loop p1 False
           else mf_loop p1 False)"

text \<open>
  The clock after \<open>n\<close> passes through either loop: \<open>n\<close> times
  \<open>m_AccumulatedTime -= m_FrameDuration\<close>, each a rounded subtraction. The frame number
  that \<open>DecodeNextFrame\<close> gives a sample with timestamp \<open>t\<close> is \<open>sample_frame\<close>.
\<close>

fun clock_after :: "nat \<Rightarrow> double \<Rightarrow> double \<Rightarrow> double" where
  "clock_after 0 a fd = a"
| "clock_after (Suc n) a fd = clock_after n (dsub a fd) fd"

definition clock_start :: "int \<Rightarrow> VideoPlayer \<Rightarrow> double" where
  \<comment> \<open>the clock after \<open>m_AccumulatedTime += elapsed\<close>\<close>
  "clock_start now p = dadd (m_AccumulatedTime p) (player_elapsed now p)"

definition sample_frame :: "double \<Rightarrow> int \<Rightarrow> int" where
  \<comment> \<open>\<open>static_cast<int>((static_cast<double>(timestamp) / 10000000.0) * m_FrameRate)\<close>\<close>
  "sample_frame rate timestamp =
     int_of_double (dmul (ddiv (double_of_int timestamp) 10000000) rate)"

text \<open>
  Loading. The environment of one load: the file system's answers, what Media Foundation
  reports for the file, whether the fallback decoder is compiled in and what it reports,
  and whether the device creates the texture and its view for each backend.
\<close>

record mf_probe =
  mf_attributes_ok :: bool
  mf_source_reader_ok :: bool
  mf_media_type_ok :: bool
  mf_argb32_ok :: bool
  mf_media_type2_ok :: bool
  mf_rgb32_ok :: bool
  mf_current_type_ok :: bool
  mf_frame_size :: "(nat \<times> nat) option"
  mf_frame_rate :: "(nat \<times> nat) option"
  mf_duration :: "nat option"
  mf_stream :: "mf_sample list"
  mf_seeks :: "(int \<times> mf_sample list) list"

record load_env =
  wide_path_ok :: bool
  file_found :: bool
  file_size :: nat
  mf :: mf_probe
  mf_texture_ok :: bool
  mf_view_ok :: bool
  ffmpeg_available :: bool
  ffmpeg :: ff_probe
  ff_texture_ok :: bool
  ff_view_ok :: bool

definition MAX_VIDEO_FILE_SIZE :: nat where "MAX_VIDEO_FILE_SIZE = 4 * 1024 * 1024 * 1024"
definition MAX_VIDEO_DIMENSION :: nat where "MAX_VIDEO_DIMENSION = 8192"
definition INT_MAX :: int where "INT_MAX = 2147483647"

fun has_dotdot :: "string \<Rightarrow> bool" where
  \<comment> \<open>\<open>strstr(filePath, "..") != nullptr\<close>\<close>
  "has_dotdot (a # b # cs) = ((a = CHR ''.'' \<and> b = CHR ''.'') \<or> has_dotdot (b # cs))"
| "has_dotdot _ = False"

definition mf_rate :: "mf_probe \<Rightarrow> double" where
  "mf_rate m =
     (case mf_frame_rate m of
        Some (numerator, denominator) \<Rightarrow>
          if denominator > 0 \<and> numerator > 0
          then ddiv (double_of_int (int numerator)) (double_of_int (int denominator)) else 25
      | None \<Rightarrow> 25)"

definition mf_frame_duration :: "mf_probe \<Rightarrow> double" where
  "mf_frame_duration m =
     (case mf_frame_rate m of
        Some (numerator, denominator) \<Rightarrow>
          if denominator > 0 \<and> numerator > 0 then ddiv 1 (mf_rate m) else fl 53 (1 / 25)
      | None \<Rightarrow> fl 53 (1 / 25))"

definition LoadVideoMF :: "mf_probe \<Rightarrow> bool \<Rightarrow> bool \<Rightarrow> int \<Rightarrow> VideoPlayer \<Rightarrow> bool \<times> VideoPlayer" where
  "LoadVideoMF m texture_ok view_ok now p =
     (if \<not> mf_attributes_ok m then (False, p)
      else if \<not> mf_source_reader_ok m then (False, p\<lparr>m_Reader := None\<rparr>)
      else if \<not> mf_media_type_ok m then (False, p\<lparr>m_Reader := None\<rparr>)
      else if \<not> mf_argb32_ok m \<and> \<not> mf_media_type2_ok m then (False, p\<lparr>m_Reader := None\<rparr>)
      else if \<not> mf_argb32_ok m \<and> \<not> mf_rgb32_ok m then (False, p\<lparr>m_Reader := None\<rparr>)
      else
        let p1 = p\<lparr>m_Reader := Some \<lparr>mf_samples = mf_stream m, mf_seek_table = mf_seeks m\<rparr>,
                   m_NeedsAlphaFix := \<not> mf_argb32_ok m\<rparr>
        in if \<not> mf_current_type_ok m then (False, p1\<lparr>m_Reader := None\<rparr>)
           else
             (case mf_frame_size m of
                None \<Rightarrow> (False, p1\<lparr>m_Reader := None\<rparr>)
              | Some (width, height) \<Rightarrow>
                  if width > MAX_VIDEO_DIMENSION \<or> height > MAX_VIDEO_DIMENSION
                     \<or> width = 0 \<or> height = 0
                  then (False, p1\<lparr>m_Reader := None\<rparr>)
                  else
                    let p2 = p1\<lparr>m_Width := int width, m_Height := int height,
                               m_FrameRate := mf_rate m, m_FrameDuration := mf_frame_duration m\<rparr>;
                        p3 = (case mf_duration m of
                                None \<Rightarrow> p2
                              | Some d \<Rightarrow>
                                  (let duration = ddiv (double_of_int (int d)) 10000000;
                                       totalFramesD = dmul duration (m_FrameRate p2)
                                   in p2\<lparr>m_Duration := duration,
                                         m_TotalFrames := (if totalFramesD > of_int INT_MAX then INT_MAX
                                                           else int_of_double totalFramesD)\<rparr>))
                    in (case CreateTexture texture_ok view_ok p3 of
                          (False, p4) \<Rightarrow> (False, p4\<lparr>m_Reader := None, m_Width := 0, m_Height := 0\<rparr>)
                        | (True, p4) \<Rightarrow>
                            (let p5 = p4\<lparr>m_Loaded := True, m_UsingFFmpeg := False,
                                        m_CurrentFrame := 0, m_CurrentTime := 0,
                                        m_EndOfStream := False, m_AccumulatedTime := 0,
                                        m_LastFrameTime := now\<rparr>;
                                 p6 = snd (DecodeNextFrame p5)
                             in (True, p6\<lparr>m_Playing := True, m_Loop := True\<rparr>)))))"

definition LoadVideoFFmpeg :: "bool \<Rightarrow> ff_probe \<Rightarrow> bool \<Rightarrow> bool \<Rightarrow> int \<Rightarrow> VideoPlayer \<Rightarrow> bool \<times> VideoPlayer" where
  "LoadVideoFFmpeg available f texture_ok view_ok now p =
     (if \<not> available then (False, p)
      else
        (case FFmpeg_Open f of
           (False, d) \<Rightarrow> (False, p\<lparr>m_FFmpegDecoder := None\<rparr>)
         | (True, d) \<Rightarrow>
             (let p1 = p\<lparr>m_FFmpegDecoder := Some d,
                         m_Width := ff_Width d, m_Height := ff_Height d,
                         m_Duration := ff_Duration d, m_FrameRate := ff_FrameRate d,
                         m_TotalFrames := ff_TotalFrames d,
                         m_FrameDuration := (if ff_FrameRate d > 0 then ddiv 1 (ff_FrameRate d)
                                             else fl 53 (1 / 25))\<rparr>
              in (case CreateTexture texture_ok view_ok p1 of
                    (False, p2) \<Rightarrow>
                      (False, p2\<lparr>m_FFmpegDecoder := None, m_Width := 0, m_Height := 0\<rparr>)
                  | (True, p2) \<Rightarrow>
                      (let p3 = p2\<lparr>m_Loaded := True, m_UsingFFmpeg := True,
                                  m_NeedsAlphaFix := \<not> ff_HasAlpha d,
                                  m_CurrentFrame := 0, m_CurrentTime := 0,
                                  m_EndOfStream := False, m_AccumulatedTime := 0,
                                  m_LastFrameTime := now\<rparr>;
                           p4 = snd (decode_and_copy p3)
                       in (True, p4\<lparr>m_Playing := True, m_Loop := True\<rparr>))))))"

definition load_prepared :: "string \<Rightarrow> VideoPlayer \<Rightarrow> VideoPlayer" where
  \<comment> \<open>\<open>UnloadVideoInternal(); m_FilePath = filePath;\<close>\<close>
  "load_prepared path p = (UnloadVideoInternal p)\<lparr>m_FilePath := path\<rparr>"


definition LoadVideo :: "string option \<Rightarrow> load_env \<Rightarrow> int \<Rightarrow> VideoPlayer \<Rightarrow> bool \<times> VideoPlayer" where
  "LoadVideo filePath env now p =
     (case filePath of
        None \<Rightarrow> (False, p)
      | Some path \<Rightarrow>
          if \<not> m_Device p then (False, p)
          else if has_dotdot path then (False, p)
          else
            let p1 = load_prepared path p
            in if \<not> wide_path_ok env then (False, p1)
               else if \<not> file_found env then (False, p1)
               else if file_size env > MAX_VIDEO_FILE_SIZE then (False, p1)
               else
                 (case LoadVideoMF (mf env) (mf_texture_ok env) (mf_view_ok env) now p1 of
                    (True, p2) \<Rightarrow> (True, p2)
                  | (False, p2) \<Rightarrow>
                      LoadVideoFFmpeg (ffmpeg_available env) (ffmpeg env)
                        (ff_texture_ok env) (ff_view_ok env) now p2))"

section \<open>The video manager (VideoPlayer.cpp) and the per-video controls (Renderer.cpp)\<close>

text \<open>
  \<open>m_Players\<close> is a \<open>std::map\<close> from id to player: an association list with one entry per
  key, updated and erased by key; its size is its length. Ids are 32-bit signed integers,
  and \<open>m_NextVideoId++\<close> wraps around. The manager's device and context are
  \<open>mgr_Device\<close> and \<open>mgr_Context\<close> here. A control call reaches its player through
  \<open>GetPlayer\<close> and changes it in place.
\<close>

type_synonym video_id = "32 word"

record VideoManager =
  mgr_Device :: bool
  mgr_Context :: bool
  m_Players :: "(video_id \<times> VideoPlayer) list"
  m_NextVideoId :: video_id
  m_Initialized :: bool

definition MAX_LOADED_VIDEOS :: nat where "MAX_LOADED_VIDEOS = 32"

definition new_manager :: VideoManager where
  "new_manager =
     \<lparr>mgr_Device = False, mgr_Context = False, m_Players = [], m_NextVideoId = 1,
      m_Initialized = False\<rparr>"

definition VideoManager_Initialize :: "bool \<Rightarrow> bool \<Rightarrow> bool \<Rightarrow> VideoManager \<Rightarrow> bool \<times> VideoManager" where
  \<comment> \<open>\<open>startup_ok\<close>: whether \<open>MFStartup\<close> succeeds\<close>
  "VideoManager_Initialize device context startup_ok m =
     (if m_Initialized m then (True, m)
      else if \<not> device \<or> \<not> context then (False, m)
      else if \<not> startup_ok then (False, m\<lparr>mgr_Device := False, mgr_Context := False\<rparr>)
      else (True, m\<lparr>mgr_Device := True, mgr_Context := True, m_Initialized := True\<rparr>))"

definition VideoManager_Shutdown :: "VideoManager \<Rightarrow> VideoManager" where
  "VideoManager_Shutdown m =
     m\<lparr>m_Players := [], m_Initialized := False, mgr_Device := False, mgr_Context := False\<rparr>"

definition VideoManager_LoadVideo :: "string option \<Rightarrow> load_env \<Rightarrow> int \<Rightarrow> int \<Rightarrow> VideoManager \<Rightarrow> video_id \<times> VideoManager" where
  "VideoManager_LoadVideo filePath env frequency now m =
     (if \<not> m_Initialized m \<or> filePath = None then (0, m)
      else if length (m_Players m) \<ge> MAX_LOADED_VIDEOS then (0, m)
      else
        (case VideoPlayer_Initialize (mgr_Device m) (mgr_Context m) (new_player frequency now) of
           (False, player) \<Rightarrow> (0, m)
         | (True, player) \<Rightarrow>
             (case LoadVideo filePath env now player of
                (False, player') \<Rightarrow> (0, m)
              | (True, player') \<Rightarrow>
                  (let id0 = m_NextVideoId m;
                       m1 = m\<lparr>m_NextVideoId := id0 + 1\<rparr>;
                       (id1, m2) = (if sint id0 \<le> 0 then (1, m1\<lparr>m_NextVideoId := 1\<rparr>) else (id0, m1))
                   in (id1, m2\<lparr>m_Players := AList.update id1 player' (m_Players m2)\<rparr>)))))"

definition VideoManager_UnloadVideo :: "video_id \<Rightarrow> VideoManager \<Rightarrow> VideoManager" where
  "VideoManager_UnloadVideo videoId m = m\<lparr>m_Players := AList.delete videoId (m_Players m)\<rparr>"

definition GetPlayer :: "VideoManager \<Rightarrow> video_id \<Rightarrow> VideoPlayer option" where
  "GetPlayer m videoId = map_of (m_Players m) videoId"

definition with_player :: "video_id \<Rightarrow> (VideoPlayer \<Rightarrow> VideoPlayer) \<Rightarrow> VideoManager \<Rightarrow> VideoManager" where
  \<comment> \<open>\<open>if (auto* player = VideoManager::Instance().GetPlayer(videoId)) player->f(\<dots>);\<close>\<close>
  "with_player videoId f m =
     (case GetPlayer m videoId of
        None \<Rightarrow> m
      | Some player \<Rightarrow> m\<lparr>m_Players := AList.update videoId (f player) (m_Players m)\<rparr>)"

definition PlayVideo :: "video_id \<Rightarrow> int \<Rightarrow> VideoManager \<Rightarrow> VideoManager" where
  "PlayVideo videoId now m = with_player videoId (Play now) m"

definition PauseVideo :: "video_id \<Rightarrow> VideoManager \<Rightarrow> VideoManager" where
  "PauseVideo videoId m = with_player videoId Pause m"

definition StopVideo :: "video_id \<Rightarrow> VideoManager \<Rightarrow> VideoManager" where
  "StopVideo videoId m = with_player videoId Stop m"

definition SeekVideo :: "video_id \<Rightarrow> int \<Rightarrow> VideoManager \<Rightarrow> VideoManager" where
  "SeekVideo videoId frame m = with_player videoId (SeekToFrame frame) m"

definition SeekVideoTime :: "video_id \<Rightarrow> double \<Rightarrow> VideoManager \<Rightarrow> VideoManager" where
  "SeekVideoTime videoId seconds m = with_player videoId (SeekToTime seconds) m"

definition SetVideoLoop :: "video_id \<Rightarrow> bool \<Rightarrow> VideoManager \<Rightarrow> VideoManager" where
  "SetVideoLoop videoId loop m = with_player videoId (SetLoop loop) m"

definition Renderer_SetVideoAlpha :: "video_id \<Rightarrow> bool \<Rightarrow> VideoManager \<Rightarrow> VideoManager" where
  \<comment> \<open>\<open>DaroRenderer::SetVideoAlpha\<close>\<close>
  "Renderer_SetVideoAlpha videoId alpha m = with_player videoId (SetVideoAlpha alpha) m"

definition IsVideoPlaying :: "video_id \<Rightarrow> VideoManager \<Rightarrow> bool" where
  "IsVideoPlaying videoId m = (case GetPlayer m videoId of None \<Rightarrow> False | Some p \<Rightarrow> m_Playing p)"

definition GetVideoFrame :: "video_id \<Rightarrow> VideoManager \<Rightarrow> int" where
  "GetVideoFrame videoId m = (case GetPlayer m videoId of None \<Rightarrow> 0 | Some p \<Rightarrow> m_CurrentFrame p)"

definition GetVideoTotalFrames :: "video_id \<Rightarrow> VideoManager \<Rightarrow> int" where
  "GetVideoTotalFrames videoId m = (case GetPlayer m videoId of None \<Rightarrow> 0 | Some p \<Rightarrow> m_TotalFrames p)"

fun update_players :: "int \<Rightarrow> (video_id \<times> VideoPlayer) list \<Rightarrow> (video_id \<times> VideoPlayer) list option" where
  \<comment> \<open>the loop of \<open>UpdateAll\<close>; it has a result when every player's update returns\<close>
  "update_players now [] = Some []"
| "update_players now ((k, p) # ps) =
     (case UpdateFrame now p of
        None \<Rightarrow> None
      | Some (_, p') \<Rightarrow>
          (case update_players now ps of
             None \<Rightarrow> None
           | Some ps' \<Rightarrow> Some ((k, p') # ps')))"

definition UpdateAll :: "int \<Rightarrow> VideoManager \<Rightarrow> VideoManager option" where
  "UpdateAll now m =
     (case update_players now (m_Players m) of
        None \<Rightarrow> None
      | Some ps \<Rightarrow> Some (m\<lparr>m_Players := ps\<rparr>))"

text \<open>
  A history of the manager: the calls made on it, oldest first. Running a history from a
  manager gives the manager it leaves and the values its \<open>LoadVideo\<close> calls returned.
\<close>

datatype manager_call =
    Call_Initialize bool bool bool
  | Call_Shutdown
  | Call_LoadVideo "string option" load_env int int
  | Call_UnloadVideo video_id
  | Call_UpdateAll int
  | Call_PlayVideo video_id int
  | Call_PauseVideo video_id
  | Call_StopVideo video_id
  | Call_SeekVideo video_id int
  | Call_SeekVideoTime video_id double
  | Call_SetVideoLoop video_id bool
  | Call_SetVideoAlpha video_id bool

fun manager_step :: "manager_call \<Rightarrow> VideoManager \<times> video_id list \<Rightarrow> (VideoManager \<times> video_id list) option" where
  "manager_step (Call_Initialize device context startup_ok) (m, ids) =
     Some (snd (VideoManager_Initialize device context startup_ok m), ids)"
| "manager_step Call_Shutdown (m, ids) = Some (VideoManager_Shutdown m, ids)"
| "manager_step (Call_LoadVideo filePath env frequency now) (m, ids) =
     (case VideoManager_LoadVideo filePath env frequency now m of
        (i, m') \<Rightarrow> Some (m', ids @ [i]))"
| "manager_step (Call_UnloadVideo videoId) (m, ids) = Some (VideoManager_UnloadVideo videoId m, ids)"
| "manager_step (Call_UpdateAll now) (m, ids) =
     (case UpdateAll now m of None \<Rightarrow> None | Some m' \<Rightarrow> Some (m', ids))"
| "manager_step (Call_PlayVideo videoId now) (m, ids) = Some (PlayVideo videoId now m, ids)"
| "manager_step (Call_PauseVideo videoId) (m, ids) = Some (PauseVideo videoId m, ids)"
| "manager_step (Call_StopVideo videoId) (m, ids) = Some (StopVideo videoId m, ids)"
| "manager_step (Call_SeekVideo videoId frame) (m, ids) = Some (SeekVideo videoId frame m, ids)"
| "manager_step (Call_SeekVideoTime videoId seconds) (m, ids) =
     Some (SeekVideoTime videoId seconds m, ids)"
| "manager_step (Call_SetVideoLoop videoId loop) (m, ids) = Some (SetVideoLoop videoId loop m, ids)"
| "manager_step (Call_SetVideoAlpha videoId alpha) (m, ids) =
     Some (Renderer_SetVideoAlpha videoId alpha m, ids)"

fun run_manager :: "manager_call list \<Rightarrow> VideoManager \<times> video_id list \<Rightarrow> (VideoManager \<times> video_id list) option" where
  "run_manager [] s = Some s"
| "run_manager (c # cs) s = (case manager_step c s of None \<Rightarrow> None | Some s' \<Rightarrow> run_manager cs s')"

definition player_ids :: "VideoManager \<Rightarrow> video_id set" where
  \<comment> \<open>the keys of \<open>m_Players\<close>\<close>
  "player_ids m = fst ` set (m_Players m)"

definition load_succeeds :: "string option \<Rightarrow> load_env \<Rightarrow> int \<Rightarrow> int \<Rightarrow> VideoManager \<Rightarrow> bool" where
  \<comment> \<open>none of the failure exits of \<open>VideoManager::LoadVideo\<close> is taken\<close>
  "load_succeeds filePath env frequency now m \<longleftrightarrow>
     m_Initialized m \<and> filePath \<noteq> None \<and> length (m_Players m) < MAX_LOADED_VIDEOS
     \<and> mgr_Device m \<and> mgr_Context m
     \<and> fst (LoadVideo filePath env now
              (snd (VideoPlayer_Initialize (mgr_Device m) (mgr_Context m)
                      (new_player frequency now))))"

definition history_ok :: "VideoManager \<times> video_id list \<Rightarrow> bool" where
  \<comment> \<open>every key in use was returned by a load, and every value returned is 0 or positive\<close>
  "history_ok s \<longleftrightarrow>
     player_ids (fst s) \<subseteq> {i \<in> set (snd s). i \<noteq> 0} \<and> (\<forall>i \<in> set (snd s). i = 0 \<or> 0 < sint i)"

definition sample_stream :: "mf_sample list" where
  "sample_stream = [Sample 0 0, Sample 400000 1, Sample 800000 2, Sample 1200000 3, Sample 1600000 4]"

definition sample_mf :: mf_probe where
  \<comment> \<open>a file of five frames at 25 frames per second that Media Foundation opens\<close>
  "sample_mf =
     \<lparr>mf_attributes_ok = True, mf_source_reader_ok = True, mf_media_type_ok = True,
      mf_argb32_ok = True, mf_media_type2_ok = True, mf_rgb32_ok = True,
      mf_current_type_ok = True, mf_frame_size = Some (64, 48), mf_frame_rate = Some (25, 1),
      mf_duration = Some 2000000, mf_stream = sample_stream, mf_seeks = [(0, sample_stream)]\<rparr>"

definition sample_packets :: "packet list" where
  "sample_packets = [Picture 0, Picture 1, Picture 2, Picture 3, Picture 4]"

definition sample_ff :: ff_probe where
  \<comment> \<open>the same five frames as the fallback decoder sees them, at another picture size\<close>
  "sample_ff =
     \<lparr>av_open_input_ok = True, av_stream_info_ok = True, av_video_stream = True,
      av_width = 32, av_height = 24, av_r_frame_rate = (25, 1), av_avg_frame_rate = (25, 1),
      av_duration = 200000, av_stream_duration = 0, av_time_base = (1, 25), av_nb_frames = 5,
      av_codec_ok = True, av_has_alpha = True, av_buffers_ok = True,
      av_packets = sample_packets, av_seek_table = [(0, sample_packets)]\<rparr>"

definition sample_file :: load_env where
  "sample_file =
     \<lparr>wide_path_ok = True, file_found = True, file_size = 1000, mf = sample_mf,
      mf_texture_ok = True, mf_view_ok = True, ffmpeg_available = True, ffmpeg = sample_ff,
      ff_texture_ok = True, ff_view_ok = True\<rparr>"

definition sample_history :: "manager_call list" where
  "sample_history =
     [Call_Initialize True True True,
      Call_LoadVideo (Some ''clip.mp4'') sample_file 10000000 0,
      Call_LoadVideo None sample_file 10000000 0,
      Call_PauseVideo 1]"



definition fresh_player :: VideoPlayer where
  \<comment> \<open>a player as the manager creates and initialises it, at 10 MHz\<close>
  "fresh_player = snd (VideoPlayer_Initialize True True (new_player 10000000 0))"


definition unseekable_file :: load_env where
  \<comment> \<open>the sample file when Media Foundation opens it and cannot set its position\<close>
  "unseekable_file = sample_file\<lparr>mf := sample_mf\<lparr>mf_seeks := []\<rparr>\<rparr>"



definition playing_unseekable :: VideoPlayer where
  "playing_unseekable = snd (LoadVideo (Some ''clip.mp4'') unseekable_file 0 fresh_player)"

section \<open>The shared frame buffer (FrameBuffer.cpp)\<close>

text \<open>
  The mapped region is the header (\<open>hdr_\<close> fields) and the pixel bytes; \<open>m_pPixels\<close> is
  \<open>None\<close> before \<open>Initialize\<close> and after \<open>Shutdown\<close>. \<open>memcpy\<close> copies \<open>n\<close> bytes between
  two byte lists at the given offsets; an access outside either list is undefined
  behaviour in C++ and \<open>None\<close> here. \<open>Write\<close> waits on the condition variable for at most
  10 ms: the argument \<open>unlocked_in_time\<close> says whether the reader's \<open>Unlock\<close> arrives
  during that wait. How long the wait lasts is not modelled.
\<close>

record DaroFrameBuffer =
  m_Width :: int
  m_Height :: int
  m_Stride :: int
  m_pPixels :: "8 word list option"
  hdr_width :: int
  hdr_height :: int
  hdr_stride :: int
  hdr_frameNumber :: "64 word"
  hdr_locked :: int
  m_IsLocked :: bool

definition memcpy :: "8 word list \<Rightarrow> nat \<Rightarrow> 8 word list \<Rightarrow> nat \<Rightarrow> nat \<Rightarrow> 8 word list option" where
  "memcpy dst doff src soff n =
     (if doff + n \<le> length dst \<and> soff + n \<le> length src
      then Some (take doff dst @ take n (drop soff src) @ drop (doff + n) dst)
      else None)"

fun copy_rows :: "nat \<Rightarrow> nat \<Rightarrow> nat \<Rightarrow> nat \<Rightarrow> nat \<Rightarrow> 8 word list \<Rightarrow> 8 word list \<Rightarrow> 8 word list option" where
  \<comment> \<open>the loop \<open>for (y = 0; y < m_Height; y++)\<close>: \<open>k\<close> rows remain, the next one is row \<open>y\<close>\<close>
  "copy_rows 0 y copyStride srcStride dstStride src dst = Some dst"
| "copy_rows (Suc k) y copyStride srcStride dstStride src dst =
     (case memcpy dst (y * dstStride) src (y * srcStride) copyStride of
        None \<Rightarrow> None
      | Some dst' \<Rightarrow> copy_rows k (Suc y) copyStride srcStride dstStride src dst')"

definition Unlock :: "DaroFrameBuffer \<Rightarrow> DaroFrameBuffer" where
  "Unlock fb = (if m_pPixels fb \<noteq> None then fb\<lparr>hdr_locked := 0, m_IsLocked := False\<rparr>
                else fb\<lparr>m_IsLocked := False\<rparr>)"

definition Lock :: "DaroFrameBuffer \<Rightarrow> bool \<times> DaroFrameBuffer" where
  "Lock fb = (if m_pPixels fb = None then (False, fb)
              else (True, fb\<lparr>m_IsLocked := True, hdr_locked := 1\<rparr>))"

definition Write :: "8 word list option \<Rightarrow> int \<Rightarrow> 64 word \<Rightarrow> bool \<Rightarrow> DaroFrameBuffer \<Rightarrow> DaroFrameBuffer option" where
  "Write pData srcStride frameNumber unlocked_in_time fb =
     (case (m_pPixels fb, pData) of
        (Some pixels, Some src) \<Rightarrow>
          if m_IsLocked fb \<and> \<not> unlocked_in_time then Some fb
          else
            let fb1 = (if m_IsLocked fb then Unlock fb else fb)
            in if srcStride = m_Stride fb1 then
                 (if m_Stride fb1 < 0 \<or> m_Height fb1 < 0 then None
                  else case memcpy pixels 0 src 0 (nat (m_Stride fb1 * m_Height fb1)) of
                         None \<Rightarrow> None
                       | Some pixels' \<Rightarrow>
                           Some (fb1\<lparr>m_pPixels := Some pixels', hdr_frameNumber := frameNumber\<rparr>))
               else
                 let copyStride = (if srcStride < m_Stride fb1 then srcStride else m_Stride fb1)
                 in if 0 < m_Height fb1 \<and> (copyStride < 0 \<or> srcStride < 0 \<or> m_Stride fb1 < 0) then None
                    else case copy_rows (nat (m_Height fb1)) 0 (nat copyStride) (nat srcStride)
                                (nat (m_Stride fb1)) src pixels of
                           None \<Rightarrow> None
                         | Some pixels' \<Rightarrow>
                             Some (fb1\<lparr>m_pPixels := Some pixels', hdr_frameNumber := frameNumber\<rparr>)
      | _ \<Rightarrow> Some fb)"

definition Initialize :: "int \<Rightarrow> int \<Rightarrow> bool \<Rightarrow> DaroFrameBuffer \<Rightarrow> bool \<times> DaroFrameBuffer" where
  \<comment> \<open>\<open>mapped\<close>: the file mapping and its view are created; fresh pages are zero\<close>
  "Initialize width height mapped fb =
     (if width \<le> 0 \<or> height \<le> 0 \<or> width > 16384 \<or> height > 16384 then (False, fb)
      else
        let fb1 = fb\<lparr>m_Width := width, m_Height := height, m_Stride := width * 4\<rparr>
        in if \<not> mapped then (False, fb1)
           else (True, fb1\<lparr>m_pPixels := Some (replicate (nat (width * 4 * height)) 0),
                           hdr_width := width, hdr_height := height, hdr_stride := width * 4,
                           hdr_frameNumber := 0, hdr_locked := 0, m_IsLocked := False\<rparr>))"

definition unmapped_buffer :: DaroFrameBuffer where
  \<comment> \<open>a \<open>DaroFrameBuffer\<close> as its constructor leaves it\<close>
  "unmapped_buffer =
     \<lparr>m_Width = 0, m_Height = 0, m_Stride = 0, m_pPixels = None,
      hdr_width = 0, hdr_height = 0, hdr_stride = 0, hdr_frameNumber = 0, hdr_locked = 0,
      m_IsLocked = False\<rparr>"

definition sample_buffer :: DaroFrameBuffer where
  \<comment> \<open>a mapped buffer of one pixel by two rows\<close>
  "sample_buffer = snd (Initialize 1 2 True unmapped_buffer)"

definition sample_stats :: frame_stats where
  \<comment> \<open>an initialised engine at 50 frames per second, with a counter of 10 MHz\<close>
  "sample_stats =
     \<lparr>g_Initialized = True, g_TargetFps = 50, g_PerfFreq = 10000000, g_LastFrameTime = 0,
      g_FPS = 0, g_FrameTime = 0, g_DroppedFrames = 0, g_FrameNumber = 0\<rparr>"

definition sample_circle :: DaroLayer where
  \<comment> \<open>a white circle at half opacity\<close>
  "sample_circle = (sample_typed DARO_TYPE_CIRCLE 1)\<lparr>posX := 10, posY := 20, sizeY := 60, opacity := 1 / 2\<rparr>"

definition sample_env :: d2d_env where
  "sample_env = \<lparr>create_brush_ok = True, end_draw_result = EndDraw_OK, recreate_ok = True\<rparr>"

section \<open>Layer table: read-back\<close>

lemma length_Daro_UpdateLayer: "length (g_Layers (Daro_UpdateLayer j l t)) = length (g_Layers t)"
  by (simp add: Daro_UpdateLayer_def)

lemma length_update_all: "length (g_Layers (update_all calls t)) = length (g_Layers t)"
  unfolding update_all_def
  by (induction calls arbitrary: t) (auto simp: length_Daro_UpdateLayer)

lemma count_update_all: "g_LayerCount (update_all calls t) = g_LayerCount t"
  unfolding update_all_def
  by (induction calls arbitrary: t) (auto simp: Daro_UpdateLayer_def)

lemma update_all_snoc:
  "update_all (calls @ [(j, l)]) t = Daro_UpdateLayer j l (update_all calls t)"
  by (simp add: update_all_def)

lemma last_update_snoc:
  "last_update i (calls @ [(j, l)]) = (if j = i \<and> l \<noteq> None then l else last_update i calls)"
  by (auto simp: last_update_def split: list.splits)

lemma read_back:
  assumes len: "length (g_Layers t) = nat DARO_MAX_LAYERS"
    and i: "0 \<le> i" "i < DARO_MAX_LAYERS"
    and upd: "last_update i calls = Some r"
  shows "g_Layers (update_all calls t) ! nat i = r"
  using upd
proof (induction calls rule: rev_induct)
  case Nil
  then show ?case by (simp add: last_update_def)
next
  case (snoc c calls)
  obtain j l where c: "c = (j, l)" by (cases c)
  let ?t = "update_all calls t"
  have len': "length (g_Layers ?t) = nat DARO_MAX_LAYERS"
    using len by (simp add: length_update_all)
  show ?case
  proof (cases "j = i \<and> l \<noteq> None")
    case True
    then have "l = Some r"
      using snoc.prems c by (simp add: last_update_snoc)
    then show ?thesis
      using True i len' c by (simp add: update_all_snoc Daro_UpdateLayer_def)
  next
    case False
    then have prev: "last_update i calls = Some r"
      using snoc.prems c by (auto simp: last_update_snoc split: if_splits)
    have "g_Layers (Daro_UpdateLayer j l ?t) ! nat i = g_Layers ?t ! nat i"
      using False i by (auto simp: Daro_UpdateLayer_def nth_list_update)
    then show ?thesis
      using snoc.IH [OF prev] c by (simp add: update_all_snoc)
  qed
qed

text \<open>
  C6. For every \<open>N\<close> in \<open>[0,64]\<close> and every index \<open>0 \<le> i < N\<close>: after
  \<open>setLayerCount(N)\<close> and any sequence of \<open>updateLayer\<close> calls, the layer count is
  \<open>N\<close> and \<open>getLayer(i)\<close> hands back exactly the record passed to the most recent
  \<open>updateLayer(i, \<dots>)\<close> call. The table has its 64 slots, as \<open>Daro_Initialize\<close> and
  \<open>Daro_ClearLayers\<close> leave it, and the caller's buffer is not null.
\<close>

theorem layer_roundtrip:
  assumes "length (g_Layers t) = nat DARO_MAX_LAYERS"
    and "0 \<le> N" "N \<le> 64" "0 \<le> i" "i < N"
    and "last_update i calls = Some r"
  shows "g_LayerCount (update_all calls (Daro_SetLayerCount N t)) = N
       \<and> Daro_GetLayer i (Some buf) (update_all calls (Daro_SetLayerCount N t)) = Some r"
proof -
  let ?t = "Daro_SetLayerCount N t"
  have len: "length (g_Layers ?t) = nat DARO_MAX_LAYERS"
    using assms(1) by (simp add: Daro_SetLayerCount_def)
  have i64: "i < DARO_MAX_LAYERS"
    using assms(3,5) by (simp add: DARO_MAX_LAYERS_def)
  have cnt: "g_LayerCount ?t = N"
    using assms(2,3) by (simp add: Daro_SetLayerCount_def DARO_MAX_LAYERS_def)
  have "g_Layers (update_all calls ?t) ! nat i = r"
    by (rule read_back [OF len assms(4) i64 assms(6)])
  then show ?thesis
    using cnt assms(4) i64 by (simp add: count_update_all Daro_GetLayer_def)
qed

theorem layer_roundtrip_witness:
  "g_LayerCount
     (update_all
        [(1, Some (sample_layer 7)), (2, Some (sample_layer 8)), (1, None),
         (1, Some (sample_layer 9)), (70, Some (sample_layer 3))]
        (Daro_SetLayerCount 2 (Daro_ClearLayers \<lparr>g_Layers = [], g_LayerCount = 5\<rparr>))) = 2
   \<and> Daro_GetLayer 1 (Some zero_layer)
     (update_all
        [(1, Some (sample_layer 7)), (2, Some (sample_layer 8)), (1, None),
         (1, Some (sample_layer 9)), (70, Some (sample_layer 3))]
        (Daro_SetLayerCount 2 (Daro_ClearLayers \<lparr>g_Layers = [], g_LayerCount = 5\<rparr>)))
      = Some (sample_layer 9)"
  by (rule layer_roundtrip) (simp_all add: Daro_ClearLayers_def DARO_MAX_LAYERS_def last_update_def)

section \<open>Mask lookup and render dispatch\<close>

lemma add_targets_other: "tid < 0 \<Longrightarrow> add_targets m i ids tid = m tid"
  by (induction m i ids rule: add_targets.induct) auto

lemma add_targets_prefix: "\<exists>ys. add_targets m i ids tid = m tid @ ys"
proof (induction m i ids rule: add_targets.induct)
  case (1 m i)
  then show ?case by simp
next
  case (2 m i maskedId ids)
  let ?m = "if maskedId \<ge> 0 then m(maskedId := m maskedId @ [i]) else m"
  obtain ys where "add_targets ?m i ids tid = ?m tid @ ys"
    using "2.IH" by blast
  moreover obtain zs where "?m tid = m tid @ zs"
    by (cases "maskedId \<ge> 0 \<and> tid = maskedId") auto
  ultimately show ?case by simp
qed

lemma add_targets_absent: "tid \<notin> set ids \<Longrightarrow> add_targets m i ids tid = m tid"
  by (induction m i ids rule: add_targets.induct) auto

lemma add_targets_present:
  "0 \<le> tid \<Longrightarrow> tid \<in> set ids \<Longrightarrow> m tid = [] \<Longrightarrow> \<exists>ys. add_targets m i ids tid = i # ys"
proof (induction m i ids rule: add_targets.induct)
  case (1 m i)
  then show ?case by simp
next
  case (2 m i maskedId ids)
  show ?case
  proof (cases "maskedId = tid")
    case True
    then show ?thesis
      using "2.prems" add_targets_prefix [of "m(tid := m tid @ [i])" i ids tid] by auto
  next
    case False
    then show ?thesis using 2 by auto
  qed
qed

lemma scan_masks_prefix: "\<exists>ys. scan_masks m i ls tid = m tid @ ys"
proof (induction m i ls rule: scan_masks.induct)
  case (1 m i)
  then show ?case by simp
next
  case (2 m i l ls)
  let ?m = "if layerType l = DARO_TYPE_MASK \<and> maskedLayerCount l > 0
            then add_targets m i (mask_targets l) else m"
  obtain ys where "?m tid = m tid @ ys"
    using add_targets_prefix [of m i "mask_targets l" tid] by (cases "layerType l = DARO_TYPE_MASK \<and> maskedLayerCount l > 0") auto
  moreover obtain zs where "scan_masks ?m (i + 1) ls tid = ?m tid @ zs"
    using "2.IH" by blast
  ultimately show ?case by simp
qed

lemma masks_of_Cons:
  "masks_of (l # ls) tid = (if lists_target l tid then [0] else []) @ map Suc (masks_of ls tid)"
proof -
  have "[0..<length (l # ls)] = 0 # map Suc [0..<length ls]"
    by (simp add: upt_conv_Cons map_Suc_upt del: upt_Suc)
  then show ?thesis
    by (simp add: masks_of_def filter_map comp_def)
qed

lemma scan_masks_negative: "tid < 0 \<Longrightarrow> scan_masks m i ls tid = m tid"
  by (induction m i ls rule: scan_masks.induct) (auto simp: add_targets_other)

lemma scan_masks_none:
  "masks_of ls tid = [] \<Longrightarrow> scan_masks m i ls tid = m tid"
proof (induction m i ls rule: scan_masks.induct)
  case (1 m i)
  then show ?case by simp
next
  case (2 m i l ls)
  from "2.prems" have no: "\<not> lists_target l tid" and rest: "masks_of ls tid = []"
    by (auto simp: masks_of_Cons split: if_splits)
  have "(if layerType l = DARO_TYPE_MASK \<and> maskedLayerCount l > 0
         then add_targets m i (mask_targets l) else m) tid = m tid"
    using no by (auto simp: lists_target_def add_targets_absent)
  then show ?case using "2.IH" [OF rest] by simp
qed

lemma scan_masks_first:
  "0 \<le> tid \<Longrightarrow> masks_of ls tid \<noteq> [] \<Longrightarrow> m tid = [] \<Longrightarrow>
     \<exists>ys. scan_masks m i ls tid = (i + int (hd (masks_of ls tid))) # ys"
proof (induction m i ls rule: scan_masks.induct)
  case (1 m i)
  then show ?case by (simp add: masks_of_def)
next
  case (2 m i l ls)
  let ?m = "if layerType l = DARO_TYPE_MASK \<and> maskedLayerCount l > 0
            then add_targets m i (mask_targets l) else m"
  show ?case
  proof (cases "lists_target l tid")
    case True
    then obtain ys where "?m tid = i # ys"
      using add_targets_present [of tid "mask_targets l" m i] "2.prems"
      by (auto simp: lists_target_def)
    moreover obtain zs where "scan_masks ?m (i + 1) ls tid = ?m tid @ zs"
      using scan_masks_prefix by blast
    ultimately show ?thesis using True by (simp add: masks_of_Cons)
  next
    case False
    then have m': "?m tid = []"
      using "2.prems" by (auto simp: lists_target_def add_targets_absent)
    from False "2.prems" have rest: "masks_of ls tid \<noteq> []"
      by (auto simp: masks_of_Cons)
    have hd: "hd (masks_of (l # ls) tid) = Suc (hd (masks_of ls tid))"
      using False rest by (simp add: masks_of_Cons hd_map)
    obtain ys where "scan_masks ?m (i + 1) ls tid = (i + 1 + int (hd (masks_of ls tid))) # ys"
      using "2.IH" [OF "2.prems"(1) rest m'] by blast
    then show ?thesis using hd by simp
  qed
qed

lemma masks_of_hd:
  assumes "masks_of ls tid \<noteq> []"
  shows "hd (masks_of ls tid) < length ls" and "lists_target (ls ! hd (masks_of ls tid)) tid"
proof -
  have "hd (masks_of ls tid) \<in> set (masks_of ls tid)"
    using assms by simp
  then show "hd (masks_of ls tid) < length ls" and "lists_target (ls ! hd (masks_of ls tid)) tid"
    by (auto simp: masks_of_def)
qed

lemma mask_not_group: "DARO_TYPE_MASK \<noteq> DARO_TYPE_GROUP"
  by (simp add: DARO_TYPE_MASK_def DARO_TYPE_GROUP_def)

lemma render_one_dispatch:
  assumes "int (length ls) \<le> n"
  shows "render_one ls n (scan_masks (\<lambda>_. []) 0 ls) sb l = dispatch ls sb l"
proof (cases "0 \<le> id l \<and> masks_of ls (id l) \<noteq> []")
  case True
  then obtain ys where idx: "scan_masks (\<lambda>_. []) 0 ls (id l) = int (hd (masks_of ls (id l))) # ys"
    using scan_masks_first [of "id l" ls "\<lambda>_. []" 0] by auto
  have "hd (masks_of ls (id l)) < length ls"
    using True masks_of_hd(1) by blast
  then have "int (hd (masks_of ls (id l))) < n"
    using assms by linarith
  then show ?thesis
    using True idx mask_not_group
    by (simp add: render_one_def dispatch_def masked_path_def bounds_overlay_def Let_def)
next
  case False
  then have "scan_masks (\<lambda>_. []) 0 ls (id l) = []"
    using scan_masks_negative [of "id l" "\<lambda>_. []" 0 ls] scan_masks_none [of ls "id l" "\<lambda>_. []" 0]
    by (cases "id l < 0") auto
  then show ?thesis
    using False mask_not_group by (auto simp: render_one_def dispatch_def bounds_overlay_def)
qed

lemma Daro_Render_dispatch:
  "Daro_Render t sb = StencilOff # concat (map (dispatch (snapshot t) sb) (snapshot t))"
proof -
  let ?n = "g_LayerCount t"
  let ?ls = "snapshot t"
  have len: "int (length ?ls) \<le> ?n \<or> ?ls = []"
    by (auto simp: snapshot_def)
  have eq: "map (render_one ?ls ?n (scan_masks (\<lambda>_. []) 0 ?ls) sb) ?ls = map (dispatch ?ls sb) ?ls"
  proof (cases "?ls = []")
    case True
    then show ?thesis by simp
  next
    case False
    then have "int (length ?ls) \<le> ?n" using len by blast
    then show ?thesis by (simp add: render_one_dispatch)
  qed
  have "Daro_Render t sb =
          StencilOff # concat (map (render_one ?ls ?n (scan_masks (\<lambda>_. []) 0 ?ls) sb) ?ls)"
    by (simp add: Daro_Render_def RenderWithMasks_def Let_def snapshot_def)
  also have "\<dots> = StencilOff # concat (map (dispatch ?ls sb) ?ls)"
    by (simp only: eq)
  finally show ?thesis .
qed

lemma dispatch_no_group:
  assumes "c \<in> set (dispatch ls sb l)" and "x \<in> set (drawn c)"
  shows "layerType x \<noteq> DARO_TYPE_GROUP"
proof -
  have mask_ok: "layerType (ls ! hd (masks_of ls (id l))) = DARO_TYPE_MASK"
    if "masks_of ls (id l) \<noteq> []"
    using masks_of_hd(2) [OF that] by (simp add: lists_target_def)
  show ?thesis
    using assms mask_ok mask_not_group
    by (auto simp: dispatch_def masked_path_def bounds_overlay_def RenderLayer_def
             split: if_splits)
qed

lemmas sample_defs = sample_table_def sample_mask_def sample_typed_def zero_layer_def
  DARO_MAX_LAYERS_def DARO_MAX_TEXT_def DARO_MAX_FONTNAME_def DARO_MAX_PATH_def
  DARO_TYPE_MASK_def DARO_TYPE_GROUP_def DARO_TYPE_TEXT_def DARO_TYPE_CIRCLE_def
  DARO_TYPE_RECTANGLE_def

lemmas render_defs = Daro_Render_def RenderWithMasks_def render_one_def RenderLayer_def
  mask_targets_def

text \<open>
  C4, as the code has it. In every rendered frame the calls are those of \<open>dispatch\<close>, layer
  by layer in snapshot order: an active layer that is neither a Mask nor a Group goes
  through the masked path if and only if its id is not negative and is among the first
  \<open>min(maskedLayerCount, 64)\<close> target ids of some Mask-type layer of the snapshot with
  \<open>maskedLayerCount > 0\<close>; the mask applied is the first such mask in scan order
  (\<open>hd (masks_of \<dots>)\<close>), so a later mask listing the same target changes nothing; and only
  the ids of the snapshot's own layers are ever looked up, so a target id that no layer
  carries has no effect. The function is total: no input makes the frame fail. The scan
  skips negative target ids (\<open>if (maskedId >= 0)\<close>), which is where the code departs from
  the claim as stated.
\<close>

theorem mask_dispatch:
  "Daro_Render t m_ShowBounds =
     StencilOff # concat (map (dispatch (snapshot t) m_ShowBounds) (snapshot t))"
  by (rule Daro_Render_dispatch)

text \<open>
  The example of the specification: the first mask lists 5, 9 and the unknown id 999, the
  last mask lists 5 and 7. Layers 5 and 9 are clipped by the first mask, layer 7 by the
  last one, and the id 999 is ignored.
\<close>

lemma mask_dispatch_example:
  "Daro_Render
     (sample_table [sample_mask 1 [5, 9, 999], sample_typed DARO_TYPE_RECTANGLE 5,
                    sample_typed DARO_TYPE_CIRCLE 7, sample_typed DARO_TYPE_TEXT 9,
                    sample_mask 2 [5, 7]]) False =
   [StencilOff,
    Rectangle (sample_mask 1 [5, 9, 999]),
    ClearStencil, MaskToStencil (sample_mask 1 [5, 9, 999]), StencilTest True,
      Rectangle (sample_typed DARO_TYPE_RECTANGLE 5), StencilOff,
    ClearStencil, MaskToStencil (sample_mask 2 [5, 7]), StencilTest True,
      Circle (sample_typed DARO_TYPE_CIRCLE 7), StencilOff,
    Text (sample_typed DARO_TYPE_TEXT 9) (Some (sample_mask 1 [5, 9, 999])),
    Rectangle (sample_mask 2 [5, 7])]"
  by (simp add: render_defs sample_defs)

text \<open>
  The claim as stated fails for a negative id: the rectangle with id \<open>-1\<close> is listed by the
  mask and is still rendered on the unmasked path.
\<close>

theorem mask_negative_id_counterexample:
  "layerType (sample_mask 1 [-1]) = DARO_TYPE_MASK
   \<and> id (sample_typed DARO_TYPE_RECTANGLE (-1)) \<in> set (mask_targets (sample_mask 1 [-1]))
   \<and> Daro_Render (sample_table [sample_mask 1 [-1], sample_typed DARO_TYPE_RECTANGLE (-1)]) False =
       [StencilOff, Rectangle (sample_mask 1 [-1]),
        Rectangle (sample_typed DARO_TYPE_RECTANGLE (-1))]"
  by (simp add: render_defs sample_defs)

text \<open>
  C5, as the code has it. No call of a frame draws from a Group layer, and \<open>RenderLayer\<close>
  draws nothing for a Mask or a Group layer. The loop of \<open>RenderWithMasks\<close> skips a Group
  layer, but it draws every active Mask layer as a quad (\<open>RenderRectangle\<close>, the preview)
  whether or not show-bounds is on, and adds the bounding-box overlay when it is on.
\<close>

theorem group_mask_rendering:
  "(\<forall>c \<in> set (Daro_Render t m_ShowBounds). \<forall>l \<in> set (drawn c). layerType l \<noteq> DARO_TYPE_GROUP)
   \<and> (layerType layer = DARO_TYPE_MASK \<or> layerType layer = DARO_TYPE_GROUP \<longrightarrow> RenderLayer layer = [])
   \<and> (layerType layer = DARO_TYPE_GROUP \<longrightarrow>
        render_one layers layerCount layerToMasks m_ShowBounds layer = [])
   \<and> (active layer \<noteq> 0 \<and> layerType layer = DARO_TYPE_MASK \<longrightarrow>
        render_one layers layerCount layerToMasks m_ShowBounds layer =
          Rectangle layer # (if m_ShowBounds then [BoundingBox layer] else []))"
proof (intro conjI)
  show "\<forall>c \<in> set (Daro_Render t m_ShowBounds). \<forall>l \<in> set (drawn c). layerType l \<noteq> DARO_TYPE_GROUP"
    using dispatch_no_group by (auto simp: Daro_Render_dispatch)
  show "layerType layer = DARO_TYPE_MASK \<or> layerType layer = DARO_TYPE_GROUP \<longrightarrow> RenderLayer layer = []"
    by (auto simp: RenderLayer_def DARO_TYPE_MASK_def DARO_TYPE_GROUP_def DARO_TYPE_TEXT_def
        DARO_TYPE_CIRCLE_def)
  show "layerType layer = DARO_TYPE_GROUP \<longrightarrow>
        render_one layers layerCount layerToMasks m_ShowBounds layer = []"
    using mask_not_group by (auto simp: render_one_def)
  show "active layer \<noteq> 0 \<and> layerType layer = DARO_TYPE_MASK \<longrightarrow>
        render_one layers layerCount layerToMasks m_ShowBounds layer =
          Rectangle layer # (if m_ShowBounds then [BoundingBox layer] else [])"
    by (simp add: render_one_def)
qed

theorem group_mask_rendering_witness:
  "layerType (sample_typed DARO_TYPE_RECTANGLE 5) \<noteq> DARO_TYPE_GROUP
   \<and> RenderLayer (sample_typed DARO_TYPE_GROUP 3) = []
   \<and> render_one [] 0 (\<lambda>_. []) True (sample_typed DARO_TYPE_GROUP 3) = []
   \<and> render_one [] 0 (\<lambda>_. []) True (sample_mask 1 [5]) =
       [Rectangle (sample_mask 1 [5]), BoundingBox (sample_mask 1 [5])]"
proof -
  let ?t = "sample_table [sample_typed DARO_TYPE_GROUP 3, sample_typed DARO_TYPE_RECTANGLE 5]"
  have run: "Daro_Render ?t False = [StencilOff, Rectangle (sample_typed DARO_TYPE_RECTANGLE 5)]"
    by (simp add: render_defs sample_defs)
  have "Rectangle (sample_typed DARO_TYPE_RECTANGLE 5) \<in> set (Daro_Render ?t False)"
    by (simp only: run) simp
  then have a: "layerType (sample_typed DARO_TYPE_RECTANGLE 5) \<noteq> DARO_TYPE_GROUP"
    using group_mask_rendering [of ?t False] by fastforce
  have b: "RenderLayer (sample_typed DARO_TYPE_GROUP 3) = []"
    and c: "render_one [] 0 (\<lambda>_. []) True (sample_typed DARO_TYPE_GROUP 3) = []"
    using group_mask_rendering [of _ True "sample_typed DARO_TYPE_GROUP 3" "[]" 0 "\<lambda>_. []"]
    by (simp_all add: sample_typed_def)
  have d: "render_one [] 0 (\<lambda>_. []) True (sample_mask 1 [5]) =
       [Rectangle (sample_mask 1 [5]), BoundingBox (sample_mask 1 [5])]"
    using group_mask_rendering [of _ True "sample_mask 1 [5]" "[]" 0 "\<lambda>_. []"]
    by (simp add: sample_mask_def sample_typed_def)
  from a b c d show ?thesis by blast
qed

text \<open>
  The claim as stated fails with show-bounds off: the active mask is still drawn as a quad,
  here an opaque white one.
\<close>

theorem mask_preview_counterexample:
  "layerType (sample_mask 1 []) = DARO_TYPE_MASK
   \<and> Daro_Render (sample_table [sample_mask 1 []]) False =
       [StencilOff, Rectangle (sample_mask 1 [])]"
  by (simp add: render_defs sample_defs)

section \<open>The frame buffer: writes\<close>

lemma memcpy_length: "memcpy dst doff src soff n = Some d \<Longrightarrow> length d = length dst"
  by (auto simp: memcpy_def split: if_splits)

lemma memcpy_nth:
  assumes "memcpy dst doff src soff n = Some d" and "j < length dst"
  shows "d ! j = (if doff \<le> j \<and> j < doff + n then src ! (soff + (j - doff)) else dst ! j)"
proof -
  from assms(1) have b: "doff + n \<le> length dst" "soff + n \<le> length src"
    and d: "d = take doff dst @ take n (drop soff src) @ drop (doff + n) dst"
    by (auto simp: memcpy_def split: if_splits)
  show ?thesis
  proof (cases "j < doff")
    case True
    then show ?thesis using b d by (simp add: nth_append)
  next
    case False
    note ge = this
    show ?thesis
    proof (cases "j < doff + n")
      case True
      then have "j - doff < n" using ge by simp
      then show ?thesis using True ge b d by (simp add: nth_append)
    next
      case False
      then have "doff + n + (j - doff - n) = j" and "\<not> j - doff < n" using ge by simp_all
      then show ?thesis using False ge b d assms(2) by (simp add: nth_append)
    qed
  qed
qed

lemma row_index:
  assumes "x < ds" and "c \<le> ds"
  shows "(y * ds \<le> r * ds + x \<and> r * ds + x < y * ds + c) \<longleftrightarrow> (r = y \<and> x < (c::nat))"
proof (cases "r < y")
  case True
  then have "Suc r * ds \<le> y * ds" by (intro mult_le_mono1) simp
  then show ?thesis using assms True by auto
next
  case False
  show ?thesis
  proof (cases "r = y")
    case True
    then show ?thesis by simp
  next
    case False
    with \<open>\<not> r < y\<close> have "Suc y * ds \<le> r * ds" by (intro mult_le_mono1) simp
    then show ?thesis using assms False by auto
  qed
qed

lemma copy_rows_spec:
  assumes "c \<le> ds" and "c \<le> ss"
    and "(y + k) * ds \<le> length dst"
    and "k = 0 \<or> (y + k - 1) * ss + c \<le> length src"
  shows "\<exists>d. copy_rows k y c ss ds src dst = Some d \<and> length d = length dst \<and>
           (\<forall>r x. x < ds \<longrightarrow> r * ds + x < length dst \<longrightarrow>
              d ! (r * ds + x) =
                (if y \<le> r \<and> r < y + k \<and> x < c then src ! (r * ss + x) else dst ! (r * ds + x)))"
  using assms(3,4)
proof (induction k arbitrary: y dst)
  case 0
  then show ?case by auto
next
  case (Suc k)
  have dst_ok: "y * ds + c \<le> length dst"
  proof -
    have "y * ds + ds \<le> (y + Suc k) * ds" by (simp add: algebra_simps)
    then show ?thesis using Suc.prems(1) assms(1) by linarith
  qed
  have src_ok: "y * ss + c \<le> length src"
  proof -
    have "y * ss \<le> (y + k) * ss" by (intro mult_le_mono1) simp
    moreover have "(y + k) * ss + c \<le> length src" using Suc.prems(2) by simp
    ultimately show ?thesis by linarith
  qed
  obtain d1 where d1: "memcpy dst (y * ds) src (y * ss) c = Some d1"
    using dst_ok src_ok by (simp add: memcpy_def)
  have len1: "length d1 = length dst" using d1 by (rule memcpy_length)
  have p1: "(Suc y + k) * ds \<le> length d1" using Suc.prems(1) len1 by simp
  have p2: "k = 0 \<or> (Suc y + k - 1) * ss + c \<le> length src" using Suc.prems(2) by simp
  obtain d where d: "copy_rows k (Suc y) c ss ds src d1 = Some d" "length d = length d1"
    and nth: "\<And>r x. x < ds \<Longrightarrow> r * ds + x < length d1 \<Longrightarrow>
              d ! (r * ds + x) =
                (if Suc y \<le> r \<and> r < Suc y + k \<and> x < c then src ! (r * ss + x) else d1 ! (r * ds + x))"
    using Suc.IH [OF p1 p2] by blast
  have "d ! (r * ds + x) =
          (if y \<le> r \<and> r < y + Suc k \<and> x < c then src ! (r * ss + x) else dst ! (r * ds + x))"
    if x: "x < ds" and j: "r * ds + x < length dst" for r x
  proof (cases "Suc y \<le> r \<and> r < Suc y + k \<and> x < c")
    case True
    then show ?thesis using nth [OF x] j len1 by simp
  next
    case False
    have j1: "r * ds + x < length d1" using j len1 by simp
    have "d ! (r * ds + x) = d1 ! (r * ds + x)"
      using nth [OF x j1] by (simp only: False if_False)
    also have "\<dots> = (if y * ds \<le> r * ds + x \<and> r * ds + x < y * ds + c
                     then src ! (y * ss + (r * ds + x - y * ds)) else dst ! (r * ds + x))"
      using memcpy_nth [OF d1 j] .
    also have "\<dots> = (if r = y \<and> x < c then src ! (r * ss + x) else dst ! (r * ds + x))"
      using row_index [OF x assms(1), of y r] by auto
    finally show ?thesis using False by auto
  qed
  then show ?case using d d1 len1 by simp
qed


lemma Write_locked: "m_IsLocked fb \<Longrightarrow> Write pData srcStride frameNumber False fb = Some fb"
  by (simp add: Write_def split: option.splits)

lemma Write_bulk:
  assumes "\<not> m_IsLocked fb" "m_pPixels fb = Some pixels" "srcStride = m_Stride fb"
    and "0 \<le> m_Stride fb" "0 \<le> m_Height fb" "n = nat (m_Stride fb * m_Height fb)"
    and "n \<le> length pixels" "n \<le> length src"
  shows "Write (Some src) srcStride frameNumber u fb =
           Some (fb\<lparr>m_pPixels := Some (take n src @ drop n pixels), hdr_frameNumber := frameNumber\<rparr>)"
  using assms by (simp add: Write_def memcpy_def)

lemma Write_rows:
  assumes "\<not> m_IsLocked fb" "m_pPixels fb = Some pixels" "srcStride \<noteq> m_Stride fb"
    and "0 < srcStride" "0 < m_Stride fb" "0 \<le> m_Height fb"
    and "length pixels = nat (m_Height fb) * nat (m_Stride fb)"
    and "m_Height fb = 0 \<or>
         (nat (m_Height fb) - 1) * nat srcStride + nat (min srcStride (m_Stride fb)) \<le> length src"
  shows "\<exists>pixels'. Write (Some src) srcStride frameNumber u fb =
            Some (fb\<lparr>m_pPixels := Some pixels', hdr_frameNumber := frameNumber\<rparr>)
          \<and> length pixels' = length pixels
          \<and> (\<forall>y x. y < nat (m_Height fb) \<longrightarrow> x < nat (m_Stride fb) \<longrightarrow>
                pixels' ! (y * nat (m_Stride fb) + x) =
                  (if x < nat (min srcStride (m_Stride fb)) then src ! (y * nat srcStride + x)
                   else pixels ! (y * nat (m_Stride fb) + x)))"
proof -
  let ?c = "nat (min srcStride (m_Stride fb))"
  let ?ds = "nat (m_Stride fb)"
  let ?ss = "nat srcStride"
  let ?h = "nat (m_Height fb)"
  have c: "?c \<le> ?ds" "?c \<le> ?ss" by simp_all
  have dst: "(0 + ?h) * ?ds \<le> length pixels" using assms(7) by simp
  have src: "?h = 0 \<or> (0 + ?h - 1) * ?ss + ?c \<le> length src" using assms(6,8) by auto
  obtain d where d: "copy_rows ?h 0 ?c ?ss ?ds src pixels = Some d" "length d = length pixels"
    and nth: "\<And>r x. x < ?ds \<Longrightarrow> r * ?ds + x < length pixels \<Longrightarrow>
          d ! (r * ?ds + x) =
            (if 0 \<le> r \<and> r < 0 + ?h \<and> x < ?c then src ! (r * ?ss + x) else pixels ! (r * ?ds + x))"
    using copy_rows_spec [OF c dst src] by blast
  have cs: "(if srcStride < m_Stride fb then srcStride else m_Stride fb) = min srcStride (m_Stride fb)"
    by (simp add: min_def)
  have nn: "\<not> min srcStride (m_Stride fb) < 0" using assms(4,5) by simp
  have run: "Write (Some src) srcStride frameNumber u fb =
            Some (fb\<lparr>m_pPixels := Some d, hdr_frameNumber := frameNumber\<rparr>)"
    using assms(1-6) d(1) nn by (simp add: Write_def cs Let_def)
  have "d ! (y * ?ds + x) =
          (if x < ?c then src ! (y * ?ss + x) else pixels ! (y * ?ds + x))"
    if y: "y < ?h" and x: "x < ?ds" for y x
  proof -
    have "y * ?ds + x < Suc y * ?ds" using x by simp
    also have "\<dots> \<le> ?h * ?ds" using y by (intro mult_le_mono1) simp
    finally have "y * ?ds + x < length pixels" using assms(7) by simp
    then show ?thesis using nth [OF x, of y] y by simp
  qed
  then show ?thesis using run d(2) by blast
qed

text \<open>
  C2. A \<open>Write\<close> that finds the region locked, with no \<open>Unlock\<close> arriving during its
  bounded wait, returns and leaves the buffer as it was: pixels, frame number and every
  other field. A \<open>Write\<close> on a region that is not locked copies the source (whose rows lie
  inside the source buffer): when the source stride equals the buffer stride, the first
  \<open>stride * height\<close> bytes in one copy; otherwise row by row, the first
  \<open>min(srcStride, stride)\<close> bytes of each source row to the start of the same buffer
  row, the rest of the buffer row untouched. In both cases the frame number is then the
  one passed. How long the wait lasts is not part of the model.
\<close>

theorem frame_buffer_write:
  "(m_IsLocked fb \<longrightarrow> Write pData srcStride frameNumber False fb = Some fb)
   \<and> (\<not> m_IsLocked fb \<and> m_pPixels fb = Some pixels \<and> srcStride = m_Stride fb
        \<and> 0 \<le> m_Stride fb \<and> 0 \<le> m_Height fb \<and> n = nat (m_Stride fb * m_Height fb)
        \<and> n \<le> length pixels \<and> n \<le> length src \<longrightarrow>
      Write (Some src) srcStride frameNumber u fb =
        Some (fb\<lparr>m_pPixels := Some (take n src @ drop n pixels), hdr_frameNumber := frameNumber\<rparr>))
   \<and> (\<not> m_IsLocked fb \<and> m_pPixels fb = Some pixels \<and> srcStride \<noteq> m_Stride fb
        \<and> 0 < srcStride \<and> 0 < m_Stride fb \<and> 0 \<le> m_Height fb
        \<and> length pixels = nat (m_Height fb) * nat (m_Stride fb)
        \<and> (m_Height fb = 0 \<or>
            (nat (m_Height fb) - 1) * nat srcStride + nat (min srcStride (m_Stride fb)) \<le> length src) \<longrightarrow>
      (\<exists>pixels'. Write (Some src) srcStride frameNumber u fb =
            Some (fb\<lparr>m_pPixels := Some pixels', hdr_frameNumber := frameNumber\<rparr>)
          \<and> length pixels' = length pixels
          \<and> (\<forall>y x. y < nat (m_Height fb) \<longrightarrow> x < nat (m_Stride fb) \<longrightarrow>
                pixels' ! (y * nat (m_Stride fb) + x) =
                  (if x < nat (min srcStride (m_Stride fb)) then src ! (y * nat srcStride + x)
                   else pixels ! (y * nat (m_Stride fb) + x)))))"
  using Write_locked Write_bulk Write_rows by blast


lemma sample_buffer:
  "sample_buffer =
     \<lparr>m_Width = 1, m_Height = 2, m_Stride = 4, m_pPixels = Some [0, 0, 0, 0, 0, 0, 0, 0],
      hdr_width = 1, hdr_height = 2, hdr_stride = 4, hdr_frameNumber = 0, hdr_locked = 0,
      m_IsLocked = False\<rparr>"
  by (simp add: sample_buffer_def Initialize_def unmapped_buffer_def Let_def eval_nat_numeral)

theorem frame_buffer_write_witness:
  "Write (Some [1, 2, 3, 4, 5, 6, 7, 8]) 4 9 False (snd (Lock sample_buffer)) = Some (snd (Lock sample_buffer))
   \<and> Write (Some [1, 2, 3, 4, 5, 6, 7, 8]) 4 9 False sample_buffer =
       Some (sample_buffer\<lparr>m_pPixels := Some [1, 2, 3, 4, 5, 6, 7, 8], hdr_frameNumber := 9\<rparr>)
   \<and> (\<exists>pixels'. Write (Some [1, 2, 3, 4, 5, 6, 7, 8, 9, 10]) 6 9 False sample_buffer =
         Some (sample_buffer\<lparr>m_pPixels := Some pixels', hdr_frameNumber := 9\<rparr>)
       \<and> length pixels' = 8 \<and> pixels' ! 6 = 9)"
proof -
  let ?locked = "snd (Lock sample_buffer)"
  have "m_IsLocked ?locked"
    by (simp add: Lock_def sample_buffer)
  then have a: "Write (Some [1, 2, 3, 4, 5, 6, 7, 8]) 4 9 False ?locked = Some ?locked"
    using frame_buffer_write [of ?locked] by blast
  have b: "Write (Some [1, 2, 3, 4, 5, 6, 7, 8]) 4 9 False sample_buffer =
       Some (sample_buffer\<lparr>m_pPixels := Some [1, 2, 3, 4, 5, 6, 7, 8], hdr_frameNumber := 9\<rparr>)"
    using frame_buffer_write [of sample_buffer _ 4 9 "[0, 0, 0, 0, 0, 0, 0, 0]" 8
        "[1, 2, 3, 4, 5, 6, 7, 8]" False]
    by (simp add: sample_buffer)
  have "\<exists>pixels'. Write (Some [1, 2, 3, 4, 5, 6, 7, 8, 9, 10]) 6 9 False sample_buffer =
            Some (sample_buffer\<lparr>m_pPixels := Some pixels', hdr_frameNumber := 9\<rparr>)
          \<and> length pixels' = length [0, 0, 0, 0, 0, 0, 0, 0 :: 8 word]
          \<and> (\<forall>y x. y < nat (m_Height sample_buffer) \<longrightarrow> x < nat (m_Stride sample_buffer) \<longrightarrow>
                pixels' ! (y * nat (m_Stride sample_buffer) + x) =
                  (if x < nat (min 6 (m_Stride sample_buffer))
                   then [1, 2, 3, 4, 5, 6, 7, 8, 9, 10] ! (y * nat 6 + x)
                   else [0, 0, 0, 0, 0, 0, 0, 0] ! (y * nat (m_Stride sample_buffer) + x)))"
    using frame_buffer_write [of sample_buffer _ 6 9 "[0, 0, 0, 0, 0, 0, 0, 0]" _
        "[1, 2, 3, 4, 5, 6, 7, 8, 9, 10]" False]
    by (simp add: sample_buffer)
  then obtain pixels' where
    w: "Write (Some [1, 2, 3, 4, 5, 6, 7, 8, 9, 10]) 6 9 False sample_buffer =
            Some (sample_buffer\<lparr>m_pPixels := Some pixels', hdr_frameNumber := 9\<rparr>)"
    and l: "length pixels' = 8"
    and n: "\<And>y x. y < nat (m_Height sample_buffer) \<Longrightarrow> x < nat (m_Stride sample_buffer) \<Longrightarrow>
                pixels' ! (y * nat (m_Stride sample_buffer) + x) =
                  (if x < nat (min 6 (m_Stride sample_buffer))
                   then [1, 2, 3, 4, 5, 6, 7, 8, 9, 10] ! (y * nat 6 + x)
                   else [0, 0, 0, 0, 0, 0, 0, 0] ! (y * nat (m_Stride sample_buffer) + x))"
    by auto
  have "pixels' ! 6 = 9"
    using n [of 1 2] by (simp add: sample_buffer eval_nat_numeral)
  with a b w l show ?thesis by blast
qed

section \<open>Rounding: bounds\<close>

lemma ilog2_le:
  assumes "0 < x"
  shows "(2::rat) powi (ilog2 x) \<le> x"
proof (cases "1 \<le> x")
  case True
  then have pos: "0 < \<lfloor>x\<rfloor>" by linarith
  then have b1: "1 \<le> bitlen \<lfloor>x\<rfloor>"
    using bitlen_eq_zero_iff [of "\<lfloor>x\<rfloor>"] bitlen_nonneg [of "\<lfloor>x\<rfloor>"] by linarith
  have "(2::int) ^ nat (bitlen \<lfloor>x\<rfloor> - 1) \<le> \<lfloor>x\<rfloor>"
    using bitlen_bounds [OF pos] by blast
  then have "(of_int ((2::int) ^ nat (bitlen \<lfloor>x\<rfloor> - 1)) :: rat) \<le> of_int \<lfloor>x\<rfloor>"
    by (simp only: of_int_le_iff)
  then have "(2::rat) ^ nat (bitlen \<lfloor>x\<rfloor> - 1) \<le> of_int \<lfloor>x\<rfloor>"
    by (simp only: of_int_power of_int_numeral)
  then have "(2::rat) ^ nat (bitlen \<lfloor>x\<rfloor> - 1) \<le> x"
    using of_int_floor_le [of x] by (rule order_trans)
  moreover have "(2::rat) powi (bitlen \<lfloor>x\<rfloor> - 1) = 2 ^ nat (bitlen \<lfloor>x\<rfloor> - 1)"
    using b1 by (simp add: power_int_def)
  ultimately show ?thesis using True by (simp add: ilog2_def)
next
  case False
  let ?n = "\<lceil>1 / x\<rceil> - 1"
  let ?b = "bitlen ?n"
  from False assms have "1 < 1 / x" by simp
  then have pos: "0 < ?n" by linarith
  have bn: "0 \<le> ?b" by (rule bitlen_nonneg)
  have "?n < 2 ^ nat ?b" using bitlen_bounds [OF pos] by blast
  then have "\<lceil>1 / x\<rceil> \<le> 2 ^ nat ?b" by linarith
  then have "(of_int \<lceil>1 / x\<rceil> :: rat) \<le> of_int (2 ^ nat ?b)"
    by (simp only: of_int_le_iff)
  then have "(of_int \<lceil>1 / x\<rceil> :: rat) \<le> 2 ^ nat ?b"
    by (simp only: of_int_power of_int_numeral)
  then have "1 / x \<le> 2 ^ nat ?b"
    using le_of_int_ceiling [of "1 / x"] by (rule order_trans [rotated])
  then have "1 \<le> 2 ^ nat ?b * x"
    using assms by (simp add: field_simps)
  then have "1 / 2 ^ nat ?b \<le> x"
    by (simp add: field_simps)
  moreover have "(2::rat) powi (- ?b) = 1 / 2 ^ nat ?b"
    using bn by (simp add: power_int_minus_divide power_int_def power_one_over)
  ultimately show ?thesis using False by (simp add: ilog2_def)
qed

lemma round_even_upper: "of_int (round_even y) \<le> y + 1 / 2"
proof -
  have "of_int \<lfloor>y\<rfloor> \<le> y" by (rule of_int_floor_le)
  then show ?thesis
    unfolding round_even_def Let_def by (simp; linarith)
qed

lemma round_even_lower: "y - 1 / 2 \<le> of_int (round_even y)"
proof -
  have "y < of_int \<lfloor>y\<rfloor> + 1" by linarith
  then show ?thesis
    unfolding round_even_def Let_def by (simp; linarith)
qed

lemma fl_upper:
  assumes "0 < x"
  shows "fl p x \<le> x + x / 2 ^ p"
proof -
  let ?e = "ilog2 x"
  let ?u = "(2::rat) powi (?e - int p + 1)"
  have u: "0 < ?u" by simp
  have fl: "fl p x = of_int (round_even (x / ?u)) * ?u"
    using assms by (simp add: fl_def Let_def)
  have "of_int (round_even (x / ?u)) * ?u \<le> (x / ?u + 1 / 2) * ?u"
    using round_even_upper [of "x / ?u"] u by (simp only: mult_le_cancel_right_pos)
  also have "\<dots> = x + ?u / 2"
    using u by (simp add: field_simps)
  also have "?u / 2 = 2 powi ?e / 2 ^ p"
    by (simp add: power_int_diff power_int_add field_simps)
  also have "\<dots> \<le> x / 2 ^ p"
    using ilog2_le [OF assms] by (simp add: divide_right_mono)
  finally show ?thesis using fl by simp
qed

lemma fl_pos:
  assumes "0 < x" and "0 < p"
  shows "0 < fl p x"
proof -
  let ?e = "ilog2 x"
  let ?u = "(2::rat) powi (?e - int p + 1)"
  have u: "0 < ?u" by simp
  have fl: "fl p x = of_int (round_even (x / ?u)) * ?u"
    using assms by (simp add: fl_def Let_def)
  have "2 powi ?e / ?u \<le> x / ?u"
    using ilog2_le [OF assms(1)] u by (simp add: divide_right_mono)
  moreover have "2 powi ?e / ?u = (2::rat) powi (int p - 1)"
    by (simp add: power_int_diff power_int_add field_simps)
  moreover have "(1::rat) \<le> 2 powi (int p - 1)"
    using assms(2) by (intro one_le_power_int) simp_all
  ultimately have "1 \<le> x / ?u" by linarith
  then have "(1 / 2 :: rat) \<le> of_int (round_even (x / ?u))"
    using round_even_lower [of "x / ?u"] by linarith
  then have "0 < round_even (x / ?u)"
    by (metis less_le_trans half_gt_zero_iff of_int_0_less_iff zero_less_one)
  then show ?thesis using fl u by simp
qed

section \<open>Dropped-frame accounting\<close>

lemma fl_zero: "fl p 0 = 0"
  by (simp add: fl_def)

lemma fl_lower:
  assumes "0 < x"
  shows "x - x / 2 ^ p \<le> fl p x"
proof -
  let ?e = "ilog2 x"
  let ?u = "(2::rat) powi (?e - int p + 1)"
  have u: "0 < ?u" by simp
  have fl: "fl p x = of_int (round_even (x / ?u)) * ?u"
    using assms by (simp add: fl_def Let_def)
  have "?u / 2 = 2 powi ?e / 2 ^ p"
    by (simp add: power_int_diff power_int_add field_simps)
  also have "\<dots> \<le> x / 2 ^ p"
    using ilog2_le [OF assms] by (simp add: divide_right_mono)
  finally have half: "?u / 2 \<le> x / 2 ^ p" .
  have "x - ?u / 2 = (x / ?u - 1 / 2) * ?u"
    using u by (simp add: field_simps)
  also have "\<dots> \<le> of_int (round_even (x / ?u)) * ?u"
    using round_even_lower [of "x / ?u"] u by (simp only: mult_le_cancel_right_pos)
  finally show ?thesis using fl half by linarith
qed

lemma fl_53_near:
  assumes "0 < x"
  shows "x - x / 16 \<le> fl 53 x" "fl 53 x \<le> x + x / 16"
proof -
  have "x / 2 ^ 53 \<le> x / 16"
    using assms by (intro divide_left_mono) simp_all
  then show "x - x / 16 \<le> fl 53 x" "fl 53 x \<le> x + x / 16"
    using fl_lower [OF assms, of 53] fl_upper [OF assms, of 53] by linarith+
qed

lemma fl_53_between:
  assumes "9 / 4 \<le> x" "x \<le> 11 / 4"
  shows "2 \<le> fl 53 x" "fl 53 x < 3"
proof -
  have "0 < x" using assms(1) by linarith
  from fl_53_near [OF this] show "2 \<le> fl 53 x" "fl 53 x < 3"
    using assms by linarith+
qed

lemma floor_between:
  assumes "9 / 4 \<le> (x::rat)" "x \<le> 11 / 4"
  shows "\<lfloor>x\<rfloor> = 2"
proof -
  have "2 \<le> x" "x < 3" using assms by linarith+
  then show ?thesis by (simp add: floor_eq_iff)
qed

lemma dropped_one:
  assumes "g_Initialized st" and "g_PerfFreq st \<noteq> 0" and "0 < g_TargetFps st"
    and near: "\<bar>frame_elapsed now st - 5 / 2 * targetFrameTime st\<bar> \<le> targetFrameTime st / 4"
  shows "\<exists>st'. Daro_EndFrame now st = Some st'
           \<and> g_DroppedFrames st' =
               g_DroppedFrames st + word_of_int (\<lfloor>frame_elapsed now st / targetFrameTime st\<rfloor> - 1)
           \<and> \<lfloor>frame_elapsed now st / targetFrameTime st\<rfloor> - 1 = 1"
proof -
  let ?T = "targetFrameTime st"
  let ?e = "frame_elapsed now st"
  have T: "0 < ?T"
    using assms(3) by (simp add: targetFrameTime_def ddiv_def fl_pos)
  have lo: "9 / 4 * ?T \<le> ?e" and hi: "?e \<le> 11 / 4 * ?T"
    using near by linarith+
  have e: "0 < ?e" using lo T by linarith
  have "0 < ?T * (3 / 2)" using T by simp
  then have "dmul ?T (3 / 2) \<le> ?T * (3 / 2) + ?T * (3 / 2) / 16"
    unfolding dmul_def by (rule fl_53_near)
  then have late: "dmul ?T (3 / 2) < ?e"
    using T lo by linarith
  have qlo: "9 / 4 \<le> ?e / ?T" and qhi: "?e / ?T \<le> 11 / 4"
    using T lo hi by (simp_all add: pos_le_divide_eq pos_divide_le_eq)
  have "2 \<le> ddiv ?e ?T" "ddiv ?e ?T < 3"
    unfolding ddiv_def using qlo qhi by (rule fl_53_between)+
  then have "trunc_double (ddiv ?e ?T) = 2"
    by (simp add: trunc_double_def floor_eq_iff)
  then have cnt: "int_of_double (ddiv ?e ?T) = 2"
    by (simp add: int_of_double_def)
  have one: "wrap32 1 = 1"
    by (simp add: wrap32_def)
  have fl2: "\<lfloor>?e / ?T\<rfloor> = 2"
    using qlo qhi by (rule floor_between)
  have fps: "g_TargetFps st \<noteq> 0" using assms(3) by simp
  show ?thesis
    using assms(1,2) fps late cnt fl2 one
    by (simp add: Daro_EndFrame_def Let_def)
qed

lemma product_near:
  assumes "0 < T"
  shows "\<bar>dmul (5 / 2) T - 5 / 2 * T\<bar> \<le> T / 4"
proof -
  have "0 < 5 / 2 * T" using assms by simp
  from fl_lower [OF this, of 53] fl_upper [OF this, of 53]
  have "5 / 2 * T - 5 / 2 * T / 2 ^ 53 \<le> dmul (5 / 2) T"
    "dmul (5 / 2) T \<le> 5 / 2 * T + 5 / 2 * T / 2 ^ 53"
    by (simp_all add: dmul_def)
  moreover have "5 / 2 * T / 2 ^ 53 \<le> T / 4"
    using assms by (simp add: field_simps)
  ultimately show ?thesis by linarith
qed

lemma sample_elapsed:
  "frame_elapsed 500000 sample_stats = dmul (5 / 2) (targetFrameTime sample_stats)"
  by code_simp

lemma sample_elapsed_inexact:
  "frame_elapsed 500000 sample_stats \<noteq> 5 / 2 * targetFrameTime sample_stats"
  by code_simp

text \<open>
  C9. When the engine is initialised and the target rate is positive, a call of
  \<open>Daro_EndFrame\<close> whose measured elapsed time is 2.5 times the target frame interval
  returns and adds \<open>floor(elapsed / targetInterval) - 1\<close>, which is 1, to the
  dropped-frames counter. Both times are the binary64 values the code computes, and
  "is 2.5 times" is read in both ways: the elapsed time is the binary64 product
  \<open>2.5 * targetFrameTime\<close>, or it lies within a quarter of an interval of the exact
  product (which the exact product itself does).
\<close>

theorem dropped_frames:
  assumes "g_Initialized st" and "g_PerfFreq st \<noteq> 0" and "0 < g_TargetFps st"
    and "frame_elapsed now st = dmul (5 / 2) (targetFrameTime st)
         \<or> \<bar>frame_elapsed now st - 5 / 2 * targetFrameTime st\<bar> \<le> targetFrameTime st / 4"
  shows "\<exists>st'. Daro_EndFrame now st = Some st'
           \<and> g_DroppedFrames st' =
               g_DroppedFrames st + word_of_int (\<lfloor>frame_elapsed now st / targetFrameTime st\<rfloor> - 1)
           \<and> \<lfloor>frame_elapsed now st / targetFrameTime st\<rfloor> - 1 = 1"
proof (rule dropped_one [OF assms(1-3)])
  have T: "0 < targetFrameTime st"
    using assms(3) by (simp add: targetFrameTime_def ddiv_def fl_pos)
  show "\<bar>frame_elapsed now st - 5 / 2 * targetFrameTime st\<bar> \<le> targetFrameTime st / 4"
    using assms(4) product_near [OF T] by auto
qed

theorem dropped_frames_witness:
  "\<exists>st'. Daro_EndFrame 500000 sample_stats = Some st'
       \<and> g_DroppedFrames st' = g_DroppedFrames sample_stats
           + word_of_int (\<lfloor>frame_elapsed 500000 sample_stats / targetFrameTime sample_stats\<rfloor> - 1)
       \<and> \<lfloor>frame_elapsed 500000 sample_stats / targetFrameTime sample_stats\<rfloor> - 1 = 1"
proof (rule dropped_frames)
  show "g_Initialized sample_stats" "g_PerfFreq sample_stats \<noteq> 0" "0 < g_TargetFps sample_stats"
    by (simp_all add: sample_stats_def)
  show "frame_elapsed 500000 sample_stats = dmul (5 / 2) (targetFrameTime sample_stats)
        \<or> \<bar>frame_elapsed 500000 sample_stats - 5 / 2 * targetFrameTime sample_stats\<bar>
            \<le> targetFrameTime sample_stats / 4"
    using sample_elapsed by simp
qed

section \<open>Circle rendering\<close>

lemma RenderCircle_cached:
  assumes "brush_cached st"
  shows "brush_cached (snd (RenderCircle layer env st))"
  using assms
  by (auto simp: RenderCircle_def brush_cached_def RecreateD2DTarget_def Let_def)

text \<open>
  C7, as the code has it. An active Circle layer is dispatched to \<open>RenderCircle\<close>, and
  with a Direct2D target and a brush (cached, or created now) the routine fills one
  ellipse centred at \<open>(posX, posY)\<close> whose two radii are \<open>min(sizeX, sizeY) * 0.5\<close>, with
  per-primitive antialiasing. Its colour is the layer's red, green and blue unchanged and
  its alpha multiplied by the layer's opacity: Direct2D takes a straight-alpha colour, and
  \<open>RenderText\<close> builds its brush colour the same way.
\<close>

theorem circle_fill:
  assumes "m_D2DRenderTarget st" and "brush_cached st"
    and "m_CachedShapeBrush st \<noteq> None \<or> create_brush_ok env"
  shows "fst (RenderCircle layer env st) =
           [FillEllipse (posX layer, posY layer)
              (fmul (min (sizeX layer) (sizeY layer)) (1 / 2))
              (fmul (min (sizeX layer) (sizeY layer)) (1 / 2))
              (colorR layer, colorG layer, colorB layer, fmul (colorA layer) (opacity layer))
              PER_PRIMITIVE]
       \<and> brush_cached (snd (RenderCircle layer env st))
       \<and> (active layer \<noteq> 0 \<and> layerType layer = DARO_TYPE_CIRCLE \<longrightarrow> RenderLayer layer = [Circle layer])"
proof (intro conjI)
  show "fst (RenderCircle layer env st) =
           [FillEllipse (posX layer, posY layer)
              (fmul (min (sizeX layer) (sizeY layer)) (1 / 2))
              (fmul (min (sizeX layer) (sizeY layer)) (1 / 2))
              (colorR layer, colorG layer, colorB layer, fmul (colorA layer) (opacity layer))
              PER_PRIMITIVE]"
    using assms by (auto simp: RenderCircle_def brush_cached_def Let_def)
  show "brush_cached (snd (RenderCircle layer env st))"
    using assms(2) by (rule RenderCircle_cached)
  show "active layer \<noteq> 0 \<and> layerType layer = DARO_TYPE_CIRCLE \<longrightarrow> RenderLayer layer = [Circle layer]"
    by (simp add: RenderLayer_def DARO_TYPE_CIRCLE_def DARO_TYPE_TEXT_def)
qed

lemma sample_circle_fields:
  "posX sample_circle = 10" "posY sample_circle = 20" "sizeX sample_circle = 100"
  "sizeY sample_circle = 60" "colorR sample_circle = 1" "colorG sample_circle = 1"
  "colorB sample_circle = 1" "colorA sample_circle = 1" "opacity sample_circle = 1 / 2"
  "active sample_circle = 1" "layerType sample_circle = DARO_TYPE_CIRCLE"
  by (simp_all add: sample_circle_def sample_typed_def)

lemma fmul_samples: "fmul 60 (1 / 2) = 30" "fmul 1 (1 / 2) = 1 / 2"
  by code_simp+

theorem circle_fill_witness:
  "fst (RenderCircle sample_circle sample_env d2d_initial) =
     [FillEllipse (10, 20) 30 30 (1, 1, 1, 1 / 2) PER_PRIMITIVE]
   \<and> brush_cached (snd (RenderCircle sample_circle sample_env d2d_initial))
   \<and> RenderLayer sample_circle = [Circle sample_circle]"
  using circle_fill [of d2d_initial sample_env sample_circle]
  by (simp add: d2d_initial_def sample_env_def brush_cached_def sample_circle_fields fmul_samples)

text \<open>
  The claim as stated fails for a white circle at half opacity: the fill is white with
  alpha one half, not every channel multiplied by the opacity.
\<close>

theorem circle_color_counterexample:
  "fst (RenderCircle sample_circle sample_env d2d_initial) =
     [FillEllipse (10, 20) 30 30 (1, 1, 1, 1 / 2) PER_PRIMITIVE]
   \<and> (1, 1, 1, 1 / 2) \<noteq>
       (fmul (colorR sample_circle) (opacity sample_circle),
        fmul (colorG sample_circle) (opacity sample_circle),
        fmul (colorB sample_circle) (opacity sample_circle),
        fmul (colorA sample_circle) (opacity sample_circle))"
  by (simp add: RenderCircle_def d2d_initial_def sample_env_def Let_def sample_circle_fields fmul_samples)

section \<open>The video manager: ids\<close>

lemma update_players_keys:
  "update_players now ps = Some ps' \<Longrightarrow> map fst ps' = map fst ps"
  by (induction now ps arbitrary: ps' rule: update_players.induct)
     (auto split: option.splits prod.splits)

lemma GetPlayer_None_iff: "GetPlayer m i = None \<longleftrightarrow> i \<notin> player_ids m"
  by (simp add: GetPlayer_def player_ids_def map_of_eq_None_iff)

lemma player_ids_update:
  "player_ids (m\<lparr>m_Players := AList.update i v (m_Players m)\<rparr>) = insert i (player_ids m)"
  by (simp add: player_ids_def dom_update)

lemma with_player_ids: "player_ids (with_player i f m) = player_ids m"
proof (cases "GetPlayer m i")
  case None
  then show ?thesis by (simp add: with_player_def)
next
  case (Some p)
  then have "i \<in> player_ids m"
    using GetPlayer_None_iff [of m i] by auto
  then show ?thesis
    using Some by (auto simp: with_player_def player_ids_update)
qed

lemma with_player_absent: "i \<notin> player_ids m \<Longrightarrow> with_player i f m = m"
  using GetPlayer_None_iff [of m i] by (simp add: with_player_def)

lemma LoadVideo_id:
  "fst (VideoManager_LoadVideo filePath env frequency now m) = 0
   \<or> 0 < sint (fst (VideoManager_LoadVideo filePath env frequency now m))"
  by (auto simp: VideoManager_LoadVideo_def Let_def split: prod.splits bool.splits)

lemma LoadVideo_zero_iff:
  "fst (VideoManager_LoadVideo filePath env frequency now m) = 0
   \<longleftrightarrow> \<not> load_succeeds filePath env frequency now m"
  by (auto simp: VideoManager_LoadVideo_def load_succeeds_def VideoPlayer_Initialize_def Let_def
      MAX_LOADED_VIDEOS_def split: prod.splits bool.splits)

lemma LoadVideo_failed_unchanged:
  "fst (VideoManager_LoadVideo filePath env frequency now m) = 0 \<Longrightarrow>
     snd (VideoManager_LoadVideo filePath env frequency now m) = m"
  by (auto simp: VideoManager_LoadVideo_def Let_def split: prod.splits bool.splits if_splits)

lemma LoadVideo_ids:
  "player_ids (snd (VideoManager_LoadVideo filePath env frequency now m))
     \<subseteq> insert (fst (VideoManager_LoadVideo filePath env frequency now m)) (player_ids m)"
proof (cases "fst (VideoManager_LoadVideo filePath env frequency now m) = 0")
  case True
  then show ?thesis by (auto simp: LoadVideo_failed_unchanged)
next
  case False
  then show ?thesis
    by (simp add: VideoManager_LoadVideo_def Let_def player_ids_def dom_update
          split: prod.splits bool.splits if_splits)
qed


lemma Initialize_ids:
  "player_ids (snd (VideoManager_Initialize dev ctx startup_ok m)) = player_ids m"
  by (simp add: VideoManager_Initialize_def player_ids_def)

lemma Shutdown_ids: "player_ids (VideoManager_Shutdown m) = {}"
  by (simp add: VideoManager_Shutdown_def player_ids_def)

lemma UnloadVideo_ids: "player_ids (VideoManager_UnloadVideo i m) \<subseteq> player_ids m"
  using dom_delete_subset [of i "m_Players m"]
  by (simp add: VideoManager_UnloadVideo_def player_ids_def)

lemma manager_step_ok:
  assumes "history_ok s" and "manager_step c s = Some s'"
  shows "history_ok s'"
proof -
  obtain m ids where s: "s = (m, ids)" by (cases s)
  have inv: "player_ids m \<subseteq> {i \<in> set ids. i \<noteq> 0}" "\<forall>i \<in> set ids. i = 0 \<or> 0 < sint i"
    using assms(1) s by (simp_all add: history_ok_def)
  show ?thesis
  proof (cases c)
    case (Call_Initialize dev ctx startup_ok)
    then show ?thesis
      using assms(2) inv s by (auto simp: history_ok_def Initialize_ids)
  next
    case Call_Shutdown
    then show ?thesis
      using assms(2) inv s by (auto simp: history_ok_def Shutdown_ids)
  next
    case (Call_LoadVideo filePath env frequency now)
    let ?r = "VideoManager_LoadVideo filePath env frequency now m"
    have s': "s' = (snd ?r, ids @ [fst ?r])"
      using assms(2) s Call_LoadVideo by (simp split: prod.splits)
    have id: "fst ?r = 0 \<or> 0 < sint (fst ?r)" by (rule LoadVideo_id)
    have keys: "player_ids (snd ?r) \<subseteq> insert (fst ?r) (player_ids m)" by (rule LoadVideo_ids)
    have "player_ids (snd ?r) \<subseteq> {i \<in> set (ids @ [fst ?r]). i \<noteq> 0}"
    proof (cases "fst ?r = 0")
      case True
      then show ?thesis using inv(1) by (auto simp: LoadVideo_failed_unchanged)
    next
      case False
      then show ?thesis using keys inv(1) by auto
    qed
    then show ?thesis using s' id inv(2) by (auto simp: history_ok_def)
  next
    case (Call_UnloadVideo videoId)
    then have s': "s' = (VideoManager_UnloadVideo videoId m, ids)"
      using assms(2) s by simp
    have "player_ids (VideoManager_UnloadVideo videoId m) \<subseteq> {i \<in> set ids. i \<noteq> 0}"
      using inv(1) UnloadVideo_ids [of videoId m] by (rule order_trans [rotated])
    then show ?thesis
      using s' inv(2) by (simp add: history_ok_def)
  next
    case (Call_UpdateAll now)
    then obtain ps where ps: "update_players now (m_Players m) = Some ps"
      and s': "s' = (m\<lparr>m_Players := ps\<rparr>, ids)"
      using assms(2) s by (auto simp: UpdateAll_def split: option.splits)
    have "set (map fst ps) = set (map fst (m_Players m))"
      using update_players_keys [OF ps] by simp
    then have "player_ids (m\<lparr>m_Players := ps\<rparr>) = player_ids m"
      by (simp add: player_ids_def)
    then show ?thesis using s' inv by (simp add: history_ok_def)
  next
    case (Call_PlayVideo videoId now)
    then show ?thesis
      using assms(2) inv s by (auto simp: history_ok_def PlayVideo_def with_player_ids)
  next
    case (Call_PauseVideo videoId)
    then show ?thesis
      using assms(2) inv s by (auto simp: history_ok_def PauseVideo_def with_player_ids)
  next
    case (Call_StopVideo videoId)
    then show ?thesis
      using assms(2) inv s by (auto simp: history_ok_def StopVideo_def with_player_ids)
  next
    case (Call_SeekVideo videoId frame)
    then show ?thesis
      using assms(2) inv s by (auto simp: history_ok_def SeekVideo_def with_player_ids)
  next
    case (Call_SeekVideoTime videoId seconds)
    then show ?thesis
      using assms(2) inv s by (auto simp: history_ok_def SeekVideoTime_def with_player_ids)
  next
    case (Call_SetVideoLoop videoId loop)
    then show ?thesis
      using assms(2) inv s by (auto simp: history_ok_def SetVideoLoop_def with_player_ids)
  next
    case (Call_SetVideoAlpha videoId alpha)
    then show ?thesis
      using assms(2) inv s by (auto simp: history_ok_def Renderer_SetVideoAlpha_def with_player_ids)
  qed
qed

lemma run_manager_ok:
  "history_ok s \<Longrightarrow> run_manager cs s = Some s' \<Longrightarrow> history_ok s'"
  by (induction cs arbitrary: s) (auto split: option.splits dest: manager_step_ok)

lemma history_ok_initial: "history_ok (new_manager, [])"
  by (simp add: history_ok_def new_manager_def player_ids_def)

lemmas sample_video_defs = sample_history_def sample_file_def sample_mf_def sample_ff_def
  sample_stream_def sample_packets_def

lemmas load_defs = VideoManager_LoadVideo_def VideoManager_Initialize_def new_manager_def
  VideoPlayer_Initialize_def new_player_def LoadVideo_def load_prepared_def UnloadVideoInternal_def
  LoadVideoMF_def CreateTexture_def DecodeNextFrame_def copy_to_texture_def
  MAX_LOADED_VIDEOS_def MAX_VIDEO_FILE_SIZE_def MAX_VIDEO_DIMENSION_def INT_MAX_def
  mf_rate_def mf_frame_duration_def

lemma sample_run: "\<exists>m. run_manager sample_history (new_manager, []) = Some (m, [1, 0])"
  by (simp add: sample_video_defs load_defs PauseVideo_def with_player_def GetPlayer_def
      Pause_def Let_def)

lemma unknown_id_queries:
  assumes "i \<notin> player_ids m"
  shows "GetPlayer m i = None" "\<not> IsVideoPlaying i m" "GetVideoFrame i m = 0"
    "GetVideoTotalFrames i m = 0"
  using assms GetPlayer_None_iff [of m i]
  by (simp_all add: IsVideoPlaying_def GetVideoFrame_def GetVideoTotalFrames_def)

text \<open>
  C10. After any history of calls on the manager, starting from the manager as it is
  constructed: every value a \<open>LoadVideo\<close> call returned is 0 or strictly positive; the
  next \<open>LoadVideo\<close> returns 0 exactly when it takes one of its failure exits (manager not
  initialised, null path, 32 players loaded, or the player's own \<open>LoadVideo\<close> failing,
  which it does on its path and file checks and when both backends fail); and for an id
  that no load returned as a non-zero value, \<open>GetPlayer\<close> yields null, every control
  call leaves the manager as it is and every query gives its default.
\<close>

theorem video_ids:
  assumes "run_manager calls (new_manager, []) = Some (m, ids)"
  shows "(\<forall>i \<in> set ids. i = 0 \<or> 0 < sint i)
       \<and> (fst (VideoManager_LoadVideo filePath env frequency now m) = 0
            \<longleftrightarrow> \<not> load_succeeds filePath env frequency now m)
       \<and> (\<forall>i. i \<notin> {j \<in> set ids. j \<noteq> 0} \<longrightarrow>
             GetPlayer m i = None
             \<and> PlayVideo i now m = m \<and> PauseVideo i m = m \<and> StopVideo i m = m
             \<and> SeekVideo i frame m = m \<and> SeekVideoTime i seconds m = m
             \<and> SetVideoLoop i loop m = m \<and> Renderer_SetVideoAlpha i alpha m = m
             \<and> \<not> IsVideoPlaying i m \<and> GetVideoFrame i m = 0 \<and> GetVideoTotalFrames i m = 0)"
proof -
  have ok: "history_ok (m, ids)"
    using history_ok_initial assms by (rule run_manager_ok)
  then have pos: "\<forall>i \<in> set ids. i = 0 \<or> 0 < sint i"
    and keys: "player_ids m \<subseteq> {j \<in> set ids. j \<noteq> 0}"
    by (simp_all add: history_ok_def)
  have "GetPlayer m i = None
         \<and> PlayVideo i now m = m \<and> PauseVideo i m = m \<and> StopVideo i m = m
         \<and> SeekVideo i frame m = m \<and> SeekVideoTime i seconds m = m
         \<and> SetVideoLoop i loop m = m \<and> Renderer_SetVideoAlpha i alpha m = m
         \<and> \<not> IsVideoPlaying i m \<and> GetVideoFrame i m = 0 \<and> GetVideoTotalFrames i m = 0"
    if "i \<notin> {j \<in> set ids. j \<noteq> 0}" for i
  proof -
    from that keys have absent: "i \<notin> player_ids m" by blast
    show ?thesis
      using unknown_id_queries [OF absent] with_player_absent [OF absent]
      by (simp add: PlayVideo_def PauseVideo_def StopVideo_def SeekVideo_def SeekVideoTime_def
          SetVideoLoop_def Renderer_SetVideoAlpha_def)
  qed
  then show ?thesis
    using pos LoadVideo_zero_iff by blast
qed

theorem video_ids_witness:
  "\<exists>m. run_manager sample_history (new_manager, []) = Some (m, [1, 0])
       \<and> 0 < sint (1 :: video_id)
       \<and> GetPlayer m 7 = None \<and> PlayVideo 7 0 m = m \<and> StopVideo 7 m = m
       \<and> \<not> IsVideoPlaying 7 m \<and> GetVideoFrame 7 m = 0"
proof -
  obtain m where run: "run_manager sample_history (new_manager, []) = Some (m, [1, 0])"
    using sample_run by blast
  have "(7 :: video_id) \<notin> {j \<in> set [1, 0]. j \<noteq> 0}" by simp
  then have "GetPlayer m 7 = None \<and> PlayVideo 7 0 m = m \<and> StopVideo 7 m = m
       \<and> \<not> IsVideoPlaying 7 m \<and> GetVideoFrame 7 m = 0"
    using video_ids [OF run, of _ _ _ 0] by blast
  moreover have "0 < sint (1 :: video_id)" by simp
  ultimately show ?thesis using run by blast
qed

section \<open>The video player: what each routine leaves alone\<close>

lemma copy_to_texture_keeps [simp]:
  "m_Reader (copy_to_texture pic p) = m_Reader p"
  "m_FFmpegDecoder (copy_to_texture pic p) = m_FFmpegDecoder p"
  "m_UsingFFmpeg (copy_to_texture pic p) = m_UsingFFmpeg p"
  "m_Loaded (copy_to_texture pic p) = m_Loaded p"
  "m_Playing (copy_to_texture pic p) = m_Playing p"
  "m_Loop (copy_to_texture pic p) = m_Loop p"
  "m_EndOfStream (copy_to_texture pic p) = m_EndOfStream p"
  "m_CurrentFrame (copy_to_texture pic p) = m_CurrentFrame p"
  "m_CurrentTime (copy_to_texture pic p) = m_CurrentTime p"
  "m_FrameRate (copy_to_texture pic p) = m_FrameRate p"
  "m_FrameDuration (copy_to_texture pic p) = m_FrameDuration p"
  "m_AccumulatedTime (copy_to_texture pic p) = m_AccumulatedTime p"
  "m_TotalFrames (copy_to_texture pic p) = m_TotalFrames p"
  "m_LastFrameTime (copy_to_texture pic p) = m_LastFrameTime p"
  "VideoPlayer.m_Width (copy_to_texture pic p) = VideoPlayer.m_Width p"
  "VideoPlayer.m_Height (copy_to_texture pic p) = VideoPlayer.m_Height p"
  by (simp_all add: copy_to_texture_def)

lemma decode_and_copy_keeps [simp]:
  "m_Reader (snd (decode_and_copy p)) = m_Reader p"
  "m_UsingFFmpeg (snd (decode_and_copy p)) = m_UsingFFmpeg p"
  "m_Loaded (snd (decode_and_copy p)) = m_Loaded p"
  "m_Playing (snd (decode_and_copy p)) = m_Playing p"
  "m_Loop (snd (decode_and_copy p)) = m_Loop p"
  "m_EndOfStream (snd (decode_and_copy p)) = m_EndOfStream p"
  "m_CurrentFrame (snd (decode_and_copy p)) = m_CurrentFrame p"
  "m_CurrentTime (snd (decode_and_copy p)) = m_CurrentTime p"
  "m_FrameRate (snd (decode_and_copy p)) = m_FrameRate p"
  "m_FrameDuration (snd (decode_and_copy p)) = m_FrameDuration p"
  "m_AccumulatedTime (snd (decode_and_copy p)) = m_AccumulatedTime p"
  "m_TotalFrames (snd (decode_and_copy p)) = m_TotalFrames p"
  "m_LastFrameTime (snd (decode_and_copy p)) = m_LastFrameTime p"
  "VideoPlayer.m_Width (snd (decode_and_copy p)) = VideoPlayer.m_Width p"
  "VideoPlayer.m_Height (snd (decode_and_copy p)) = VideoPlayer.m_Height p"
  by (simp_all add: decode_and_copy_def Let_def split: option.splits prod.splits)


lemma DecodeNextFrame_keeps [simp]:
  "m_FFmpegDecoder (snd (DecodeNextFrame p)) = m_FFmpegDecoder p"
  "m_UsingFFmpeg (snd (DecodeNextFrame p)) = m_UsingFFmpeg p"
  "m_Loaded (snd (DecodeNextFrame p)) = m_Loaded p"
  "m_Playing (snd (DecodeNextFrame p)) = m_Playing p"
  "m_Loop (snd (DecodeNextFrame p)) = m_Loop p"
  "m_FrameRate (snd (DecodeNextFrame p)) = m_FrameRate p"
  "m_FrameDuration (snd (DecodeNextFrame p)) = m_FrameDuration p"
  "m_AccumulatedTime (snd (DecodeNextFrame p)) = m_AccumulatedTime p"
  "m_TotalFrames (snd (DecodeNextFrame p)) = m_TotalFrames p"
  "m_LastFrameTime (snd (DecodeNextFrame p)) = m_LastFrameTime p"
  "VideoPlayer.m_Width (snd (DecodeNextFrame p)) = VideoPlayer.m_Width p"
  "VideoPlayer.m_Height (snd (DecodeNextFrame p)) = VideoPlayer.m_Height p"
  by (simp_all add: DecodeNextFrame_def Let_def split: option.splits list.splits mf_sample.splits)


lemma frame_decoded_keeps [simp]:
  "m_Reader (frame_decoded p) = m_Reader p"
  "m_FFmpegDecoder (frame_decoded p) = m_FFmpegDecoder p"
  "m_UsingFFmpeg (frame_decoded p) = m_UsingFFmpeg p"
  "m_Loaded (frame_decoded p) = m_Loaded p"
  "m_Playing (frame_decoded p) = m_Playing p"
  "m_Loop (frame_decoded p) = m_Loop p"
  "m_EndOfStream (frame_decoded p) = m_EndOfStream p"
  "m_FrameRate (frame_decoded p) = m_FrameRate p"
  "m_FrameDuration (frame_decoded p) = m_FrameDuration p"
  "m_AccumulatedTime (frame_decoded p) = m_AccumulatedTime p"
  "m_CurrentFrame (frame_decoded p) = wrap32 (m_CurrentFrame p + 1)"
  "texture_pixels (frame_decoded p) = texture_pixels p"
  "m_TotalFrames (frame_decoded p) = m_TotalFrames p"
  "m_LastFrameTime (frame_decoded p) = m_LastFrameTime p"
  by (simp_all add: frame_decoded_def Let_def)

lemma SeekToFrameInternal_keeps [simp]:
  "m_UsingFFmpeg (SeekToFrameInternal frame p) = m_UsingFFmpeg p"
  "m_Loaded (SeekToFrameInternal frame p) = m_Loaded p"
  "m_Playing (SeekToFrameInternal frame p) = m_Playing p"
  "m_Loop (SeekToFrameInternal frame p) = m_Loop p"
  "m_FrameRate (SeekToFrameInternal frame p) = m_FrameRate p"
  "m_FrameDuration (SeekToFrameInternal frame p) = m_FrameDuration p"
  "m_AccumulatedTime (SeekToFrameInternal frame p) = m_AccumulatedTime p"
  "m_TotalFrames (SeekToFrameInternal frame p) = m_TotalFrames p"
  by (simp_all add: SeekToFrameInternal_def Let_def split: option.splits)

lemma SeekToFrameInternal_route:
  "m_UsingFFmpeg p \<Longrightarrow> m_Reader (SeekToFrameInternal frame p) = m_Reader p"
  "\<not> m_UsingFFmpeg p \<Longrightarrow> m_FFmpegDecoder (SeekToFrameInternal frame p) = m_FFmpegDecoder p"
  by (simp_all add: SeekToFrameInternal_def Let_def split: option.splits)

lemma Stop_route:
  "m_UsingFFmpeg p \<Longrightarrow> m_Reader (Stop p) = m_Reader p"
  "\<not> m_UsingFFmpeg p \<Longrightarrow> m_FFmpegDecoder (Stop p) = m_FFmpegDecoder p"
  by (simp_all add: Stop_def Let_def split: option.splits)

lemma on_end_of_stream_keeps [simp]:
  "m_UsingFFmpeg (on_end_of_stream p) = m_UsingFFmpeg p"
  "m_Loaded (on_end_of_stream p) = m_Loaded p"
  "m_Loop (on_end_of_stream p) = m_Loop p"
  "m_AccumulatedTime (on_end_of_stream p) = m_AccumulatedTime p"
  "m_FrameDuration (on_end_of_stream p) = m_FrameDuration p"
  by (simp_all add: on_end_of_stream_def)

lemma on_end_of_stream_route:
  "m_UsingFFmpeg p \<Longrightarrow> m_Reader (on_end_of_stream p) = m_Reader p"
  "\<not> m_UsingFFmpeg p \<Longrightarrow> m_FFmpegDecoder (on_end_of_stream p) = m_FFmpegDecoder p"
  by (simp_all add: on_end_of_stream_def SeekToFrameInternal_route)

lemma ffmpeg_loop_route_aux:
  assumes run: "ffmpeg_loop p0 decoded0 = Some r0"
  shows "m_UsingFFmpeg p0 \<longrightarrow> m_Reader (snd r0) = m_Reader p0 \<and> m_UsingFFmpeg (snd r0)"
proof (rule ffmpeg_loop.raw_induct
    [where P = "\<lambda>p decoded r. m_UsingFFmpeg p \<longrightarrow> m_Reader (snd r) = m_Reader p \<and> m_UsingFFmpeg (snd r)",
     OF _ run], rule impI)
  fix loop :: "VideoPlayer \<Rightarrow> bool \<Rightarrow> (bool \<times> VideoPlayer) option"
    and p :: VideoPlayer and decoded :: bool and r :: "bool \<times> VideoPlayer"
  let ?p0 = "p\<lparr>m_AccumulatedTime := dsub (m_AccumulatedTime p) (m_FrameDuration p)\<rparr>"
  assume IH: "\<And>q b y. loop q b = Some y \<Longrightarrow>
                m_UsingFFmpeg q \<longrightarrow> m_Reader (snd y) = m_Reader q \<and> m_UsingFFmpeg (snd y)"
    and body: "(if m_FrameDuration p \<le> m_AccumulatedTime p \<and> \<not> m_EndOfStream p
                then case m_FFmpegDecoder p of None \<Rightarrow> None
                     | Some d \<Rightarrow>
                         (case decode_and_copy ?p0 of
                            (ok, p1) \<Rightarrow>
                              if ok then loop (frame_decoded p1) True
                              else if (case m_FFmpegDecoder p1 of None \<Rightarrow> False
                                       | Some d' \<Rightarrow> ff_EndOfStream d')
                                then Some (decoded, on_end_of_stream (p1\<lparr>m_EndOfStream := True\<rparr>))
                              else loop p1 decoded)
                else Some (decoded, p)) = Some r"
    and using_ff: "m_UsingFFmpeg p"
  show "m_Reader (snd r) = m_Reader p \<and> m_UsingFFmpeg (snd r)"
  proof (cases "m_FrameDuration p \<le> m_AccumulatedTime p \<and> \<not> m_EndOfStream p")
    case False
    then show ?thesis using body using_ff by auto
  next
    case True
    obtain ok p1 where dc: "decode_and_copy ?p0 = (ok, p1)" by (cases "decode_and_copy ?p0")
    then have p1: "p1 = snd (decode_and_copy ?p0)" by simp
    have keep: "m_Reader p1 = m_Reader p" "m_UsingFFmpeg p1"
      using using_ff by (simp_all add: p1)
    have rest: "(if ok then loop (frame_decoded p1) True
              else if (case m_FFmpegDecoder p1 of None \<Rightarrow> False | Some d' \<Rightarrow> ff_EndOfStream d')
                then Some (decoded, on_end_of_stream (p1\<lparr>m_EndOfStream := True\<rparr>))
              else loop p1 decoded) = Some r"
      using body True dc by (auto split: option.splits)
    show ?thesis
    proof (cases ok)
      case True
      then have "loop (frame_decoded p1) True = Some r" using rest by simp
      then show ?thesis using IH keep by fastforce
    next
      case False
      note nok = this
      show ?thesis
      proof (cases "case m_FFmpegDecoder p1 of None \<Rightarrow> False | Some d' \<Rightarrow> ff_EndOfStream d'")
        case True
        then have "r = (decoded, on_end_of_stream (p1\<lparr>m_EndOfStream := True\<rparr>))"
          using rest nok by simp
        then show ?thesis using keep by (simp add: on_end_of_stream_route)
      next
        case False
        then have "loop p1 decoded = Some r" using rest nok by simp
        then show ?thesis using IH keep by fastforce
      qed
    qed
  qed
qed

lemma ffmpeg_loop_route:
  assumes "ffmpeg_loop p decoded = Some r" and "m_UsingFFmpeg p"
  shows "m_Reader (snd r) = m_Reader p \<and> m_UsingFFmpeg (snd r)"
  using ffmpeg_loop_route_aux [OF assms(1)] assms(2) by blast

lemma mf_loop_route_aux:
  assumes run: "mf_loop p0 decoded0 = Some r0"
  shows "\<not> m_UsingFFmpeg p0 \<longrightarrow>
           m_FFmpegDecoder (snd r0) = m_FFmpegDecoder p0 \<and> \<not> m_UsingFFmpeg (snd r0)"
proof (rule mf_loop.raw_induct
    [where P = "\<lambda>p decoded r. \<not> m_UsingFFmpeg p \<longrightarrow>
                  m_FFmpegDecoder (snd r) = m_FFmpegDecoder p \<and> \<not> m_UsingFFmpeg (snd r)",
     OF _ run], rule impI)
  fix loop :: "VideoPlayer \<Rightarrow> bool \<Rightarrow> (bool \<times> VideoPlayer) option"
    and p :: VideoPlayer and decoded :: bool and r :: "bool \<times> VideoPlayer"
  let ?p0 = "p\<lparr>m_AccumulatedTime := dsub (m_AccumulatedTime p) (m_FrameDuration p)\<rparr>"
  assume IH: "\<And>q b y. loop q b = Some y \<Longrightarrow>
                \<not> m_UsingFFmpeg q \<longrightarrow>
                  m_FFmpegDecoder (snd y) = m_FFmpegDecoder q \<and> \<not> m_UsingFFmpeg (snd y)"
    and body: "(if m_FrameDuration p \<le> m_AccumulatedTime p \<and> \<not> m_EndOfStream p
                then case DecodeNextFrame ?p0 of
                       (ok, p1) \<Rightarrow>
                         if m_EndOfStream p1 then Some (ok, on_end_of_stream p1) else loop p1 ok
                else Some (decoded, p)) = Some r"
    and not_ff: "\<not> m_UsingFFmpeg p"
  show "m_FFmpegDecoder (snd r) = m_FFmpegDecoder p \<and> \<not> m_UsingFFmpeg (snd r)"
  proof (cases "m_FrameDuration p \<le> m_AccumulatedTime p \<and> \<not> m_EndOfStream p")
    case False
    then show ?thesis using body not_ff by auto
  next
    case True
    obtain ok p1 where dc: "DecodeNextFrame ?p0 = (ok, p1)" by (cases "DecodeNextFrame ?p0")
    then have p1: "p1 = snd (DecodeNextFrame ?p0)" by simp
    have keep: "m_FFmpegDecoder p1 = m_FFmpegDecoder p" "\<not> m_UsingFFmpeg p1"
      using not_ff by (simp_all add: p1)
    have rest: "(if m_EndOfStream p1 then Some (ok, on_end_of_stream p1) else loop p1 ok) = Some r"
      using body True dc by simp
    show ?thesis
    proof (cases "m_EndOfStream p1")
      case True
      then have "r = (ok, on_end_of_stream p1)" using rest by simp
      then show ?thesis using keep by (simp add: on_end_of_stream_route)
    next
      case False
      then have "loop p1 ok = Some r" using rest by simp
      then show ?thesis using IH keep by fastforce
    qed
  qed
qed

lemma mf_loop_route:
  assumes "mf_loop p decoded = Some r" and "\<not> m_UsingFFmpeg p"
  shows "m_FFmpegDecoder (snd r) = m_FFmpegDecoder p \<and> \<not> m_UsingFFmpeg (snd r)"
  using mf_loop_route_aux [OF assms(1)] assms(2) by blast

lemma UpdateFrame_route:
  assumes "UpdateFrame now p = Some (b, p')"
  shows "m_UsingFFmpeg p \<and> m_FFmpegDecoder p \<noteq> None \<longrightarrow> m_Reader p' = m_Reader p"
    and "\<not> m_UsingFFmpeg p \<longrightarrow> m_FFmpegDecoder p' = m_FFmpegDecoder p"
proof -
  let ?p1 = "p\<lparr>m_LastFrameTime := now,
                m_AccumulatedTime := dadd (m_AccumulatedTime p) (player_elapsed now p)\<rparr>"
  show "m_UsingFFmpeg p \<and> m_FFmpegDecoder p \<noteq> None \<longrightarrow> m_Reader p' = m_Reader p"
    using assms ffmpeg_loop_route [of ?p1 False "(b, p')"]
    by (auto simp: UpdateFrame_def Let_def split: if_splits)
  show "\<not> m_UsingFFmpeg p \<longrightarrow> m_FFmpegDecoder p' = m_FFmpegDecoder p"
    using assms mf_loop_route [of ?p1 False "(b, p')"]
    by (auto simp: UpdateFrame_def Let_def split: if_splits)
qed

section \<open>The video player: passes through the two loops\<close>

lemma wrap32_id:
  assumes "- (2 ^ 31) \<le> i" "i < 2 ^ 31"
  shows "wrap32 i = i"
  using assms by (simp add: wrap32_def sint_sbintrunc' signed_take_bit_int_eq_self_iff)

lemma decode_picture:
  assumes "m_FFmpegDecoder q = Some d" "ff_Opened d" "\<not> ff_EndOfStream d"
    "ff_packets d = Picture pic # ps"
  shows "fst (decode_and_copy q)"
    "m_FFmpegDecoder (snd (decode_and_copy q))
       = Some (d\<lparr>ff_packets := ps, ff_OutputBuffer := Some pic\<rparr>)"
  using assms by (simp_all add: decode_and_copy_def FFmpeg_DecodeNextFrame_def Let_def)

lemma decode_end:
  assumes "m_FFmpegDecoder q = Some d" "ff_Opened d" "\<not> ff_EndOfStream d" "ff_packets d = []"
  shows "\<not> fst (decode_and_copy q)"
    "m_FFmpegDecoder (snd (decode_and_copy q))
       = Some (d\<lparr>ff_EndOfStream := True, ff_packets := []\<rparr>)"
  using assms by (simp_all add: decode_and_copy_def FFmpeg_DecodeNextFrame_def Let_def)

lemma ffmpeg_loop_unroll:
  assumes "m_FFmpegDecoder p = Some d" "ff_Opened d" "\<not> ff_EndOfStream d" "\<not> m_EndOfStream p"
    "ff_packets d = map Picture pics @ rest" "n \<le> length pics"
    "\<forall>i<n. m_FrameDuration p \<le> clock_after i (m_AccumulatedTime p) (m_FrameDuration p)"
    "0 \<le> m_CurrentFrame p" "m_CurrentFrame p + int n < 2 ^ 31"
  shows "\<exists>q d'. ffmpeg_loop p decoded = ffmpeg_loop q (decoded \<or> 0 < n)
           \<and> m_AccumulatedTime q = clock_after n (m_AccumulatedTime p) (m_FrameDuration p)
           \<and> m_FrameDuration q = m_FrameDuration p
           \<and> m_CurrentFrame q = m_CurrentFrame p + int n
           \<and> m_FFmpegDecoder q = Some d' \<and> ff_Opened d' \<and> \<not> ff_EndOfStream d'
           \<and> ff_packets d' = map Picture (drop n pics) @ rest
           \<and> \<not> m_EndOfStream q
           \<and> m_Playing q = m_Playing p \<and> m_Loop q = m_Loop p \<and> m_Loaded q = m_Loaded p
           \<and> m_UsingFFmpeg q = m_UsingFFmpeg p \<and> m_Reader q = m_Reader p
           \<and> m_FrameRate q = m_FrameRate p \<and> m_TotalFrames q = m_TotalFrames p
           \<and> m_LastFrameTime q = m_LastFrameTime p"
  using assms
proof (induction n arbitrary: p d pics decoded)
  case 0
  then show ?case by auto
next
  case (Suc n)
  from Suc.prems(6) obtain pic pics' where pics: "pics = pic # pics'"
    by (cases pics) auto
  let ?p0 = "p\<lparr>m_AccumulatedTime := dsub (m_AccumulatedTime p) (m_FrameDuration p)\<rparr>"
  let ?d1 = "d\<lparr>ff_packets := map Picture pics' @ rest, ff_OutputBuffer := Some pic\<rparr>"
  let ?p1 = "frame_decoded (snd (decode_and_copy ?p0))"
  have dec: "m_FFmpegDecoder ?p0 = Some d" "ff_packets d = Picture pic # (map Picture pics' @ rest)"
    using Suc.prems(1,5) by (simp_all add: pics)
  have ok: "fst (decode_and_copy ?p0)"
    and d1: "m_FFmpegDecoder (snd (decode_and_copy ?p0)) = Some ?d1"
    using decode_picture [OF dec(1) Suc.prems(2,3) dec(2)] by simp_all
  have clock0: "m_FrameDuration p \<le> m_AccumulatedTime p"
    using Suc.prems(7) by (auto dest: spec [of _ 0])
  have step: "ffmpeg_loop p decoded = ffmpeg_loop ?p1 True"
    using clock0 Suc.prems(1,4) ok
    by (subst ffmpeg_loop.simps) (simp add: split_beta)
  have clock: "\<forall>i<n. m_FrameDuration ?p1 \<le> clock_after i (m_AccumulatedTime ?p1) (m_FrameDuration ?p1)"
    using Suc.prems(7) by (auto dest: spec [of _ "Suc i" for i])
  have next_frame: "wrap32 (m_CurrentFrame p + 1) = m_CurrentFrame p + 1"
    using Suc.prems(8,9) by (intro wrap32_id) simp_all
  have "\<exists>q d'. ffmpeg_loop ?p1 True = ffmpeg_loop q (True \<or> 0 < n)
           \<and> m_AccumulatedTime q = clock_after n (m_AccumulatedTime ?p1) (m_FrameDuration ?p1)
           \<and> m_FrameDuration q = m_FrameDuration ?p1
           \<and> m_CurrentFrame q = m_CurrentFrame ?p1 + int n
           \<and> m_FFmpegDecoder q = Some d' \<and> ff_Opened d' \<and> \<not> ff_EndOfStream d'
           \<and> ff_packets d' = map Picture (drop n pics') @ rest
           \<and> \<not> m_EndOfStream q
           \<and> m_Playing q = m_Playing ?p1 \<and> m_Loop q = m_Loop ?p1 \<and> m_Loaded q = m_Loaded ?p1
           \<and> m_UsingFFmpeg q = m_UsingFFmpeg ?p1 \<and> m_Reader q = m_Reader ?p1
           \<and> m_FrameRate q = m_FrameRate ?p1 \<and> m_TotalFrames q = m_TotalFrames ?p1
           \<and> m_LastFrameTime q = m_LastFrameTime ?p1"
  proof (rule Suc.IH [of ?p1 ?d1 pics' True])
    show "m_FFmpegDecoder ?p1 = Some ?d1" using d1 by simp
    show "ff_Opened ?d1" "\<not> ff_EndOfStream ?d1" using Suc.prems(2,3) by simp_all
    show "\<not> m_EndOfStream ?p1" using Suc.prems(4) by simp
    show "ff_packets ?d1 = map Picture pics' @ rest" by simp
    show "n \<le> length pics'" using Suc.prems(6) by (simp add: pics)
    show "\<forall>i<n. m_FrameDuration ?p1 \<le> clock_after i (m_AccumulatedTime ?p1) (m_FrameDuration ?p1)"
      by (rule clock)
    show "0 \<le> m_CurrentFrame ?p1" "m_CurrentFrame ?p1 + int n < 2 ^ 31"
      using Suc.prems(8,9) by (simp_all add: next_frame)
  qed
  then obtain q d' where q: "ffmpeg_loop ?p1 True = ffmpeg_loop q (True \<or> 0 < n)"
           "m_AccumulatedTime q = clock_after n (m_AccumulatedTime ?p1) (m_FrameDuration ?p1)"
           "m_FrameDuration q = m_FrameDuration ?p1"
           "m_CurrentFrame q = m_CurrentFrame ?p1 + int n"
           "m_FFmpegDecoder q = Some d'" "ff_Opened d'" "\<not> ff_EndOfStream d'"
           "ff_packets d' = map Picture (drop n pics') @ rest"
           "\<not> m_EndOfStream q"
           "m_Playing q = m_Playing ?p1" "m_Loop q = m_Loop ?p1" "m_Loaded q = m_Loaded ?p1"
           "m_UsingFFmpeg q = m_UsingFFmpeg ?p1" "m_Reader q = m_Reader ?p1"
           "m_FrameRate q = m_FrameRate ?p1" "m_TotalFrames q = m_TotalFrames ?p1"
           "m_LastFrameTime q = m_LastFrameTime ?p1"
    by blast
  show ?case
  proof (intro exI [of _ q] exI [of _ d'] conjI)
    show "ffmpeg_loop p decoded = ffmpeg_loop q (decoded \<or> 0 < Suc n)"
      using step q(1) by simp
    show "m_AccumulatedTime q = clock_after (Suc n) (m_AccumulatedTime p) (m_FrameDuration p)"
      using q(2) by simp
    show "m_CurrentFrame q = m_CurrentFrame p + int (Suc n)"
      using q(4) by (simp add: next_frame)
    show "ff_packets d' = map Picture (drop (Suc n) pics) @ rest"
      using q(8) by (simp add: pics)
  qed (use q in simp_all)
qed


lemma mf_decode_sample:
  assumes "m_Reader q = Some r" "mf_samples r = Sample t pic # rest"
  shows "fst (DecodeNextFrame q)"
    "m_Reader (snd (DecodeNextFrame q)) = Some (r\<lparr>mf_samples := rest\<rparr>)"
    "m_CurrentFrame (snd (DecodeNextFrame q)) = sample_frame (m_FrameRate q) t"
    "m_EndOfStream (snd (DecodeNextFrame q)) = m_EndOfStream q"
  using assms by (simp_all add: DecodeNextFrame_def sample_frame_def Let_def)

lemma mf_decode_end:
  assumes "m_Reader q = Some r" "mf_samples r = []"
  shows "\<not> fst (DecodeNextFrame q)"
    "m_EndOfStream (snd (DecodeNextFrame q))"
    "m_Reader (snd (DecodeNextFrame q)) = m_Reader q"
    "m_CurrentFrame (snd (DecodeNextFrame q)) = m_CurrentFrame q"
  using assms by (simp_all add: DecodeNextFrame_def)

lemma mf_loop_unroll:
  assumes "m_Reader p = Some r" "\<not> m_EndOfStream p"
    "mf_samples r = map (case_prod Sample) xs @ rest" "n \<le> length xs"
    "\<forall>i<n. m_FrameDuration p \<le> clock_after i (m_AccumulatedTime p) (m_FrameDuration p)"
  shows "\<exists>q r'. mf_loop p decoded = mf_loop q (decoded \<or> 0 < n)
           \<and> m_AccumulatedTime q = clock_after n (m_AccumulatedTime p) (m_FrameDuration p)
           \<and> m_FrameDuration q = m_FrameDuration p
           \<and> m_CurrentFrame q
               = (if n = 0 then m_CurrentFrame p
                  else sample_frame (m_FrameRate p) (fst (xs ! (n - 1))))
           \<and> m_Reader q = Some r'
           \<and> mf_samples r' = map (case_prod Sample) (drop n xs) @ rest
           \<and> mf_seek_table r' = mf_seek_table r
           \<and> \<not> m_EndOfStream q
           \<and> m_Playing q = m_Playing p \<and> m_Loop q = m_Loop p \<and> m_Loaded q = m_Loaded p
           \<and> m_UsingFFmpeg q = m_UsingFFmpeg p \<and> m_FFmpegDecoder q = m_FFmpegDecoder p
           \<and> m_FrameRate q = m_FrameRate p \<and> m_TotalFrames q = m_TotalFrames p
           \<and> m_LastFrameTime q = m_LastFrameTime p"
  using assms
proof (induction n arbitrary: p r xs decoded)
  case 0
  then show ?case by auto
next
  case (Suc n)
  from Suc.prems(4) obtain t pic xs' where xs: "xs = (t, pic) # xs'"
    by (cases xs) auto
  let ?p0 = "p\<lparr>m_AccumulatedTime := dsub (m_AccumulatedTime p) (m_FrameDuration p)\<rparr>"
  let ?r1 = "r\<lparr>mf_samples := map (case_prod Sample) xs' @ rest\<rparr>"
  let ?p1 = "snd (DecodeNextFrame ?p0)"
  have dec: "m_Reader ?p0 = Some r"
    "mf_samples r = Sample t pic # (map (case_prod Sample) xs' @ rest)"
    using Suc.prems(1,3) by (simp_all add: xs)
  note one = mf_decode_sample [OF dec]
  have clock0: "m_FrameDuration p \<le> m_AccumulatedTime p"
    using Suc.prems(5) by (auto dest: spec [of _ 0])
  have step: "mf_loop p decoded = mf_loop ?p1 True"
    using clock0 Suc.prems(2) one(1,4)
    by (subst mf_loop.simps) (simp add: split_beta)
  have clock: "\<forall>i<n. m_FrameDuration ?p1 \<le> clock_after i (m_AccumulatedTime ?p1) (m_FrameDuration ?p1)"
    using Suc.prems(5) by (auto dest: spec [of _ "Suc i" for i])
  have "\<exists>q r'. mf_loop ?p1 True = mf_loop q (True \<or> 0 < n)
           \<and> m_AccumulatedTime q = clock_after n (m_AccumulatedTime ?p1) (m_FrameDuration ?p1)
           \<and> m_FrameDuration q = m_FrameDuration ?p1
           \<and> m_CurrentFrame q
               = (if n = 0 then m_CurrentFrame ?p1
                  else sample_frame (m_FrameRate ?p1) (fst (xs' ! (n - 1))))
           \<and> m_Reader q = Some r'
           \<and> mf_samples r' = map (case_prod Sample) (drop n xs') @ rest
           \<and> mf_seek_table r' = mf_seek_table ?r1
           \<and> \<not> m_EndOfStream q
           \<and> m_Playing q = m_Playing ?p1 \<and> m_Loop q = m_Loop ?p1 \<and> m_Loaded q = m_Loaded ?p1
           \<and> m_UsingFFmpeg q = m_UsingFFmpeg ?p1 \<and> m_FFmpegDecoder q = m_FFmpegDecoder ?p1
           \<and> m_FrameRate q = m_FrameRate ?p1 \<and> m_TotalFrames q = m_TotalFrames ?p1
           \<and> m_LastFrameTime q = m_LastFrameTime ?p1"
  proof (rule Suc.IH [of ?p1 ?r1 xs' True])
    show "m_Reader ?p1 = Some ?r1" using one(2) by simp
    show "\<not> m_EndOfStream ?p1" using one(4) Suc.prems(2) by simp
    show "mf_samples ?r1 = map (case_prod Sample) xs' @ rest" by simp
    show "n \<le> length xs'" using Suc.prems(4) by (simp add: xs)
    show "\<forall>i<n. m_FrameDuration ?p1 \<le> clock_after i (m_AccumulatedTime ?p1) (m_FrameDuration ?p1)"
      by (rule clock)
  qed
  then obtain q r' where q: "mf_loop ?p1 True = mf_loop q (True \<or> 0 < n)"
           "m_AccumulatedTime q = clock_after n (m_AccumulatedTime ?p1) (m_FrameDuration ?p1)"
           "m_FrameDuration q = m_FrameDuration ?p1"
           "m_CurrentFrame q
               = (if n = 0 then m_CurrentFrame ?p1
                  else sample_frame (m_FrameRate ?p1) (fst (xs' ! (n - 1))))"
           "m_Reader q = Some r'"
           "mf_samples r' = map (case_prod Sample) (drop n xs') @ rest"
           "mf_seek_table r' = mf_seek_table ?r1"
           "\<not> m_EndOfStream q"
           "m_Playing q = m_Playing ?p1" "m_Loop q = m_Loop ?p1" "m_Loaded q = m_Loaded ?p1"
           "m_UsingFFmpeg q = m_UsingFFmpeg ?p1" "m_FFmpegDecoder q = m_FFmpegDecoder ?p1"
           "m_FrameRate q = m_FrameRate ?p1" "m_TotalFrames q = m_TotalFrames ?p1"
           "m_LastFrameTime q = m_LastFrameTime ?p1"
    by blast
  show ?case
  proof (intro exI [of _ q] exI [of _ r'] conjI)
    show "mf_loop p decoded = mf_loop q (decoded \<or> 0 < Suc n)"
      using step q(1) by simp
    show "m_AccumulatedTime q = clock_after (Suc n) (m_AccumulatedTime p) (m_FrameDuration p)"
      using q(2) by simp
    show "m_CurrentFrame q
            = (if Suc n = 0 then m_CurrentFrame p
               else sample_frame (m_FrameRate p) (fst (xs ! (Suc n - 1))))"
      using q(4) one(3) by (simp add: xs nth_Cons')
    show "mf_samples r' = map (case_prod Sample) (drop (Suc n) xs) @ rest"
      using q(6) by (simp add: xs)
  qed (use q in simp_all)
qed

lemma UpdateFrame_as_loop:
  assumes "m_Loaded p" "m_Playing p" "m_Frequency p \<noteq> 0"
  shows "UpdateFrame now p =
           (if m_UsingFFmpeg p \<and> m_FFmpegDecoder p \<noteq> None
            then ffmpeg_loop (p\<lparr>m_LastFrameTime := now, m_AccumulatedTime := clock_start now p\<rparr>) False
            else mf_loop (p\<lparr>m_LastFrameTime := now, m_AccumulatedTime := clock_start now p\<rparr>) False)"
proof -
  let ?p1 = "p\<lparr>m_LastFrameTime := now, m_AccumulatedTime := clock_start now p\<rparr>"
  have early: "m_AccumulatedTime ?p1 < m_FrameDuration ?p1 \<Longrightarrow> ffmpeg_loop ?p1 False = Some (False, ?p1)"
    by (subst ffmpeg_loop.simps) simp
  have early': "m_AccumulatedTime ?p1 < m_FrameDuration ?p1 \<Longrightarrow> mf_loop ?p1 False = Some (False, ?p1)"
    by (subst mf_loop.simps) simp
  show ?thesis
    using assms early early'
    by (auto simp: UpdateFrame_def Let_def clock_start_def)
qed

lemma UpdateFrame_ffmpeg_frames:
  assumes "m_Loaded p" "m_Playing p" "m_Frequency p \<noteq> 0" "\<not> m_EndOfStream p"
    "m_UsingFFmpeg p" "m_FFmpegDecoder p = Some d" "ff_Opened d" "\<not> ff_EndOfStream d"
    "ff_packets d = map Picture pics @ rest" "n \<le> length pics"
    "\<forall>i<n. m_FrameDuration p \<le> clock_after i (clock_start now p) (m_FrameDuration p)"
    "clock_after n (clock_start now p) (m_FrameDuration p) < m_FrameDuration p"
    "0 \<le> m_CurrentFrame p" "m_CurrentFrame p + int n < 2 ^ 31"
  shows "\<exists>p' d'. UpdateFrame now p = Some (0 < n, p')
           \<and> m_AccumulatedTime p' = clock_after n (clock_start now p) (m_FrameDuration p)
           \<and> m_CurrentFrame p' = m_CurrentFrame p + int n
           \<and> m_FFmpegDecoder p' = Some d'
           \<and> ff_packets d' = map Picture (drop n pics) @ rest
           \<and> m_LastFrameTime p' = now \<and> m_Playing p' \<and> \<not> m_EndOfStream p'
           \<and> m_Reader p' = m_Reader p"
proof -
  let ?p1 = "p\<lparr>m_LastFrameTime := now, m_AccumulatedTime := clock_start now p\<rparr>"
  have "\<exists>q d'. ffmpeg_loop ?p1 False = ffmpeg_loop q (False \<or> 0 < n)
           \<and> m_AccumulatedTime q = clock_after n (m_AccumulatedTime ?p1) (m_FrameDuration ?p1)
           \<and> m_FrameDuration q = m_FrameDuration ?p1
           \<and> m_CurrentFrame q = m_CurrentFrame ?p1 + int n
           \<and> m_FFmpegDecoder q = Some d' \<and> ff_Opened d' \<and> \<not> ff_EndOfStream d'
           \<and> ff_packets d' = map Picture (drop n pics) @ rest
           \<and> \<not> m_EndOfStream q
           \<and> m_Playing q = m_Playing ?p1 \<and> m_Loop q = m_Loop ?p1 \<and> m_Loaded q = m_Loaded ?p1
           \<and> m_UsingFFmpeg q = m_UsingFFmpeg ?p1 \<and> m_Reader q = m_Reader ?p1
           \<and> m_FrameRate q = m_FrameRate ?p1 \<and> m_TotalFrames q = m_TotalFrames ?p1
           \<and> m_LastFrameTime q = m_LastFrameTime ?p1"
    using assms by (intro ffmpeg_loop_unroll [of ?p1 d pics rest n False]) simp_all
  then obtain q d' where q: "ffmpeg_loop ?p1 False = ffmpeg_loop q (0 < n)"
      "m_AccumulatedTime q = clock_after n (clock_start now p) (m_FrameDuration p)"
      "m_FrameDuration q = m_FrameDuration p"
      "m_CurrentFrame q = m_CurrentFrame p + int n"
      "m_FFmpegDecoder q = Some d'" "ff_packets d' = map Picture (drop n pics) @ rest"
      "\<not> m_EndOfStream q" "m_Playing q = m_Playing p" "m_LastFrameTime q = now"
      "m_Reader q = m_Reader p"
    by auto
  have stop: "ffmpeg_loop q (0 < n) = Some (0 < n, q)"
    using q(2,3) assms(12) by (subst ffmpeg_loop.simps) simp
  have "UpdateFrame now p = Some (0 < n, q)"
    using assms(1,2,3,5,6) q(1) stop by (simp add: UpdateFrame_as_loop)
  then show ?thesis
    using q assms(2) by auto
qed

lemma UpdateFrame_mf_frames:
  assumes "m_Loaded p" "m_Playing p" "m_Frequency p \<noteq> 0" "\<not> m_EndOfStream p"
    "\<not> m_UsingFFmpeg p" "m_Reader p = Some r"
    "mf_samples r = map (case_prod Sample) xs @ rest" "n \<le> length xs"
    "\<forall>i<n. m_FrameDuration p \<le> clock_after i (clock_start now p) (m_FrameDuration p)"
    "clock_after n (clock_start now p) (m_FrameDuration p) < m_FrameDuration p"
  shows "\<exists>p' r'. UpdateFrame now p = Some (0 < n, p')
           \<and> m_AccumulatedTime p' = clock_after n (clock_start now p) (m_FrameDuration p)
           \<and> m_CurrentFrame p'
               = (if n = 0 then m_CurrentFrame p
                  else sample_frame (m_FrameRate p) (fst (xs ! (n - 1))))
           \<and> m_Reader p' = Some r'
           \<and> mf_samples r' = map (case_prod Sample) (drop n xs) @ rest
           \<and> m_LastFrameTime p' = now \<and> m_Playing p' \<and> \<not> m_EndOfStream p'
           \<and> m_FFmpegDecoder p' = m_FFmpegDecoder p"
proof -
  let ?p1 = "p\<lparr>m_LastFrameTime := now, m_AccumulatedTime := clock_start now p\<rparr>"
  have "\<exists>q r'. mf_loop ?p1 False = mf_loop q (False \<or> 0 < n)
           \<and> m_AccumulatedTime q = clock_after n (m_AccumulatedTime ?p1) (m_FrameDuration ?p1)
           \<and> m_FrameDuration q = m_FrameDuration ?p1
           \<and> m_CurrentFrame q
               = (if n = 0 then m_CurrentFrame ?p1
                  else sample_frame (m_FrameRate ?p1) (fst (xs ! (n - 1))))
           \<and> m_Reader q = Some r'
           \<and> mf_samples r' = map (case_prod Sample) (drop n xs) @ rest
           \<and> mf_seek_table r' = mf_seek_table r
           \<and> \<not> m_EndOfStream q
           \<and> m_Playing q = m_Playing ?p1 \<and> m_Loop q = m_Loop ?p1 \<and> m_Loaded q = m_Loaded ?p1
           \<and> m_UsingFFmpeg q = m_UsingFFmpeg ?p1 \<and> m_FFmpegDecoder q = m_FFmpegDecoder ?p1
           \<and> m_FrameRate q = m_FrameRate ?p1 \<and> m_TotalFrames q = m_TotalFrames ?p1
           \<and> m_LastFrameTime q = m_LastFrameTime ?p1"
    using assms by (intro mf_loop_unroll [of ?p1 r xs rest n False]) simp_all
  then obtain q r' where q: "mf_loop ?p1 False = mf_loop q (0 < n)"
      "m_AccumulatedTime q = clock_after n (clock_start now p) (m_FrameDuration p)"
      "m_FrameDuration q = m_FrameDuration p"
      "m_CurrentFrame q
               = (if n = 0 then m_CurrentFrame p
                  else sample_frame (m_FrameRate p) (fst (xs ! (n - 1))))"
      "m_Reader q = Some r'" "mf_samples r' = map (case_prod Sample) (drop n xs) @ rest"
      "\<not> m_EndOfStream q" "m_Playing q = m_Playing p" "m_LastFrameTime q = now"
      "m_FFmpegDecoder q = m_FFmpegDecoder p"
    by auto
  have stop: "mf_loop q (0 < n) = Some (0 < n, q)"
    using q(2,3) assms(10) by (subst mf_loop.simps) simp
  have "UpdateFrame now p = Some (0 < n, q)"
    using assms(1,2,3,5) q(1) stop by (simp add: UpdateFrame_as_loop)
  then show ?thesis
    using q assms(2) by auto
qed

lemma clock_25:
  "ddiv 1 25 \<le> clock_after 0 (dadd 0 (fl 53 (3 / 25))) (ddiv 1 25)"
  "ddiv 1 25 \<le> clock_after 1 (dadd 0 (fl 53 (3 / 25))) (ddiv 1 25)"
  "clock_after 2 (dadd 0 (fl 53 (3 / 25))) (ddiv 1 25) < ddiv 1 25"
  "clock_after 2 (dadd 0 (fl 53 (3 / 25))) (ddiv 1 25) = 5764607523034233 / 2 ^ 57"
  "ddiv 1 25 = 5764607523034235 / 2 ^ 57"
  by code_simp+


section \<open>The video player: which backend a seek asks\<close>







section \<open>The video player: the end of the stream\<close>

lemma clamp_frame_0: "clamp_frame 0 p = 0"
  by (simp add: clamp_frame_def)

lemma seek_key_0:
  "int64_of_double (dmul (frame_time 0 q) 10000000) = 0"
  by (simp add: frame_time_def double_of_int_def ddiv_def dmul_def fl_zero
      int64_of_double_def trunc_double_def)

lemma loop_back_ffmpeg:
  assumes "m_Loaded q" "m_UsingFFmpeg q"
  shows "m_Loop q \<Longrightarrow> m_CurrentFrame (on_end_of_stream q) = 0"
    "m_Loop q \<Longrightarrow> m_Playing (on_end_of_stream q)"
    "m_Loop q \<Longrightarrow> \<not> m_EndOfStream (on_end_of_stream q)"
    "\<not> m_Loop q \<Longrightarrow> m_CurrentFrame (on_end_of_stream q) = m_CurrentFrame q"
    "\<not> m_Loop q \<Longrightarrow> \<not> m_Playing (on_end_of_stream q)"
    "\<not> m_Loop q \<Longrightarrow> m_EndOfStream (on_end_of_stream q) = m_EndOfStream q"
  using assms
  by (simp_all add: on_end_of_stream_def SeekToFrameInternal_def Let_def clamp_frame_0)

lemma loop_back_mf:
  assumes "m_Loaded q" "\<not> m_UsingFFmpeg q" "m_Reader q = Some rd"
  shows "m_Loop q \<Longrightarrow> m_CurrentFrame (on_end_of_stream q)
            = (case map_of (mf_seek_table rd) 0 of
                 None \<Rightarrow> m_CurrentFrame q
               | Some (Sample t pic # samples) \<Rightarrow> sample_frame (m_FrameRate q) t
               | Some _ \<Rightarrow> 0)"
    "m_Loop q \<Longrightarrow> m_Playing (on_end_of_stream q)"
    "m_Loop q \<Longrightarrow> \<not> m_EndOfStream (on_end_of_stream q)"
    "\<not> m_Loop q \<Longrightarrow> m_CurrentFrame (on_end_of_stream q) = m_CurrentFrame q"
    "\<not> m_Loop q \<Longrightarrow> \<not> m_Playing (on_end_of_stream q)"
    "\<not> m_Loop q \<Longrightarrow> m_EndOfStream (on_end_of_stream q) = m_EndOfStream q"
  using assms
  by (simp_all add: on_end_of_stream_def SeekToFrameInternal_def Let_def seek_key_0
      DecodeNextFrame_def sample_frame_def clamp_frame_0
      split: option.splits list.splits mf_sample.splits)


lemma UpdateFrame_ffmpeg_end:
  assumes "m_Loaded p" "m_Playing p" "m_Frequency p \<noteq> 0" "\<not> m_EndOfStream p"
    "m_UsingFFmpeg p" "m_FFmpegDecoder p = Some d" "ff_Opened d" "\<not> ff_EndOfStream d"
    "ff_packets d = map Picture pics"
    "\<forall>i\<le>length pics. m_FrameDuration p \<le> clock_after i (clock_start now p) (m_FrameDuration p)"
    "0 \<le> m_CurrentFrame p" "m_CurrentFrame p + int (length pics) < 2 ^ 31"
  shows "\<exists>p'. UpdateFrame now p = Some (0 < length pics, p')
           \<and> (if m_Loop p
               then m_Playing p' \<and> m_CurrentFrame p' = 0 \<and> \<not> m_EndOfStream p'
               else \<not> m_Playing p' \<and> m_CurrentFrame p' = m_CurrentFrame p + int (length pics)
                    \<and> m_EndOfStream p')"
proof -
  let ?n = "length pics"
  let ?p1 = "p\<lparr>m_LastFrameTime := now, m_AccumulatedTime := clock_start now p\<rparr>"
  have "\<exists>q d'. ffmpeg_loop ?p1 False = ffmpeg_loop q (False \<or> 0 < ?n)
           \<and> m_AccumulatedTime q = clock_after ?n (m_AccumulatedTime ?p1) (m_FrameDuration ?p1)
           \<and> m_FrameDuration q = m_FrameDuration ?p1
           \<and> m_CurrentFrame q = m_CurrentFrame ?p1 + int ?n
           \<and> m_FFmpegDecoder q = Some d' \<and> ff_Opened d' \<and> \<not> ff_EndOfStream d'
           \<and> ff_packets d' = map Picture (drop ?n pics) @ []
           \<and> \<not> m_EndOfStream q
           \<and> m_Playing q = m_Playing ?p1 \<and> m_Loop q = m_Loop ?p1 \<and> m_Loaded q = m_Loaded ?p1
           \<and> m_UsingFFmpeg q = m_UsingFFmpeg ?p1 \<and> m_Reader q = m_Reader ?p1
           \<and> m_FrameRate q = m_FrameRate ?p1 \<and> m_TotalFrames q = m_TotalFrames ?p1
           \<and> m_LastFrameTime q = m_LastFrameTime ?p1"
    using assms by (intro ffmpeg_loop_unroll [of ?p1 d pics "[]" ?n False]) simp_all
  then obtain q d' where q: "ffmpeg_loop ?p1 False = ffmpeg_loop q (0 < ?n)"
      "m_AccumulatedTime q = clock_after ?n (clock_start now p) (m_FrameDuration p)"
      "m_FrameDuration q = m_FrameDuration p"
      "m_CurrentFrame q = m_CurrentFrame p + int ?n"
      "m_FFmpegDecoder q = Some d'" "ff_Opened d'" "\<not> ff_EndOfStream d'" "ff_packets d' = []"
      "\<not> m_EndOfStream q" "m_Loop q = m_Loop p" "m_Loaded q" "m_UsingFFmpeg q"
    using assms(1,5) by auto
  let ?q0 = "q\<lparr>m_AccumulatedTime := dsub (m_AccumulatedTime q) (m_FrameDuration q)\<rparr>"
  let ?x = "(snd (decode_and_copy ?q0))\<lparr>m_EndOfStream := True\<rparr>"
  have dec: "m_FFmpegDecoder ?q0 = Some d'" using q(5) by simp
  note ended = decode_end [OF dec q(6,7,8)]
  have due: "m_FrameDuration q \<le> m_AccumulatedTime q"
    using assms(10) q(2,3) by simp
  have stop: "ffmpeg_loop q (0 < ?n) = Some (0 < ?n, on_end_of_stream ?x)"
    using due q(5,9) ended by (subst ffmpeg_loop.simps) (simp add: split_beta)
  have run: "UpdateFrame now p = Some (0 < ?n, on_end_of_stream ?x)"
    using assms(1,2,3,5,6) q(1) stop by (simp add: UpdateFrame_as_loop)
  have x: "m_Loaded ?x" "m_UsingFFmpeg ?x" "m_Loop ?x = m_Loop p"
    "m_CurrentFrame ?x = m_CurrentFrame p + int ?n" "m_EndOfStream ?x"
    using q(4,10,11,12) by simp_all
  show ?thesis
    using run x loop_back_ffmpeg [OF x(1,2)] by (cases "m_Loop p") simp_all
qed

lemma UpdateFrame_mf_end:
  assumes "m_Loaded p" "m_Playing p" "m_Frequency p \<noteq> 0" "\<not> m_EndOfStream p"
    "\<not> m_UsingFFmpeg p" "m_Reader p = Some rd"
    "mf_samples rd = map (case_prod Sample) xs"
    "\<forall>i\<le>length xs. m_FrameDuration p \<le> clock_after i (clock_start now p) (m_FrameDuration p)"
  shows "\<exists>p'. UpdateFrame now p = Some (False, p')
           \<and> (if m_Loop p
               then m_Playing p' \<and> \<not> m_EndOfStream p'
                    \<and> m_CurrentFrame p'
                        = (case map_of (mf_seek_table rd) 0 of
                             None \<Rightarrow> (if xs = [] then m_CurrentFrame p
                                       else sample_frame (m_FrameRate p) (fst (last xs)))
                           | Some (Sample t pic # samples) \<Rightarrow> sample_frame (m_FrameRate p) t
                           | Some _ \<Rightarrow> 0)
               else \<not> m_Playing p' \<and> m_EndOfStream p'
                    \<and> m_CurrentFrame p'
                        = (if xs = [] then m_CurrentFrame p
                           else sample_frame (m_FrameRate p) (fst (last xs))))"
proof -
  let ?n = "length xs"
  let ?p1 = "p\<lparr>m_LastFrameTime := now, m_AccumulatedTime := clock_start now p\<rparr>"
  let ?last = "if xs = [] then m_CurrentFrame p
               else sample_frame (m_FrameRate p) (fst (last xs))"
  have "\<exists>q r'. mf_loop ?p1 False = mf_loop q (False \<or> 0 < ?n)
           \<and> m_AccumulatedTime q = clock_after ?n (m_AccumulatedTime ?p1) (m_FrameDuration ?p1)
           \<and> m_FrameDuration q = m_FrameDuration ?p1
           \<and> m_CurrentFrame q
               = (if ?n = 0 then m_CurrentFrame ?p1
                  else sample_frame (m_FrameRate ?p1) (fst (xs ! (?n - 1))))
           \<and> m_Reader q = Some r'
           \<and> mf_samples r' = map (case_prod Sample) (drop ?n xs) @ []
           \<and> mf_seek_table r' = mf_seek_table rd
           \<and> \<not> m_EndOfStream q
           \<and> m_Playing q = m_Playing ?p1 \<and> m_Loop q = m_Loop ?p1 \<and> m_Loaded q = m_Loaded ?p1
           \<and> m_UsingFFmpeg q = m_UsingFFmpeg ?p1 \<and> m_FFmpegDecoder q = m_FFmpegDecoder ?p1
           \<and> m_FrameRate q = m_FrameRate ?p1 \<and> m_TotalFrames q = m_TotalFrames ?p1
           \<and> m_LastFrameTime q = m_LastFrameTime ?p1"
    using assms by (intro mf_loop_unroll [of ?p1 rd xs "[]" ?n False]) simp_all
  then obtain q r' where q: "mf_loop ?p1 False = mf_loop q (0 < ?n)"
      "m_AccumulatedTime q = clock_after ?n (clock_start now p) (m_FrameDuration p)"
      "m_FrameDuration q = m_FrameDuration p"
      "m_CurrentFrame q = ?last"
      "m_Reader q = Some r'" "mf_samples r' = []" "mf_seek_table r' = mf_seek_table rd"
      "\<not> m_EndOfStream q" "m_Loop q = m_Loop p" "m_Loaded q" "\<not> m_UsingFFmpeg q"
      "m_FrameRate q = m_FrameRate p"
    using assms(1,5) by (auto simp: last_conv_nth)
  let ?q0 = "q\<lparr>m_AccumulatedTime := dsub (m_AccumulatedTime q) (m_FrameDuration q)\<rparr>"
  let ?x = "snd (DecodeNextFrame ?q0)"
  have dec: "m_Reader ?q0 = Some r'" using q(5) by simp
  note ended = mf_decode_end [OF dec q(6)]
  have due: "m_FrameDuration q \<le> m_AccumulatedTime q"
    using assms(8) q(2,3) by simp
  have stop: "mf_loop q (0 < ?n) = Some (False, on_end_of_stream ?x)"
    using due q(8) ended(1,2) by (subst mf_loop.simps) (simp add: split_beta)
  have run: "UpdateFrame now p = Some (False, on_end_of_stream ?x)"
    using assms(1,2,3,5) q(1) stop by (simp add: UpdateFrame_as_loop)
  have x: "m_Loaded ?x" "\<not> m_UsingFFmpeg ?x" "m_Reader ?x = Some r'" "m_Loop ?x = m_Loop p"
    "m_CurrentFrame ?x = ?last" "m_EndOfStream ?x" "m_FrameRate ?x = m_FrameRate p"
    using q(4,5,9,10,11,12) ended by simp_all
  show ?thesis
  proof (cases "m_Loop p")
    case True
    then have l: "m_Loop ?x" using x(4) by simp
    have "m_CurrentFrame (on_end_of_stream ?x)
            = (case map_of (mf_seek_table rd) 0 of
                 None \<Rightarrow> ?last
               | Some (Sample t pic # samples) \<Rightarrow> sample_frame (m_FrameRate p) t
               | Some _ \<Rightarrow> 0)"
      using loop_back_mf(1) [OF x(1,2,3) l] x(5,7) q(7)
      by (simp split: option.splits list.splits mf_sample.splits)
    then show ?thesis
      using run True loop_back_mf(2,3) [OF x(1,2,3) l] by simp
  next
    case False
    then have l: "\<not> m_Loop ?x" using x(4) by simp
    show ?thesis
      using run False loop_back_mf(4,5,6) [OF x(1,2,3) l] x(5,6) by simp
  qed
qed

section \<open>Loading a video: the two backends\<close>

lemma CreateTexture_keeps [simp]:
  "m_Reader (snd (CreateTexture t v p)) = m_Reader p"
  "m_FFmpegDecoder (snd (CreateTexture t v p)) = m_FFmpegDecoder p"
  "m_UsingFFmpeg (snd (CreateTexture t v p)) = m_UsingFFmpeg p"
  "m_Loaded (snd (CreateTexture t v p)) = m_Loaded p"
  "m_FrameRate (snd (CreateTexture t v p)) = m_FrameRate p"
  "VideoPlayer.m_Width (snd (CreateTexture t v p)) = VideoPlayer.m_Width p"
  "VideoPlayer.m_Height (snd (CreateTexture t v p)) = VideoPlayer.m_Height p"
  by (simp_all add: CreateTexture_def)








section \<open>The sample file under each backend\<close>
















section \<open>Frames per update\<close>

lemma two_passes:
  "\<forall>i<2. ddiv 1 25 \<le> clock_after i (dadd 0 (fl 53 (3 / 25))) (ddiv 1 25)"
proof (intro allI impI)
  fix i :: nat
  assume "i < 2"
  then consider "i = 0" | "i = 1" by linarith
  then show "ddiv 1 25 \<le> clock_after i (dadd 0 (fl 53 (3 / 25))) (ddiv 1 25)"
    using clock_25(1,2) by cases simp_all
qed

lemma ffmpeg_25_frames:
  assumes "m_Loaded p" "m_Playing p" "m_Frequency p \<noteq> 0" "\<not> m_EndOfStream p"
    "m_UsingFFmpeg p" "m_FFmpegDecoder p = Some d" "ff_Opened d" "\<not> ff_EndOfStream d"
    "ff_packets d = map Picture pics @ rest" "2 \<le> length pics"
    "m_FrameRate p = 25" "m_FrameDuration p = ddiv 1 (m_FrameRate p)"
    "m_AccumulatedTime p = 0" "player_elapsed now p = fl 53 (3 / 25)"
    "0 \<le> m_CurrentFrame p" "m_CurrentFrame p + 2 < 2 ^ 31"
  shows "\<exists>p' d'. UpdateFrame now p = Some (True, p')
           \<and> m_CurrentFrame p' = m_CurrentFrame p + 2
           \<and> m_FFmpegDecoder p' = Some d' \<and> ff_packets d' = map Picture (drop 2 pics) @ rest
           \<and> m_AccumulatedTime p' = 5764607523034233 / 2 ^ 57
           \<and> m_AccumulatedTime p' < m_FrameDuration p"
proof -
  have fd: "m_FrameDuration p = ddiv 1 25" using assms(11,12) by simp
  have start: "clock_start now p = dadd 0 (fl 53 (3 / 25))"
    using assms(13,14) by (simp add: clock_start_def)
  have "\<exists>p' d'. UpdateFrame now p = Some (0 < (2::nat), p')
           \<and> m_AccumulatedTime p' = clock_after 2 (clock_start now p) (m_FrameDuration p)
           \<and> m_CurrentFrame p' = m_CurrentFrame p + int 2
           \<and> m_FFmpegDecoder p' = Some d'
           \<and> ff_packets d' = map Picture (drop 2 pics) @ rest
           \<and> m_LastFrameTime p' = now \<and> m_Playing p' \<and> \<not> m_EndOfStream p'
           \<and> m_Reader p' = m_Reader p"
    using assms(1-10,15,16) two_passes clock_25(3)
    by (intro UpdateFrame_ffmpeg_frames) (simp_all add: fd start)
  then show ?thesis
    using clock_25(3,4) by (auto simp: fd start)
qed

lemma mf_25_frames:
  assumes "m_Loaded p" "m_Playing p" "m_Frequency p \<noteq> 0" "\<not> m_EndOfStream p"
    "\<not> m_UsingFFmpeg p" "m_Reader p = Some r"
    "mf_samples r = map (case_prod Sample) xs @ rest" "2 \<le> length xs"
    "m_FrameRate p = 25" "m_FrameDuration p = ddiv 1 (m_FrameRate p)"
    "m_AccumulatedTime p = 0" "player_elapsed now p = fl 53 (3 / 25)"
  shows "\<exists>p' r'. UpdateFrame now p = Some (True, p')
           \<and> m_CurrentFrame p' = sample_frame (m_FrameRate p) (fst (xs ! 1))
           \<and> m_Reader p' = Some r' \<and> mf_samples r' = map (case_prod Sample) (drop 2 xs) @ rest
           \<and> m_AccumulatedTime p' = 5764607523034233 / 2 ^ 57
           \<and> m_AccumulatedTime p' < m_FrameDuration p"
proof -
  have fd: "m_FrameDuration p = ddiv 1 25" using assms(9,10) by simp
  have start: "clock_start now p = dadd 0 (fl 53 (3 / 25))"
    using assms(11,12) by (simp add: clock_start_def)
  have "\<exists>p' r'. UpdateFrame now p = Some (0 < (2::nat), p')
           \<and> m_AccumulatedTime p' = clock_after 2 (clock_start now p) (m_FrameDuration p)
           \<and> m_CurrentFrame p'
               = (if (2::nat) = 0 then m_CurrentFrame p
                  else sample_frame (m_FrameRate p) (fst (xs ! (2 - 1))))
           \<and> m_Reader p' = Some r'
           \<and> mf_samples r' = map (case_prod Sample) (drop 2 xs) @ rest
           \<and> m_LastFrameTime p' = now \<and> m_Playing p' \<and> \<not> m_EndOfStream p'
           \<and> m_FFmpegDecoder p' = m_FFmpegDecoder p"
    using assms(1-8) two_passes clock_25(3)
    by (intro UpdateFrame_mf_frames) (simp_all add: fd start)
  then show ?thesis
    using clock_25(3,4) by (auto simp: fd start)
qed

end
